(* ===== verification/Xen_Prelude.thy ===== *)
theory Xen_Prelude
  imports Main "HOL-Library.Multiset"
begin

text \<open>
  Shared vocabulary of the development: C integers with their wrap-around written out,
  error codes as values, physical-CPU masks as include/xen/cpumask.h scans them, and the
  generic list lemmas the components share.
\<close>

named_theorems frame_simps \<open>fields an operation leaves alone\<close>

section \<open>C integers\<close>

text \<open>
  Signed and unsigned 64-bit and signed 32-bit integers are \<open>int\<close>; a C operation that may
  leave the range is followed by the conversion that the machine performs. (Xen is built
  with \<^verbatim>\<open>-fno-strict-overflow\<close> semantics: signed arithmetic wraps.)
\<close>

definition s64 :: "int \<Rightarrow> int" where
  "s64 x = (x + 2 ^ 63) mod 2 ^ 64 - 2 ^ 63"

definition s32 :: "int \<Rightarrow> int" where
  "s32 x = (x + 2 ^ 31) mod 2 ^ 32 - 2 ^ 31"

definition u64 :: "int \<Rightarrow> int" where
  "u64 x = x mod 2 ^ 64"

definition u32 :: "int \<Rightarrow> int" where
  "u32 x = x mod 2 ^ 32"

text \<open>C division truncates towards zero.\<close>

definition cdiv :: "int \<Rightarrow> int \<Rightarrow> int" where
  "cdiv a b = sgn a * sgn b * (\<bar>a\<bar> div \<bar>b\<bar>)"

definition STIME_MAX :: int where
  "STIME_MAX = 2 ^ 63 - 1"

lemma s64_id: "- (2 ^ 63) \<le> x \<Longrightarrow> x < 2 ^ 63 \<Longrightarrow> s64 x = x"
  by (simp add: s64_def)

lemma s64_range: "- (2 ^ 63) \<le> s64 x \<and> s64 x < 2 ^ 63"
proof -
  have "0 \<le> (x + 2 ^ 63) mod 2 ^ 64 \<and> (x + 2 ^ 63) mod 2 ^ 64 < 2 ^ 64"
    by simp
  moreover have "(2 :: int) ^ 64 = 2 ^ 63 + 2 ^ 63"
    by simp
  ultimately show ?thesis unfolding s64_def by linarith
qed

lemma s32_id: "- (2 ^ 31) \<le> x \<Longrightarrow> x < 2 ^ 31 \<Longrightarrow> s32 x = x"
  by (simp add: s32_def)

lemma u64_id: "0 \<le> x \<Longrightarrow> x < 2 ^ 64 \<Longrightarrow> u64 x = x"
  by (simp add: u64_def)

lemma u64_range: "0 \<le> u64 x \<and> u64 x < 2 ^ 64"
  by (simp add: u64_def)

lemma cdiv_nonneg: "0 \<le> a \<Longrightarrow> 0 < b \<Longrightarrow> cdiv a b = a div b"
  by (cases "a = 0") (simp_all add: cdiv_def)

section \<open>Error codes\<close>

datatype errno =
    EPERM | ENOENT | ESRCH | EBADF | EAGAIN | ENOMEM | EFAULT | EBUSY | EEXIST | EINVAL
  | ENOSPC | ENOSYS | EOVERFLOW | EADDRINUSE | EADDRNOTAVAIL | ENODEV | ERESTART | EXDEV
  | ERANGE | EOPNOTSUPP | EIO | EACCES

text \<open>The result of an operation that returns 0 or a negative error number.\<close>

type_synonym rc = "errno + unit"

abbreviation (input) OK :: rc where
  "OK \<equiv> Inr ()"

section \<open>CPU masks\<close>

text \<open>
  A \<^verbatim>\<open>cpumask_t\<close> is the set of its set bits. The scans return \<^verbatim>\<open>nr_cpu_ids\<close> when no bit
  qualifies, as find_first_bit and find_next_bit do.
\<close>

type_synonym cpumask = "nat set"

definition cpumask_next_from :: "nat \<Rightarrow> nat \<Rightarrow> cpumask \<Rightarrow> nat" where
  "cpumask_next_from nr lo m =
     (case filter (\<lambda>c. c \<in> m) [lo..<nr] of [] \<Rightarrow> nr | c # _ \<Rightarrow> c)"

definition cpumask_first :: "nat \<Rightarrow> cpumask \<Rightarrow> nat" where
  "cpumask_first nr m = cpumask_next_from nr 0 m"

definition cpumask_next :: "nat \<Rightarrow> nat \<Rightarrow> cpumask \<Rightarrow> nat" where
  "cpumask_next nr n m = cpumask_next_from nr (Suc n) m"

definition cpumask_cycle :: "nat \<Rightarrow> nat \<Rightarrow> cpumask \<Rightarrow> nat" where
  "cpumask_cycle nr n m =
     (let nxt = cpumask_next nr n m in if nxt = nr then cpumask_first nr m else nxt)"

definition cpumask_setall :: "nat \<Rightarrow> cpumask" where
  "cpumask_setall nr = {..<nr}"

lemma cpumask_next_from_in:
  assumes "c \<in> m" and "lo \<le> c" and "c < nr"
  shows "cpumask_next_from nr lo m \<in> m \<and> lo \<le> cpumask_next_from nr lo m
    \<and> cpumask_next_from nr lo m \<le> c"
proof -
  have "c \<in> set (filter (\<lambda>c. c \<in> m) [lo..<nr])"
    using assms by simp
  then obtain d ds where ds: "filter (\<lambda>c. c \<in> m) [lo..<nr] = d # ds"
    by (cases "filter (\<lambda>c. c \<in> m) [lo..<nr]") auto
  have "sorted (d # ds)"
    by (metis ds sorted_wrt_filter sorted_upt)
  moreover have "c \<in> set (d # ds)"
    using \<open>c \<in> set (filter _ _)\<close> ds by metis
  ultimately have "d \<le> c" by auto
  moreover have "d \<in> set (filter (\<lambda>c. c \<in> m) [lo..<nr])"
    by (simp only: ds list.set_intros)
  then have "d \<in> m" and "lo \<le> d"
    by simp_all
  ultimately show ?thesis
    using ds by (simp add: cpumask_next_from_def)
qed

lemma cpumask_next_from_none:
  "\<not> (\<exists>c\<in>m. lo \<le> c \<and> c < nr) \<Longrightarrow> cpumask_next_from nr lo m = nr"
proof -
  assume "\<not> (\<exists>c\<in>m. lo \<le> c \<and> c < nr)"
  then have "filter (\<lambda>c. c \<in> m) [lo..<nr] = []"
    by (auto simp: filter_empty_conv)
  then show ?thesis by (simp add: cpumask_next_from_def)
qed

lemma cpumask_next_from_le: "cpumask_next_from nr lo m \<le> nr"
proof (cases "\<exists>c\<in>m. lo \<le> c \<and> c < nr")
  case True
  then show ?thesis by (meson cpumask_next_from_in le_trans less_imp_le)
next
  case False
  then show ?thesis by (simp add: cpumask_next_from_none)
qed

text \<open>The first bit: the least member below the limit, if there is one.\<close>

lemma cpumask_first_in:
  "c \<in> m \<Longrightarrow> c < nr \<Longrightarrow> cpumask_first nr m \<in> m \<and> cpumask_first nr m \<le> c"
  unfolding cpumask_first_def using cpumask_next_from_in [of c m 0 nr] by simp

text \<open>Cycling over a mask that has a member below the limit stays in the mask.\<close>

lemma cpumask_cycle_in:
  assumes "c \<in> m" and "c < nr"
  shows "cpumask_cycle nr n m \<in> m \<and> cpumask_cycle nr n m < nr"
proof (cases "\<exists>c\<in>m. Suc n \<le> c \<and> c < nr")
  case True
  then obtain d where d: "d \<in> m" "Suc n \<le> d" "d < nr" by auto
  from cpumask_next_from_in [OF this]
  have "cpumask_next nr n m \<in> m" and "cpumask_next nr n m \<le> d"
    by (simp_all add: cpumask_next_def)
  with d show ?thesis by (simp add: cpumask_cycle_def Let_def)
next
  case False
  then have "cpumask_next nr n m = nr"
    by (simp add: cpumask_next_def cpumask_next_from_none)
  with cpumask_first_in [OF assms] assms show ?thesis
    by (auto simp: cpumask_cycle_def Let_def)
qed

section \<open>Lists\<close>

text \<open>
  \<^verbatim>\<open>list_for_each\<close> up to the first entry that \<open>p\<close> accepts, then \<^verbatim>\<open>list_add_tail\<close> in front of
  it (at the end of the list when none is accepted).
\<close>

fun insert_before :: "('a \<Rightarrow> bool) \<Rightarrow> 'a \<Rightarrow> 'a list \<Rightarrow> 'a list" where
  "insert_before p x [] = [x]"
| "insert_before p x (y # ys) = (if p y then x # y # ys else y # insert_before p x ys)"

lemma mset_insert_before [simp]: "mset (insert_before p x ys) = add_mset x (mset ys)"
  by (induction ys) auto

lemma set_insert_before [simp]: "set (insert_before p x ys) = insert x (set ys)"
  by (induction ys) auto

lemma distinct_insert_before [simp]:
  "distinct (insert_before p x ys) \<longleftrightarrow> x \<notin> set ys \<and> distinct ys"
  by (induction ys) auto

lemma insert_before_append:
  "insert_before p x ys = takeWhile (\<lambda>y. \<not> p y) ys @ x # dropWhile (\<lambda>y. \<not> p y) ys"
  by (induction ys) auto

lemma remove1_insert_before: "x \<notin> set ys \<Longrightarrow> remove1 x (insert_before p x ys) = ys"
  by (induction ys) auto

lemma insert_before_cong:
  "(\<And>y. y \<in> set ys \<Longrightarrow> p y = q y) \<Longrightarrow> insert_before p x ys = insert_before q x ys"
  by (induction ys) auto

lemma sorted_wrt_remove1: "sorted_wrt r xs \<Longrightarrow> sorted_wrt r (remove1 x xs)"
proof (induction xs)
  case Nil
  then show ?case by simp
next
  case (Cons y ys)
  then show ?case by (auto dest: notin_set_remove1)
qed

lemma find_split:
  "find p xs = Some x \<Longrightarrow> \<exists>us vs. xs = us @ x # vs \<and> p x \<and> (\<forall>u\<in>set us. \<not> p u)"
proof (induction xs)
  case Nil
  then show ?case by simp
next
  case (Cons y ys)
  show ?case
  proof (cases "p y")
    case True
    with Cons.prems show ?thesis by (intro exI [of _ "[]"] exI [of _ ys]) auto
  next
    case False
    with Cons obtain us vs where "ys = us @ x # vs" "p x" "\<forall>u\<in>set us. \<not> p u"
      by auto
    with False show ?thesis by (intro exI [of _ "y # us"] exI [of _ vs]) auto
  qed
qed

end
