(* ===== verification/Sched_Types.thy ===== *)
theory Sched_Types
  imports Xen_Prelude
begin

text \<open>
  The state the generic scheduler layer and the pluggable schedulers share: virtual CPUs,
  domains, per-CPU schedule data and cpupools (include/xen/sched.h and
  include/xen/sched-if.h), and the small helpers of those headers. Pointers to a
  \<^verbatim>\<open>struct vcpu\<close>, \<^verbatim>\<open>struct domain\<close>, \<^verbatim>\<open>struct cpupool\<close> or \<^verbatim>\<open>struct scheduler\<close> are natural
  numbers that index the maps of the state. The scheduler-private memory behind the
  \<^verbatim>\<open>void *sched_priv\<close> fields is a type parameter: \<open>'v\<close> per vcpu, \<open>'d\<close> per domain, \<open>'p\<close> per
  physical CPU and \<open>'g\<close> per scheduler instance.
\<close>

section \<open>Enumerations\<close>

datatype runstate_state =
  RUNSTATE_running | RUNSTATE_runnable | RUNSTATE_blocked | RUNSTATE_offline

text \<open>The C constants 0 to 3; the code compares them with \<^verbatim>\<open>>=\<close>.\<close>

fun runstate_rank :: "runstate_state \<Rightarrow> nat" where
  "runstate_rank RUNSTATE_running = 0"
| "runstate_rank RUNSTATE_runnable = 1"
| "runstate_rank RUNSTATE_blocked = 2"
| "runstate_rank RUNSTATE_offline = 3"

lemma runstate_rank_inj: "runstate_rank a = runstate_rank b \<Longrightarrow> a = b"
  by (cases a; cases b) simp_all

instantiation runstate_state :: linorder
begin

definition less_eq_runstate_state :: "runstate_state \<Rightarrow> runstate_state \<Rightarrow> bool" where
  "less_eq_runstate_state a b \<longleftrightarrow> runstate_rank a \<le> runstate_rank b"

definition less_runstate_state :: "runstate_state \<Rightarrow> runstate_state \<Rightarrow> bool" where
  "less_runstate_state a b \<longleftrightarrow> runstate_rank a < runstate_rank b"

instance
  by standard (auto simp: less_eq_runstate_state_def less_runstate_state_def
      dest: runstate_rank_inj)

end

lemma runstate_ge_blocked:
  "RUNSTATE_blocked \<le> r \<longleftrightarrow> r = RUNSTATE_blocked \<or> r = RUNSTATE_offline"
  by (cases r) (simp_all add: less_eq_runstate_state_def)

text \<open>The bits of \<^verbatim>\<open>v->pause_flags\<close>.\<close>

datatype vpf =
    VPF_blocked | VPF_down | VPF_blocked_in_xen | VPF_migrating | VPF_mem_paging
  | VPF_mem_access | VPF_mem_sharing | VPF_in_reset | VPF_parked

datatype softirq = TIMER_SOFTIRQ | SCHEDULE_SOFTIRQ | RCU_SOFTIRQ | TASKLET_SOFTIRQ

datatype system_state =
    SYS_STATE_early_boot | SYS_STATE_boot | SYS_STATE_smp_boot | SYS_STATE_active
  | SYS_STATE_suspend | SYS_STATE_resume

text \<open>The two bits of \<^verbatim>\<open>tasklet_work_to_do\<close>.\<close>

datatype tasklet_bit = TASKLET_enqueued | TASKLET_scheduled

text \<open>
  Events that leave the modelled components: a timer event for a vcpu, the global virtual
  interrupts VIRQ_DOM_EXC and VIRQ_PCPU_STATE, and the suspend event channel of a domain.
\<close>

datatype notification = Timer_event nat | Dom_exc | Suspend_event nat | Pcpu_state

text \<open>The events of the CPU notifier chain.\<close>

datatype cpu_action =
    CPU_UP_PREPARE | CPU_UP_CANCELED | CPU_STARTING | CPU_ONLINE | CPU_DOWN_PREPARE
  | CPU_DOWN_FAILED | CPU_DYING | CPU_DEAD

datatype dying = DOMDYING_alive | DOMDYING_dying | DOMDYING_dead

text \<open>
  What stops the hypervisor: a failed BUG_ON or ASSERT, a null dereference, a division by
  zero, or the shutdown of the hardware domain, which takes the host down. A state with a
  fault is a dead machine; the first fault is kept.
\<close>

datatype fault = Bug_on | Assert_failed | Null_deref | Div_by_zero | Host_shutdown

text \<open>
  The address of a scheduler lock: the lock embedded in a CPU's schedule data, or the lock
  in the private data of a scheduler instance.
\<close>

datatype lockref = Cpu_lock nat | Sched_lock nat

section \<open>Records\<close>

text \<open>
  A \<^verbatim>\<open>struct timer\<close> as its users see it: the CPU it is bound to, its expiry time while it is
  active, and whether it was killed. The theory Timer relates it to the heap and lists of
  common/timer.c.
\<close>

record atimer =
  at_cpu :: nat
  at_expires :: "int option"
  at_killed :: bool

text \<open>
  What set_timer, stop_timer, migrate_timer and kill_timer do to a timer; a killed timer is
  left alone.
\<close>

definition TIMER_CPU_status_killed :: nat where
  "TIMER_CPU_status_killed = 65535"

definition atimer_init :: "nat \<Rightarrow> atimer" where
  "atimer_init c = \<lparr>at_cpu = c, at_expires = None, at_killed = False\<rparr>"

definition atimer_set :: "int \<Rightarrow> atimer \<Rightarrow> atimer" where
  "atimer_set e a = (if at_killed a then a else a\<lparr>at_expires := Some e\<rparr>)"

definition atimer_stop :: "atimer \<Rightarrow> atimer" where
  "atimer_stop a = (if at_killed a then a else a\<lparr>at_expires := None\<rparr>)"

definition atimer_migrate :: "nat \<Rightarrow> atimer \<Rightarrow> atimer" where
  "atimer_migrate c a = (if at_killed a then a else a\<lparr>at_cpu := c\<rparr>)"

definition atimer_kill :: "atimer \<Rightarrow> atimer" where
  "atimer_kill a = \<lparr>at_cpu = TIMER_CPU_status_killed, at_expires = None, at_killed = True\<rparr>"

record vcpu_runstate_info =
  rs_state :: runstate_state
  rs_entry :: int
  rs_time :: "runstate_state \<Rightarrow> int"

record 'v vcpu =
  vcpu_id :: nat
  processor :: nat
  v_domain :: nat
  periodic_period :: int
  periodic_last_event :: int
  periodic_timer :: atimer
  singleshot_timer :: atimer
  poll_timer :: atimer
  v_priv :: "'v option"
  runstate :: vcpu_runstate_info
  last_run_time :: int
  is_running :: bool
  is_urgent :: bool
  defer_shutdown :: bool
  paused_for_shutdown :: bool
  affinity_broken :: bool
  poll_evtchn :: int
  pause_flags :: "vpf set"
  pause_count :: int
  v_controller_pause_count :: int
  cpu_hard_affinity :: cpumask
  cpu_hard_affinity_saved :: cpumask
  cpu_soft_affinity :: cpumask

record 'd domain =
  domain_id :: nat
  dom_vcpus :: "nat list"
  d_priv :: "'d option"
  d_cpupool :: "nat option"
  d_is_dying :: dying
  d_controller_pause_count :: int
  is_pinned :: bool
  poll_mask :: "nat set"
  is_shutting_down :: bool
  is_shut_down :: bool
  shutdown_code :: "int option"
  d_pause_count :: int
  max_evtchns :: nat
  watchdog_inuse_map :: "nat set"
  watchdog_timer :: "nat \<Rightarrow> atimer"
  suspend_evtchn :: nat
  creation_finished :: bool

record 'p schedule_data =
  sd_lock :: lockref
  sd_curr :: nat
  sd_priv :: "'p option"
  sd_timer :: atimer
  urgent_count :: int

record cpupool =
  cpupool_id :: int
  cpu_valid :: cpumask
  cpu_suspended :: cpumask
  n_dom :: int
  cp_sched :: nat
  cp_refcnt :: int

text \<open>
  Global variables: the state of the system, the online CPUs, the tasklet bits of each CPU,
  the hardware domain, and the statics of common/cpupool.c. \<open>sent\<close> collects the notifications,
  the latest first.
\<close>

record globals =
  system_state :: system_state
  cpu_online_map :: cpumask
  tasklet_work :: "nat \<Rightarrow> tasklet_bit set"
  hardware_domain :: nat
  cpupool0 :: nat
  cpupool_free_cpus :: cpumask
  cpupool_locked_cpus :: cpumask
  cpupool_moving_cpu :: "nat option"
  cpupool_cpu_moving :: "nat option"
  sent :: "notification list"

text \<open>
  \<open>current\<close> is the vcpu executing on a physical CPU (it trails \<open>sd_curr\<close> until the context
  switch is done); \<open>dom_list\<close> and \<open>pool_list\<close> are the linked lists \<^verbatim>\<open>domain_list\<close> and
  \<^verbatim>\<open>cpupool_list\<close> in order; \<open>clock\<close> is what NOW() reads; \<open>default_ops\<close> is the boot scheduler
  \<^verbatim>\<open>ops\<close> of common/schedule.c.
\<close>

record ('v, 'd, 'p, 'g) xen =
  vcpus :: "nat \<Rightarrow> 'v vcpu"
  domains :: "nat \<Rightarrow> 'd domain"
  percpu :: "nat \<Rightarrow> 'p schedule_data"
  pcpu_sched :: "nat \<Rightarrow> nat"
  pcpu_pool :: "nat \<Rightarrow> nat option"
  current :: "nat \<Rightarrow> nat"
  idle_vcpu :: "nat \<Rightarrow> nat"
  dom_list :: "nat list"
  pools :: "nat \<Rightarrow> cpupool"
  pool_list :: "nat list"
  sched_data :: "nat \<Rightarrow> 'g option"
  sched_kind :: "nat \<Rightarrow> nat"
  default_ops :: nat
  softirqs :: "(nat \<times> softirq) set"
  clock :: int
  nr_cpu_ids :: nat
  glob :: globals
  fault :: "fault option"

text \<open>What a scheduler's do_schedule returns.\<close>

record task_slice =
  ts_task :: nat
  ts_time :: int
  ts_migrated :: bool

section \<open>Structures of the control interface\<close>

text \<open>The guest structure \<^verbatim>\<open>xen_sysctl_fp_schedule\<close> of include/public/sysctl.h.\<close>

record xen_sysctl_fp_schedule =
  fs_strategy :: nat
  fs_load :: int

datatype sysctl_schedop = Sysctl_putinfo | Sysctl_getinfo | Sysctl_other

text \<open>The member \<^verbatim>\<open>u.fp\<close> of \<^verbatim>\<open>xen_domctl_scheduler_op\<close>: unsigned 64-bit times, a signed priority.\<close>

record xen_domctl_sched_fp =
  op_slice :: int
  op_period :: int
  op_deadline :: int
  op_priority :: int

text \<open>The commands; the last constructor stands for every other number.\<close>

datatype domctl_schedop = Domctl_putinfo | Domctl_getinfo | Domctl_putvcpuinfo | Domctl_getvcpuinfo
  | Domctl_other

section \<open>Helpers of the headers\<close>

definition panic :: "fault \<Rightarrow> ('v, 'd, 'p, 'g) xen \<Rightarrow> ('v, 'd, 'p, 'g) xen" where
  "panic f s = (case fault s of None \<Rightarrow> s\<lparr>fault := Some f\<rparr> | Some _ \<Rightarrow> s)"

definition upd_vcpu :: "nat \<Rightarrow> ('v vcpu \<Rightarrow> 'v vcpu) \<Rightarrow> ('v, 'd, 'p, 'g) xen \<Rightarrow> ('v, 'd, 'p, 'g) xen" where
  "upd_vcpu v f s = s\<lparr>vcpus := (vcpus s)(v := f (vcpus s v))\<rparr>"

definition upd_dom :: "nat \<Rightarrow> ('d domain \<Rightarrow> 'd domain) \<Rightarrow> ('v, 'd, 'p, 'g) xen \<Rightarrow> ('v, 'd, 'p, 'g) xen" where
  "upd_dom d f s = s\<lparr>domains := (domains s)(d := f (domains s d))\<rparr>"

definition upd_pcpu :: "nat \<Rightarrow> ('p schedule_data \<Rightarrow> 'p schedule_data) \<Rightarrow> ('v, 'd, 'p, 'g) xen \<Rightarrow> ('v, 'd, 'p, 'g) xen" where
  "upd_pcpu c f s = s\<lparr>percpu := (percpu s)(c := f (percpu s c))\<rparr>"

definition DOMID_IDLE :: nat where
  "DOMID_IDLE = 32767"

definition is_idle_domain :: "('v, 'd, 'p, 'g) xen \<Rightarrow> nat \<Rightarrow> bool" where
  "is_idle_domain s d \<longleftrightarrow> domain_id (domains s d) = DOMID_IDLE"

definition is_idle_vcpu :: "('v, 'd, 'p, 'g) xen \<Rightarrow> nat \<Rightarrow> bool" where
  "is_idle_vcpu s v \<longleftrightarrow> is_idle_domain s (v_domain (vcpus s v))"

definition vcpu_runnable :: "('v, 'd, 'p, 'g) xen \<Rightarrow> nat \<Rightarrow> bool" where
  "vcpu_runnable s v \<longleftrightarrow>
     pause_flags (vcpus s v) = {} \<and> pause_count (vcpus s v) = 0
     \<and> d_pause_count (domains s (v_domain (vcpus s v))) = 0"

definition cpu_raise_softirq :: "nat \<Rightarrow> softirq \<Rightarrow> ('v, 'd, 'p, 'g) xen \<Rightarrow> ('v, 'd, 'p, 'g) xen" where
  "cpu_raise_softirq cpu nr s = s\<lparr>softirqs := insert (cpu, nr) (softirqs s)\<rparr>"

text \<open>The domains that \<^verbatim>\<open>for_each_domain_in_cpupool\<close> visits, in order.\<close>

definition domains_in_cpupool :: "('v, 'd, 'p, 'g) xen \<Rightarrow> nat \<Rightarrow> nat list" where
  "domains_in_cpupool s c = filter (\<lambda>d. d_cpupool (domains s d) = Some c) (dom_list s)"

text \<open>\<^verbatim>\<open>d->cpupool->cpu_valid\<close>; the idle domain has no pool and never asks.\<close>

definition cpupool_domain_cpumask :: "('v, 'd, 'p, 'g) xen \<Rightarrow> nat \<Rightarrow> cpumask" where
  "cpupool_domain_cpumask s d =
     (case d_cpupool (domains s d) of None \<Rightarrow> {} | Some c \<Rightarrow> cpu_valid (pools s c))"

lemmas upd_defs = upd_vcpu_def upd_dom_def upd_pcpu_def

lemma upd_vcpu_simps [simp]:
  "vcpus (upd_vcpu v f s) = (vcpus s)(v := f (vcpus s v))"
  "domains (upd_vcpu v f s) = domains s"
  "percpu (upd_vcpu v f s) = percpu s"
  "pcpu_sched (upd_vcpu v f s) = pcpu_sched s"
  "pcpu_pool (upd_vcpu v f s) = pcpu_pool s"
  "current (upd_vcpu v f s) = current s"
  "idle_vcpu (upd_vcpu v f s) = idle_vcpu s"
  "dom_list (upd_vcpu v f s) = dom_list s"
  "pools (upd_vcpu v f s) = pools s"
  "pool_list (upd_vcpu v f s) = pool_list s"
  "sched_data (upd_vcpu v f s) = sched_data s"
  "sched_kind (upd_vcpu v f s) = sched_kind s"
  "default_ops (upd_vcpu v f s) = default_ops s"
  "softirqs (upd_vcpu v f s) = softirqs s"
  "clock (upd_vcpu v f s) = clock s"
  "nr_cpu_ids (upd_vcpu v f s) = nr_cpu_ids s"
  "glob (upd_vcpu v f s) = glob s"
  "fault (upd_vcpu v f s) = fault s"
  by (simp_all add: upd_vcpu_def)

lemma upd_dom_simps [simp]:
  "vcpus (upd_dom d g s) = vcpus s"
  "domains (upd_dom d g s) = (domains s)(d := g (domains s d))"
  "percpu (upd_dom d g s) = percpu s"
  "pcpu_sched (upd_dom d g s) = pcpu_sched s"
  "pcpu_pool (upd_dom d g s) = pcpu_pool s"
  "current (upd_dom d g s) = current s"
  "idle_vcpu (upd_dom d g s) = idle_vcpu s"
  "dom_list (upd_dom d g s) = dom_list s"
  "pools (upd_dom d g s) = pools s"
  "pool_list (upd_dom d g s) = pool_list s"
  "sched_data (upd_dom d g s) = sched_data s"
  "sched_kind (upd_dom d g s) = sched_kind s"
  "default_ops (upd_dom d g s) = default_ops s"
  "softirqs (upd_dom d g s) = softirqs s"
  "clock (upd_dom d g s) = clock s"
  "nr_cpu_ids (upd_dom d g s) = nr_cpu_ids s"
  "glob (upd_dom d g s) = glob s"
  "fault (upd_dom d g s) = fault s"
  by (simp_all add: upd_dom_def)

lemma upd_pcpu_simps [simp]:
  "vcpus (upd_pcpu c h s) = vcpus s"
  "domains (upd_pcpu c h s) = domains s"
  "percpu (upd_pcpu c h s) = (percpu s)(c := h (percpu s c))"
  "pcpu_sched (upd_pcpu c h s) = pcpu_sched s"
  "pcpu_pool (upd_pcpu c h s) = pcpu_pool s"
  "current (upd_pcpu c h s) = current s"
  "idle_vcpu (upd_pcpu c h s) = idle_vcpu s"
  "dom_list (upd_pcpu c h s) = dom_list s"
  "pools (upd_pcpu c h s) = pools s"
  "pool_list (upd_pcpu c h s) = pool_list s"
  "sched_data (upd_pcpu c h s) = sched_data s"
  "sched_kind (upd_pcpu c h s) = sched_kind s"
  "default_ops (upd_pcpu c h s) = default_ops s"
  "softirqs (upd_pcpu c h s) = softirqs s"
  "clock (upd_pcpu c h s) = clock s"
  "nr_cpu_ids (upd_pcpu c h s) = nr_cpu_ids s"
  "glob (upd_pcpu c h s) = glob s"
  "fault (upd_pcpu c h s) = fault s"
  by (simp_all add: upd_pcpu_def)

lemma raise_softirq_simps [simp]:
  "vcpus (cpu_raise_softirq c nr s) = vcpus s"
  "domains (cpu_raise_softirq c nr s) = domains s"
  "percpu (cpu_raise_softirq c nr s) = percpu s"
  "pcpu_sched (cpu_raise_softirq c nr s) = pcpu_sched s"
  "pcpu_pool (cpu_raise_softirq c nr s) = pcpu_pool s"
  "current (cpu_raise_softirq c nr s) = current s"
  "idle_vcpu (cpu_raise_softirq c nr s) = idle_vcpu s"
  "dom_list (cpu_raise_softirq c nr s) = dom_list s"
  "pools (cpu_raise_softirq c nr s) = pools s"
  "pool_list (cpu_raise_softirq c nr s) = pool_list s"
  "sched_data (cpu_raise_softirq c nr s) = sched_data s"
  "sched_kind (cpu_raise_softirq c nr s) = sched_kind s"
  "default_ops (cpu_raise_softirq c nr s) = default_ops s"
  "softirqs (cpu_raise_softirq c nr s) = insert (c, nr) (softirqs s)"
  "clock (cpu_raise_softirq c nr s) = clock s"
  "nr_cpu_ids (cpu_raise_softirq c nr s) = nr_cpu_ids s"
  "glob (cpu_raise_softirq c nr s) = glob s"
  "fault (cpu_raise_softirq c nr s) = fault s"
  by (simp_all add: cpu_raise_softirq_def)

lemma panic_simps [simp]:
  "vcpus (panic f s) = vcpus s"
  "domains (panic f s) = domains s"
  "percpu (panic f s) = percpu s"
  "pcpu_sched (panic f s) = pcpu_sched s"
  "pcpu_pool (panic f s) = pcpu_pool s"
  "current (panic f s) = current s"
  "idle_vcpu (panic f s) = idle_vcpu s"
  "dom_list (panic f s) = dom_list s"
  "pools (panic f s) = pools s"
  "pool_list (panic f s) = pool_list s"
  "sched_data (panic f s) = sched_data s"
  "sched_kind (panic f s) = sched_kind s"
  "default_ops (panic f s) = default_ops s"
  "softirqs (panic f s) = softirqs s"
  "clock (panic f s) = clock s"
  "nr_cpu_ids (panic f s) = nr_cpu_ids s"
  "glob (panic f s) = glob s"
  "fault (panic f s) \<noteq> None"
  by (simp_all add: panic_def split: option.splits)

end
