(* ===== verification/Sched_Fp.thy ===== *)
theory Sched_Fp
  imports Sched_Types
begin

text \<open>
  The CPS-Xen fixed-priority scheduler, common/sched_fp.c: its data, the run-queue
  operations, the three strategies (rate-monotonic, deadline-monotonic, fixed-priority), and
  every hook of \<^verbatim>\<open>sched_fp_def\<close>. An operation is a function on the scheduler state; \<open>ops\<close> is
  the scheduler instance the hook is called for. A memory allocation takes a flag that says
  whether xmalloc succeeds. The run queue of a CPU is the list of the vcpus whose
  \<^verbatim>\<open>queue_elem\<close> nodes are linked into it; \<open>queue_elem\<close> names the CPU whose queue a node is
  linked into, and is \<open>None\<close> for a node that is linked to itself. The PRINT and printk calls
  and the field \<^verbatim>\<open>cputime_log\<close>, which nothing reads, are left out.
\<close>

section \<open>Data\<close>

record fp_vcpu =
  queue_elem :: "nat option"
  fv_priority :: int
  fv_period :: int
  fv_slice :: int
  fv_deadline :: int
  period_next :: int
  last_time_scheduled :: int
  cputime :: int
  iterations :: int
  max_cputime :: int
  min_cputime :: int
  position :: int

record fp_dom =
  fd_priority :: int
  fd_period :: int
  fd_slice :: int
  fd_deadline :: int

record fp_cpu =
  runq :: "nat list"

text \<open>The function pointers of \<^verbatim>\<open>struct fp_strategy_conf\<close>, by the function they hold.\<close>

datatype fp_compare = Runq_rm_compare | Runq_dm_compare | Runq_fp_compare

datatype fp_handler = Rm_prio_handler | Dm_prio_handler | Fp_prio_handler

record fp_strategy_conf =
  compare :: fp_compare
  prio_handler :: fp_handler

record fpsched_private =
  strategy :: nat
  config :: fp_strategy_conf
  last_time_temp :: int

type_synonym fp_xen = "(fp_vcpu, fp_dom, fp_cpu, fpsched_private) xen"

definition VM_DOM0_PRIO :: int where "VM_DOM0_PRIO = 1000"
definition VM_IDLE_PRIO :: int where "VM_IDLE_PRIO = 0"
definition MICROSECS :: "int \<Rightarrow> int" where "MICROSECS us = s64 (us * 1000)"
definition VM_STANDARD_SLICE :: int where "VM_STANDARD_SLICE = MICROSECS 500"
definition VM_DOM0_SLICE :: int where "VM_DOM0_SLICE = MICROSECS 900"
definition VM_STANDARD_PERIOD :: int where "VM_STANDARD_PERIOD = MICROSECS 1000"
definition VM_DOM0_PERIOD :: int where "VM_DOM0_PERIOD = MICROSECS 1000"
definition RM :: nat where "RM = 0"
definition DM :: nat where "DM = 1"
definition FP :: nat where "FP = 2"
definition DELTA :: int where "DELTA = 10000000000"
definition XEN_SCHEDULER_FP :: nat where "XEN_SCHEDULER_FP = 10"

lemmas fp_consts =
  VM_DOM0_PRIO_def VM_IDLE_PRIO_def MICROSECS_def VM_STANDARD_SLICE_def VM_DOM0_SLICE_def
  VM_STANDARD_PERIOD_def VM_DOM0_PERIOD_def RM_def DM_def FP_def DELTA_def
  XEN_SCHEDULER_FP_def

text \<open>
  The macros FPSCHED_VCPU, FPSCHED_DOM, FPSCHED_PRIV and RUNQ, and stores through them. The
  code reads through these pointers unchecked; the well-formedness predicate \<open>fp_wf\<close> of
  Sched_Fp_Queue says when they are valid. A CPU without private data has no queue.
\<close>

definition FPSCHED_VCPU :: "fp_xen \<Rightarrow> nat \<Rightarrow> fp_vcpu" where
  "FPSCHED_VCPU s v = the (v_priv (vcpus s v))"

definition FPSCHED_DOM :: "fp_xen \<Rightarrow> nat \<Rightarrow> fp_dom" where
  "FPSCHED_DOM s d = the (d_priv (domains s d))"

definition FPSCHED_PRIV :: "fp_xen \<Rightarrow> nat \<Rightarrow> fpsched_private" where
  "FPSCHED_PRIV s ops = the (sched_data s ops)"

definition RUNQ :: "fp_xen \<Rightarrow> nat \<Rightarrow> nat list" where
  "RUNQ s cpu = (case sd_priv (percpu s cpu) of None \<Rightarrow> [] | Some p \<Rightarrow> runq p)"

definition upd_fpv :: "nat \<Rightarrow> (fp_vcpu \<Rightarrow> fp_vcpu) \<Rightarrow> fp_xen \<Rightarrow> fp_xen" where
  "upd_fpv v f s = upd_vcpu v (\<lambda>vc. vc\<lparr>v_priv := map_option f (v_priv vc)\<rparr>) s"

definition upd_fpd :: "nat \<Rightarrow> (fp_dom \<Rightarrow> fp_dom) \<Rightarrow> fp_xen \<Rightarrow> fp_xen" where
  "upd_fpd d f s = upd_dom d (\<lambda>x. x\<lparr>d_priv := map_option f (d_priv x)\<rparr>) s"

definition set_runq :: "nat \<Rightarrow> nat list \<Rightarrow> fp_xen \<Rightarrow> fp_xen" where
  "set_runq cpu q s = upd_pcpu cpu (\<lambda>x. x\<lparr>sd_priv := map_option (runq_update (\<lambda>_. q)) (sd_priv x)\<rparr>) s"

section \<open>Run-queue operations\<close>

definition vcpu_on_q :: "fp_xen \<Rightarrow> nat \<Rightarrow> bool" where
  "vcpu_on_q s v \<longleftrightarrow> queue_elem (FPSCHED_VCPU s v) \<noteq> None"

text \<open>\<^verbatim>\<open>list_del_init(&fpv->queue_elem)\<close>: a self-linked node is left as it is.\<close>

definition list_del_init_elem :: "nat \<Rightarrow> fp_xen \<Rightarrow> fp_xen" where
  "list_del_init_elem v s =
     (case queue_elem (FPSCHED_VCPU s v) of
        None \<Rightarrow> s
      | Some cpu \<Rightarrow>
          upd_fpv v (\<lambda>f. f\<lparr>queue_elem := None\<rparr>) (set_runq cpu (remove1 v (RUNQ s cpu)) s))"

definition runq_remove :: "nat \<Rightarrow> fp_xen \<Rightarrow> fp_xen" where
  "runq_remove v s = (if \<not> is_idle_vcpu s v then list_del_init_elem v s else s)"

definition remove_from_queue :: "nat \<Rightarrow> fp_xen \<Rightarrow> fp_xen" where
  "remove_from_queue v s = (if vcpu_on_q s v then list_del_init_elem v s else s)"

definition runq_rm_compare :: "fp_vcpu \<Rightarrow> fp_vcpu \<Rightarrow> bool" where
  "runq_rm_compare left right \<longleftrightarrow> fv_period left \<le> fv_period right"

definition runq_dm_compare :: "fp_vcpu \<Rightarrow> fp_vcpu \<Rightarrow> bool" where
  "runq_dm_compare left right \<longleftrightarrow> fv_deadline left \<le> fv_deadline right"

definition runq_fp_compare :: "fp_vcpu \<Rightarrow> fp_vcpu \<Rightarrow> bool" where
  "runq_fp_compare left right \<longleftrightarrow> fv_priority left \<ge> fv_priority right"

text \<open>A call through the pointer \<^verbatim>\<open>config->compare\<close>.\<close>

fun call_compare :: "fp_compare \<Rightarrow> fp_vcpu \<Rightarrow> fp_vcpu \<Rightarrow> bool" where
  "call_compare Runq_rm_compare = runq_rm_compare"
| "call_compare Runq_dm_compare = runq_dm_compare"
| "call_compare Runq_fp_compare = runq_fp_compare"

text \<open>The second loop of \<^verbatim>\<open>__runq_insert\<close>: number the queue from the front.\<close>

fun renumber :: "nat list \<Rightarrow> int \<Rightarrow> fp_xen \<Rightarrow> fp_xen" where
  "renumber [] i s = s"
| "renumber (v # vs) i s = renumber vs (i + 1) (upd_fpv v (\<lambda>f. f\<lparr>position := i\<rparr>) s)"

definition runq_insert :: "nat \<Rightarrow> nat \<Rightarrow> fp_compare \<Rightarrow> fp_xen \<Rightarrow> fp_xen" where
  "runq_insert cpu v cmp s =
     (if is_idle_vcpu s v then s
      else
        let q = insert_before (\<lambda>i. call_compare cmp (FPSCHED_VCPU s v) (FPSCHED_VCPU s i))
                  v (RUNQ s cpu)
        in renumber q 0
             (upd_fpv v (\<lambda>f. f\<lparr>queue_elem := Some cpu\<rparr>) (set_runq cpu q s)))"

section \<open>Priority handlers\<close>

text \<open>\<^verbatim>\<open>for_each_vcpu (dom, v) fpv->priority = priority\<close>\<close>

definition set_vcpu_prios :: "nat \<Rightarrow> int \<Rightarrow> fp_xen \<Rightarrow> fp_xen" where
  "set_vcpu_prios d p s =
     fold (\<lambda>v. upd_fpv v (\<lambda>f. f\<lparr>fv_priority := p\<rparr>)) (dom_vcpus (domains s d)) s"

definition fp_prio_handler :: "nat \<Rightarrow> int \<Rightarrow> fp_xen \<Rightarrow> fp_xen" where
  "fp_prio_handler d prio s =
     set_vcpu_prios d prio (upd_fpd d (\<lambda>x. x\<lparr>fd_priority := prio\<rparr>) s)"

definition rm_prio_handler :: "nat \<Rightarrow> int \<Rightarrow> fp_xen \<Rightarrow> fp_xen" where
  "rm_prio_handler d prio s =
     (if domain_id (domains s d) = 0 then
        set_vcpu_prios d VM_DOM0_PRIO (upd_fpd d (\<lambda>x. x\<lparr>fd_priority := VM_DOM0_PRIO\<rparr>) s)
      else if is_idle_domain s d then
        set_vcpu_prios d VM_IDLE_PRIO (upd_fpd d (\<lambda>x. x\<lparr>fd_priority := VM_IDLE_PRIO\<rparr>) s)
      else
        let vs = dom_vcpus (domains s d);
            posacc = sum_list (map (\<lambda>v. position (FPSCHED_VCPU s v)) vs);
            count = int (length vs);
            p = VM_DOM0_PRIO - cdiv posacc count - 1
        in if count = 0 then panic Div_by_zero s
           else set_vcpu_prios d p (upd_fpd d (\<lambda>x. x\<lparr>fd_priority := p\<rparr>) s))"

definition dm_prio_handler :: "nat \<Rightarrow> int \<Rightarrow> fp_xen \<Rightarrow> fp_xen" where
  "dm_prio_handler d prio s =
     (if domain_id (domains s d) = 0 then
        set_vcpu_prios d VM_DOM0_PRIO (upd_fpd d (\<lambda>x. x\<lparr>fd_priority := VM_DOM0_PRIO\<rparr>) s)
      else if is_idle_domain s d then
        set_vcpu_prios d VM_IDLE_PRIO (upd_fpd d (\<lambda>x. x\<lparr>fd_priority := VM_IDLE_PRIO\<rparr>) s)
      else
        let vs = dom_vcpus (domains s d);
            posacc = sum_list (map (\<lambda>v. position (FPSCHED_VCPU s v)) vs);
            count = int (length vs);
            p = VM_DOM0_PRIO - cdiv posacc count - 1
        in if count = 0 then panic Div_by_zero s
           else set_vcpu_prios d p (upd_fpd d (\<lambda>x. x\<lparr>fd_priority := p\<rparr>) s))"

fun call_prio_handler :: "fp_handler \<Rightarrow> nat \<Rightarrow> int \<Rightarrow> fp_xen \<Rightarrow> fp_xen" where
  "call_prio_handler Rm_prio_handler = rm_prio_handler"
| "call_prio_handler Dm_prio_handler = dm_prio_handler"
| "call_prio_handler Fp_prio_handler = fp_prio_handler"

section \<open>Strategy and parameters\<close>

definition fp_reinsertsort_vcpu :: "nat \<Rightarrow> fp_compare \<Rightarrow> fp_xen \<Rightarrow> fp_xen" where
  "fp_reinsertsort_vcpu v cmp s =
     (let cpu = processor (vcpus s v)
      in cpu_raise_softirq cpu SCHEDULE_SOFTIRQ
           (runq_insert cpu v cmp (remove_from_queue v s)))"

definition fp_sched_get :: "nat \<Rightarrow> xen_sysctl_fp_schedule \<Rightarrow> fp_xen \<Rightarrow> xen_sysctl_fp_schedule" where
  "fp_sched_get ops sched s = sched\<lparr>fs_strategy := strategy (FPSCHED_PRIV s ops)\<rparr>"

fun strategy_conf :: "nat \<Rightarrow> fp_strategy_conf \<Rightarrow> fp_strategy_conf" where
  "strategy_conf n c =
     (if n = 0 then c\<lparr>compare := Runq_rm_compare, prio_handler := Rm_prio_handler\<rparr>
      else if n = 1 then c\<lparr>compare := Runq_dm_compare, prio_handler := Dm_prio_handler\<rparr>
      else if n = 2 then c\<lparr>compare := Runq_fp_compare, prio_handler := Fp_prio_handler\<rparr>
      else c)"

definition fp_sched_set :: "nat \<Rightarrow> xen_sysctl_fp_schedule \<Rightarrow> fp_xen \<Rightarrow> rc \<times> fp_xen" where
  "fp_sched_set ops sched s =
     (if fs_strategy sched > 2 then (Inl EINVAL, s)
      else
        let prv = FPSCHED_PRIV s ops;
            prv' = prv\<lparr>strategy := fs_strategy sched,
                       config := strategy_conf (fs_strategy sched) (config prv)\<rparr>
        in (OK, s\<lparr>sched_data := (sched_data s)(ops := Some prv')\<rparr>))"

text \<open>
  Inside the loop the code tests once more for domain 0 and the idle domain, for which it
  has returned before.
\<close>

definition fp_sched_set_vm_prio :: "nat \<Rightarrow> nat \<Rightarrow> int \<Rightarrow> fp_xen \<Rightarrow> fp_xen" where
  "fp_sched_set_vm_prio ops d prio s =
     (if domain_id (domains s d) = 0 then upd_fpd d (\<lambda>x. x\<lparr>fd_priority := VM_DOM0_PRIO\<rparr>) s
      else if is_idle_domain s d then upd_fpd d (\<lambda>x. x\<lparr>fd_priority := VM_IDLE_PRIO\<rparr>) s
      else
        fold (\<lambda>v s. fp_reinsertsort_vcpu v (compare (config (FPSCHED_PRIV s ops)))
                      (call_prio_handler (prio_handler (config (FPSCHED_PRIV s ops))) d prio s))
          (dom_vcpus (domains s d)) s)"

definition fp_insert_vcpu :: "nat \<Rightarrow> nat \<Rightarrow> fp_xen \<Rightarrow> fp_xen" where
  "fp_insert_vcpu ops v s =
     (if is_idle_vcpu s v then panic Bug_on s
      else if \<not> vcpu_on_q s v \<and> vcpu_runnable s v \<and> \<not> is_running (vcpus s v) then
        let s1 = runq_insert (processor (vcpus s v)) v (compare (config (FPSCHED_PRIV s ops))) s
        in if strategy (FPSCHED_PRIV s1 ops) \<noteq> FP
           then call_prio_handler (prio_handler (config (FPSCHED_PRIV s1 ops)))
                  (v_domain (vcpus s1 v)) 1 s1
           else s1
      else s)"

section \<open>Allocation and initialisation\<close>

definition fp_alloc_domdata :: "bool \<Rightarrow> fp_dom option" where
  "fp_alloc_domdata mem =
     (if mem then Some \<lparr>fd_priority = 0, fd_period = 0, fd_slice = 0, fd_deadline = 0\<rparr> else None)"

text \<open>The failed allocation is tested on \<^verbatim>\<open>d\<close>, not on \<^verbatim>\<open>fp_dom\<close>, and then dereferenced.\<close>

definition fp_init_domain :: "bool \<Rightarrow> nat \<Rightarrow> fp_xen \<Rightarrow> rc \<times> fp_xen" where
  "fp_init_domain mem d s =
     (if is_idle_domain s d then (OK, s)
      else
        case fp_alloc_domdata mem of
          None \<Rightarrow> (OK, panic Null_deref (upd_dom d (\<lambda>x. x\<lparr>d_priv := None\<rparr>) s))
        | Some fd \<Rightarrow>
            let fd' =
              (if domain_id (domains s d) = 0 then
                 fd\<lparr>fd_priority := VM_DOM0_PRIO, fd_slice := VM_DOM0_SLICE,
                    fd_period := VM_DOM0_PERIOD, fd_deadline := VM_DOM0_PERIOD\<rparr>
               else
                 fd\<lparr>fd_period := VM_STANDARD_PERIOD, fd_deadline := VM_STANDARD_PERIOD,
                    fd_slice := VM_STANDARD_SLICE\<rparr>)
            in (OK, upd_dom d (\<lambda>x. x\<lparr>d_priv := Some fd'\<rparr>) s))"

definition fp_init :: "bool \<Rightarrow> bool \<Rightarrow> nat \<Rightarrow> fp_xen \<Rightarrow> rc \<times> fp_xen" where
  "fp_init mem_prv mem_conf ops s =
     (if \<not> mem_prv then (Inl ENOMEM, s)
      else if \<not> mem_conf then (Inl ENOMEM, s)
      else
        (OK, s\<lparr>sched_data := (sched_data s)(ops := Some
           \<lparr>strategy = 0,
            config = \<lparr>compare = Runq_rm_compare, prio_handler = Rm_prio_handler\<rparr>,
            last_time_temp = 0\<rparr>)\<rparr>))"

definition fp_deinit :: "nat \<Rightarrow> fp_xen \<Rightarrow> fp_xen" where
  "fp_deinit ops s = s\<lparr>sched_data := (sched_data s)(ops := None)\<rparr>"

definition fp_init_pdata :: "nat \<Rightarrow> nat \<Rightarrow> fp_xen \<Rightarrow> fp_xen" where
  "fp_init_pdata ops cpu s = upd_pcpu cpu (\<lambda>x. x\<lparr>sd_lock := Sched_lock ops\<rparr>) s"

text \<open>A freed block is gone: the owner's pointer has nothing to point to.\<close>

definition fp_destroy_domain :: "nat \<Rightarrow> fp_xen \<Rightarrow> fp_xen" where
  "fp_destroy_domain d s = upd_dom d (\<lambda>x. x\<lparr>d_priv := None\<rparr>) s"

definition fp_free_vdata :: "nat \<Rightarrow> fp_xen \<Rightarrow> fp_xen" where
  "fp_free_vdata v s = upd_vcpu v (\<lambda>x. x\<lparr>v_priv := None\<rparr>) s"

definition zero_fp_vcpu :: fp_vcpu where
  "zero_fp_vcpu =
     \<lparr>queue_elem = None, fv_priority = 0, fv_period = 0, fv_slice = 0, fv_deadline = 0,
      period_next = 0, last_time_scheduled = 0, cputime = 0, iterations = 0,
      max_cputime = 0, min_cputime = 0, position = 0\<rparr>"

definition fp_alloc_vdata :: "bool \<Rightarrow> nat \<Rightarrow> fp_xen \<Rightarrow> fp_vcpu option" where
  "fp_alloc_vdata mem v s =
     (if \<not> mem then None
      else
        let d = v_domain (vcpus s v);
            f = (case d_priv (domains s d) of
                   Some fd \<Rightarrow>
                     zero_fp_vcpu\<lparr>fv_slice := fd_slice fd, fv_period := fd_period fd,
                                  fv_priority := fd_priority fd, fv_deadline := fd_deadline fd\<rparr>
                 | None \<Rightarrow>
                     if domain_id (domains s d) = 0 then
                       zero_fp_vcpu\<lparr>fv_priority := VM_DOM0_PRIO, fv_slice := VM_DOM0_SLICE,
                                    fv_period := VM_DOM0_PERIOD, fv_deadline := VM_DOM0_PERIOD\<rparr>
                     else
                       zero_fp_vcpu\<lparr>fv_period := VM_STANDARD_PERIOD,
                                    fv_deadline := VM_STANDARD_PERIOD,
                                    fv_priority := (if is_idle_domain s d then VM_IDLE_PRIO else 0),
                                    fv_slice := (if is_idle_domain s d then MICROSECS 0
                                                 else VM_STANDARD_SLICE)\<rparr>)
        in Some (f\<lparr>cputime := 0, last_time_scheduled := 0,
                   period_next := s64 (clock s + fv_period f), iterations := 0,
                   queue_elem := None\<rparr>))"

text \<open>The result of xmalloc goes to memset unchecked.\<close>

definition fp_alloc_pdata :: "bool \<Rightarrow> fp_xen \<Rightarrow> fp_cpu option \<times> fp_xen" where
  "fp_alloc_pdata mem s =
     (if mem then (Some \<lparr>runq = []\<rparr>, s) else (None, panic Null_deref s))"

definition fp_free_pdata :: "nat \<Rightarrow> fp_xen \<Rightarrow> fp_xen" where
  "fp_free_pdata cpu s = upd_pcpu cpu (\<lambda>x. x\<lparr>sd_priv := None\<rparr>) s"

definition fp_pick_cpu :: "nat \<Rightarrow> fp_xen \<Rightarrow> nat" where
  "fp_pick_cpu v s =
     (let online = cpupool_domain_cpumask s (v_domain (vcpus s v));
          online_affinity = online \<inter> cpu_hard_affinity (vcpus s v);
          p = processor (vcpus s v)
      in if p \<in> online_affinity then p else cpumask_cycle (nr_cpu_ids s) p online_affinity)"

section \<open>Sleep, wake, remove\<close>

definition fp_sleep :: "nat \<Rightarrow> fp_xen \<Rightarrow> fp_xen" where
  "fp_sleep v s =
     (let cpu = processor (vcpus s v)
      in if is_idle_vcpu s v then s
         else if sd_curr (percpu s cpu) = v then cpu_raise_softirq cpu SCHEDULE_SOFTIRQ s
         else if vcpu_on_q s v then runq_remove v s
         else s)"

definition fp_vcpu_wake :: "nat \<Rightarrow> nat \<Rightarrow> fp_xen \<Rightarrow> fp_xen" where
  "fp_vcpu_wake ops v s =
     (let cpu = processor (vcpus s v); now = clock s; prv = FPSCHED_PRIV s ops
      in if sd_curr (percpu s cpu) = v then s
         else if is_idle_vcpu s v then s
         else if vcpu_on_q s v then
           (if now < s64 (last_time_temp prv + DELTA) \<and> cpu = 7
            then s\<lparr>sched_data := (sched_data s)(ops := Some (prv\<lparr>last_time_temp := now\<rparr>))\<rparr>
            else s)
         else
           let s1 = runq_insert cpu v (compare (config prv)) s;
               s2 = call_prio_handler (prio_handler (config (FPSCHED_PRIV s1 ops)))
                      (v_domain (vcpus s1 v)) (fv_priority (FPSCHED_VCPU s1 v)) s1
           in cpu_raise_softirq cpu SCHEDULE_SOFTIRQ s2)"

definition fp_vcpu_remove :: "nat \<Rightarrow> fp_xen \<Rightarrow> fp_xen" where
  "fp_vcpu_remove v s = remove_from_queue v s"

section \<open>Adjusting parameters\<close>

definition fp_pools :: "fp_xen \<Rightarrow> nat list" where
  "fp_pools s = filter (\<lambda>c. sched_kind s (cp_sched (pools s c)) = XEN_SCHEDULER_FP) (pool_list s)"

text \<open>
  The result code, the structure copied back to the caller (for getinfo), and the state.
  The structure is a local variable: \<open>junk\<close> is what the stack holds in it.
\<close>

definition fp_adjust_global ::
  "nat \<Rightarrow> sysctl_schedop \<Rightarrow> xen_sysctl_fp_schedule \<Rightarrow> xen_sysctl_fp_schedule \<Rightarrow> fp_xen
    \<Rightarrow> rc \<times> xen_sysctl_fp_schedule option \<times> fp_xen" where
  "fp_adjust_global ops cmd arg junk s =
     (let (rc, out, s1) =
        (case cmd of
           Sysctl_putinfo \<Rightarrow> (let (rc, s') = fp_sched_set ops arg s in (rc, None, s'))
         | Sysctl_getinfo \<Rightarrow> (OK, Some (fp_sched_get ops junk s), s)
         | Sysctl_other \<Rightarrow> (Inl EINVAL, None, s));
        s2 = fold (\<lambda>c s. fold (\<lambda>d s. fp_sched_set_vm_prio ops d (fd_priority (FPSCHED_DOM s d)) s)
                           (domains_in_cpupool s c) s)
               (fp_pools s1) s1
      in (rc, out, s2))"

definition fp_set_period :: "nat \<Rightarrow> nat \<Rightarrow> int \<Rightarrow> fp_xen \<Rightarrow> fp_xen" where
  "fp_set_period ops d p s =
     (let rm = (strategy (FPSCHED_PRIV s ops) = RM); ns = s64 (p * 1000)
      in fold (\<lambda>v. upd_fpv v (\<lambda>f. f\<lparr>fv_period := ns,
                                     fv_deadline := (if rm then ns else fv_deadline f)\<rparr>))
           (dom_vcpus (domains s d))
           (upd_fpd d (\<lambda>x. x\<lparr>fd_period := ns,
                               fd_deadline := (if rm then ns else fd_deadline x)\<rparr>) s))"

definition fp_set_slice :: "nat \<Rightarrow> int \<Rightarrow> fp_xen \<Rightarrow> fp_xen" where
  "fp_set_slice d p s =
     (let ns = s64 (p * 1000)
      in fold (\<lambda>v. upd_fpv v (\<lambda>f. f\<lparr>fv_slice := ns\<rparr>)) (dom_vcpus (domains s d))
           (upd_fpd d (\<lambda>x. x\<lparr>fd_slice := ns\<rparr>) s))"

definition fp_set_deadline :: "nat \<Rightarrow> int \<Rightarrow> fp_xen \<Rightarrow> fp_xen" where
  "fp_set_deadline d p s =
     (let ns = s64 (p * 1000)
      in fold (\<lambda>v. upd_fpv v (\<lambda>f. f\<lparr>fv_deadline := ns\<rparr>)) (dom_vcpus (domains s d))
           (upd_fpd d (\<lambda>x. x\<lparr>fd_deadline := ns\<rparr>) s))"

definition fp_adjust ::
  "nat \<Rightarrow> nat \<Rightarrow> domctl_schedop \<Rightarrow> xen_domctl_sched_fp \<Rightarrow> fp_xen \<Rightarrow> xen_domctl_sched_fp \<times> fp_xen" where
  "fp_adjust ops d cmd op s =
     (if cmd = Domctl_getinfo then
        (op\<lparr>op_priority := fd_priority (FPSCHED_DOM s d), op_slice := u64 (fd_slice (FPSCHED_DOM s d)),
            op_period := u64 (fd_period (FPSCHED_DOM s d)),
            op_deadline := u64 (fd_deadline (FPSCHED_DOM s d))\<rparr>, s)
      else
        let s1 = (if op_period op > 0 then fp_set_period ops d (op_period op) s else s);
            s2 = (if op_slice op > 0 then fp_set_slice d (op_slice op) s1 else s1);
            s3 = (if op_deadline op > 0 then fp_set_deadline d (op_deadline op) s2 else s2);
            s4 = (if sched_kind s3 (cp_sched (pools s3 (the (d_cpupool (domains s3 d))))) = XEN_SCHEDULER_FP
                  then fp_sched_set_vm_prio ops d
                         (if op_priority op > 0 then op_priority op else fd_priority (FPSCHED_DOM s3 d)) s3
                  else s3);
            s5 = fold (\<lambda>c s. fold (\<lambda>d' s. if domain_id (domains s d) = domain_id (domains s d') then s
                                            else fp_sched_set_vm_prio ops d' (fd_priority (FPSCHED_DOM s d')) s)
                               (domains_in_cpupool s c) s)
                   (fp_pools s4) s4
        in (op, s5))"

section \<open>The scheduling decision\<close>

definition update_queue :: "int \<Rightarrow> nat list \<Rightarrow> fp_xen \<Rightarrow> fp_xen" where
  "update_queue now q s =
     fold (\<lambda>v s. if now > period_next (FPSCHED_VCPU s v)
                  then upd_fpv v (\<lambda>f. f\<lparr>iterations := u64 (iterations f + 1), cputime := 0,
                                         period_next := s64 (now + fv_period f)\<rparr>) s
                  else s) q s"

definition fp_eligible :: "fp_xen \<Rightarrow> nat \<Rightarrow> bool" where
  "fp_eligible s v \<longleftrightarrow> vcpu_runnable s v \<and> cputime (FPSCHED_VCPU s v) < fv_slice (FPSCHED_VCPU s v)"

definition fp_do_schedule :: "nat \<Rightarrow> int \<Rightarrow> bool \<Rightarrow> fp_xen \<Rightarrow> task_slice \<times> fp_xen" where
  "fp_do_schedule cpu now tasklet_work_scheduled s =
     (let cur = current s cpu;
          s1 = (if \<not> is_idle_vcpu s cur
                then upd_fpv cur (\<lambda>f. f\<lparr>cputime := s64 (cputime f + s64 (now - last_time_scheduled f))\<rparr>) s
                else s);
          s2 = update_queue now (RUNQ s1 cpu) s1;
          (snext, s3) =
            (case find (fp_eligible s2) (RUNQ s2 cpu) of
               Some v \<Rightarrow> (v, upd_fpv v (\<lambda>f. f\<lparr>last_time_scheduled := now\<rparr>) s2)
             | None \<Rightarrow> (idle_vcpu s2 cpu, s2));
          snext' = (if tasklet_work_scheduled then idle_vcpu s3 cpu else snext)
      in (\<lparr>ts_task = snext', ts_time = MICROSECS 100, ts_migrated = False\<rparr>, s3))"

text \<open>
  The assertion that \<^verbatim>\<open>vdata\<close> is present is in the type; whether a lock is held is not modelled.
\<close>

definition fp_switch_sched :: "nat \<Rightarrow> nat \<Rightarrow> fp_cpu option \<Rightarrow> fp_vcpu \<Rightarrow> fp_xen \<Rightarrow> fp_xen" where
  "fp_switch_sched new_ops cpu pdata vdata s =
     (if sd_lock (percpu s cpu) \<noteq> Cpu_lock cpu then panic Assert_failed s
      else
        let s1 = upd_vcpu (idle_vcpu s cpu) (\<lambda>x. x\<lparr>v_priv := Some vdata\<rparr>) s;
            s2 = s1\<lparr>pcpu_sched := (pcpu_sched s1)(cpu := new_ops)\<rparr>
        in upd_pcpu cpu (\<lambda>x. x\<lparr>sd_priv := pdata, sd_lock := Cpu_lock cpu\<rparr>) s2)"

end
