(* ===== verification/Runq_Order.thy ===== *)
theory Runq_Order
  imports Xen_Prelude
begin

text \<open>
  The contract between a run queue and its comparison function. The queue is kept by
  inserting in front of the first entry that the new one precedes; a queue whose keys were
  changed in place is repaired by taking out and re-inserting its entries one at a time.
  Both are correct for every comparison that is total and transitive.
\<close>

locale runq_order =
  fixes le :: "'a \<Rightarrow> 'a \<Rightarrow> bool"
  assumes le_total: "le x y \<or> le y x"
    and le_trans: "le x y \<Longrightarrow> le y z \<Longrightarrow> le x z"
begin

lemma le_refl: "le x x"
  using le_total [of x x] by simp

lemma not_le: "\<not> le x y \<Longrightarrow> le y x"
  using le_total [of x y] by simp

lemma insert_before_sorted:
  "sorted_wrt le ys \<Longrightarrow> sorted_wrt le (insert_before (le x) x ys)"
proof (induction ys)
  case Nil
  then show ?case by simp
next
  case (Cons y ys)
  then show ?case by (auto intro: le_trans not_le)
qed

text \<open>The first entry is one that precedes all others.\<close>

lemma sorted_wrt_nth_le:
  "sorted_wrt le (us @ x # vs) \<Longrightarrow> y \<in> set vs \<Longrightarrow> le x y"
  by (simp add: sorted_wrt_append)

text \<open>
  The members of \<open>P\<close> are settled in a queue when no entry in front of one of them should
  come after it. A queue whose entries are all settled is sorted.
\<close>

definition settled :: "'a set \<Rightarrow> 'a list \<Rightarrow> bool" where
  "settled P q \<longleftrightarrow> (\<forall>as z bs. q = as @ z # bs \<longrightarrow> z \<in> P \<longrightarrow> (\<forall>u\<in>set as. le u z))"

lemma settled_empty [simp]: "settled {} q"
  by (simp add: settled_def)

lemma settled_cong_notin:
  "settled P q \<Longrightarrow> x \<notin> set q \<Longrightarrow> settled (insert x P) q"
  by (auto simp: settled_def)

lemma settled_sorted:
  assumes "settled P q" and "set q \<subseteq> P"
  shows "sorted_wrt le q"
  unfolding sorted_wrt_iff_nth_less
proof (intro allI impI)
  fix i j
  assume ij: "i < j" "j < length q"
  then have "q = take j q @ q ! j # drop (Suc j) q"
    by (simp add: id_take_nth_drop)
  moreover have "q ! j \<in> P"
    using assms(2) ij by auto
  moreover have "q ! i \<in> set (take j q)"
    using ij by (auto simp: in_set_conv_nth intro: exI [of _ i])
  ultimately show "le (q ! i) (q ! j)"
    using assms(1) unfolding settled_def by blast
qed

lemma settled_remove1:
  assumes "settled P q"
  shows "settled P (remove1 x q)"
proof (cases "x \<in> set q")
  case True
  then obtain as bs where q: "q = as @ x # bs" and "x \<notin> set as"
    by (meson split_list_first)
  then have r: "remove1 x q = as @ bs"
    by (simp add: remove1_append)
  show ?thesis
    unfolding settled_def r
  proof (intro allI impI)
    fix us z vs
    assume eq: "as @ bs = us @ z # vs" and "z \<in> P"
    show "\<forall>u\<in>set us. le u z"
    proof (cases "length us < length as")
      case True
      then obtain ws where "as = us @ z # ws"
        using eq by (auto simp: append_eq_append_conv2 append_eq_Cons_conv)
      with q have "q = us @ z # (ws @ x # bs)" by simp
      with assms \<open>z \<in> P\<close> show ?thesis unfolding settled_def by blast
    next
      case False
      then obtain ws where ws: "us = as @ ws" and "bs = ws @ z # vs"
        using eq by (auto simp: append_eq_append_conv2)
      with q have "q = (as @ x # ws) @ z # vs" by simp
      with assms \<open>z \<in> P\<close> have "\<forall>u\<in>set (as @ x # ws). le u z"
        unfolding settled_def by blast
      with ws show ?thesis by simp
    qed
  qed
next
  case False
  with assms show ?thesis by (simp add: remove1_idem)
qed

text \<open>
  Re-inserting an entry settles it and leaves the settled entries settled: whatever now
  stands in front of a settled entry precedes it.
\<close>

lemma settled_insert_before:
  assumes st: "settled P q" and x: "x \<notin> set q"
  shows "settled (insert x P) (insert_before (le x) x q)"
proof -
  let ?as = "takeWhile (\<lambda>y. \<not> le x y) q" and ?bs = "dropWhile (\<lambda>y. \<not> le x y) q"
  have q: "q = ?as @ ?bs" by simp
  have before: "\<forall>u\<in>set ?as. le u x"
    by (auto dest!: set_takeWhileD intro: not_le)
  have ins: "insert_before (le x) x q = ?as @ x # ?bs"
    by (simp add: insert_before_append)
  show ?thesis
    unfolding settled_def ins
  proof (intro allI impI)
    fix us z vs
    assume eq: "?as @ x # ?bs = us @ z # vs" and z: "z \<in> insert x P"
    consider (bef) ws where "?as = us @ z # ws"
      | (at) "us = ?as" "z = x" "vs = ?bs"
      | (aft) ws where "us = ?as @ x # ws" "?bs = ws @ z # vs"
      using eq by (auto simp: append_eq_append_conv2 append_eq_Cons_conv Cons_eq_append_conv)
    then show "\<forall>u\<in>set us. le u z"
    proof cases
      case bef
      then have qz: "q = us @ z # (ws @ ?bs)" using q by simp
      with x have "z \<noteq> x" by (metis in_set_conv_decomp)
      with z have "z \<in> P" by simp
      with st qz show ?thesis unfolding settled_def by blast
    next
      case at
      with before show ?thesis by simp
    next
      case aft
      then have qz: "q = (?as @ ws) @ z # vs" using q by simp
      with x have "z \<noteq> x" by (metis in_set_conv_decomp)
      with z have "z \<in> P" by simp
      with st qz have front: "\<forall>u\<in>set (?as @ ws). le u z"
        unfolding settled_def by blast
      have "le x z"
      proof (cases ws)
        case Nil
        with aft have "?bs = z # vs" by simp
        then show ?thesis by (metis dropWhile_eq_Cons_conv)
      next
        case (Cons w ws')
        with aft have "?bs = w # (ws' @ z # vs)" by simp
        then have "le x w" by (metis dropWhile_eq_Cons_conv)
        moreover have "le w z" using front Cons by simp
        ultimately show ?thesis by (rule le_trans)
      qed
      with front aft show ?thesis by auto
    qed
  qed
qed

end

end
