(* ===== verification/Sched_Fp_Queue.thy ===== *)
theory Sched_Fp_Queue
  imports Sched_Fp Runq_Order
begin

text \<open>
  The run queues of the fixed-priority scheduler: what each operation does to the queues
  and to the keys that order them, when the pointers it follows are valid, and the
  interpretation of the run-queue contract for the three comparison functions.
\<close>

declare not_None_eq [simp del]

section \<open>The comparison functions meet the contract\<close>

interpretation rm_order: runq_order "\<lambda>x y. runq_rm_compare (F x) (F y)" for F :: "'a \<Rightarrow> fp_vcpu"
  by unfold_locales (auto simp: runq_rm_compare_def)

interpretation dm_order: runq_order "\<lambda>x y. runq_dm_compare (F x) (F y)" for F :: "'a \<Rightarrow> fp_vcpu"
  by unfold_locales (auto simp: runq_dm_compare_def)

interpretation fp_order: runq_order "\<lambda>x y. runq_fp_compare (F x) (F y)" for F :: "'a \<Rightarrow> fp_vcpu"
  by unfold_locales (auto simp: runq_fp_compare_def)

text \<open>The key a comparison looks at; smaller keys come first.\<close>

fun sort_key :: "fp_compare \<Rightarrow> fp_vcpu \<Rightarrow> int" where
  "sort_key Runq_rm_compare f = fv_period f"
| "sort_key Runq_dm_compare f = fv_deadline f"
| "sort_key Runq_fp_compare f = - fv_priority f"

lemma call_compare_key: "call_compare c f g \<longleftrightarrow> sort_key c f \<le> sort_key c g"
  by (cases c) (simp_all add: runq_rm_compare_def runq_dm_compare_def runq_fp_compare_def)

definition fp_key :: "fp_compare \<Rightarrow> fp_xen \<Rightarrow> nat \<Rightarrow> int" where
  "fp_key c s v = sort_key c (FPSCHED_VCPU s v)"

interpretation fpq: runq_order "\<lambda>x y. k x \<le> k y" for k :: "nat \<Rightarrow> int"
  by unfold_locales auto

text \<open>The run queue of a CPU is in the order of the comparison function \<open>c\<close>.\<close>

definition runq_sorted :: "fp_compare \<Rightarrow> fp_xen \<Rightarrow> nat \<Rightarrow> bool" where
  "runq_sorted c s cpu \<longleftrightarrow>
     sorted_wrt (\<lambda>x y. call_compare c (FPSCHED_VCPU s x) (FPSCHED_VCPU s y)) (RUNQ s cpu)"

lemma runq_sorted_key:
  "runq_sorted c s cpu \<longleftrightarrow> sorted_wrt (\<lambda>x y. fp_key c s x \<le> fp_key c s y) (RUNQ s cpu)"
  by (simp add: runq_sorted_def call_compare_key fp_key_def)

lemma runq_sorted_cong:
  "fp_key c s' = fp_key c s \<Longrightarrow> RUNQ s' cpu = RUNQ s cpu \<Longrightarrow>
    runq_sorted c s' cpu = runq_sorted c s cpu"
  by (simp add: runq_sorted_key)

section \<open>Stores and what they leave alone\<close>

lemma fpv_upd_fpv:
  "FPSCHED_VCPU (upd_fpv v h s) w =
     (if w = v \<and> v_priv (vcpus s v) \<noteq> None then h (FPSCHED_VCPU s w) else FPSCHED_VCPU s w)"
  by (auto simp: FPSCHED_VCPU_def upd_fpv_def)

lemma fpv_simps [simp]:
  "FPSCHED_VCPU (upd_fpd d g s) w = FPSCHED_VCPU s w"
  "FPSCHED_VCPU (set_runq cpu q s) w = FPSCHED_VCPU s w"
  "FPSCHED_VCPU (cpu_raise_softirq c nr s) w = FPSCHED_VCPU s w"
  "FPSCHED_VCPU (panic f s) w = FPSCHED_VCPU s w"
  "FPSCHED_VCPU (s\<lparr>sched_data := x\<rparr>) w = FPSCHED_VCPU s w"
  by (simp_all add: FPSCHED_VCPU_def upd_fpd_def set_runq_def)

lemma fpd_simps [simp]:
  "FPSCHED_DOM (upd_fpv v h s) d = FPSCHED_DOM s d"
  "FPSCHED_DOM (set_runq cpu q s) d = FPSCHED_DOM s d"
  "FPSCHED_DOM (cpu_raise_softirq c nr s) d = FPSCHED_DOM s d"
  "FPSCHED_DOM (panic f s) d = FPSCHED_DOM s d"
  "FPSCHED_DOM (s\<lparr>sched_data := x\<rparr>) d = FPSCHED_DOM s d"
  by (simp_all add: FPSCHED_DOM_def upd_fpv_def set_runq_def)

lemma fpd_upd_fpd:
  "FPSCHED_DOM (upd_fpd d g s) e =
     (if e = d \<and> d_priv (domains s d) \<noteq> None then g (FPSCHED_DOM s e) else FPSCHED_DOM s e)"
  by (auto simp: FPSCHED_DOM_def upd_fpd_def)

lemma runq_simps [simp]:
  "RUNQ (upd_fpv v h s) cpu = RUNQ s cpu"
  "RUNQ (upd_fpd d g s) cpu = RUNQ s cpu"
  "RUNQ (cpu_raise_softirq c nr s) cpu = RUNQ s cpu"
  "RUNQ (panic f s) cpu = RUNQ s cpu"
  "RUNQ (s\<lparr>sched_data := x\<rparr>) cpu = RUNQ s cpu"
  by (simp_all add: RUNQ_def upd_fpv_def upd_fpd_def)

lemma runq_set_runq:
  "RUNQ (set_runq cpu q s) c =
     (if c = cpu \<and> sd_priv (percpu s cpu) \<noteq> None then q else RUNQ s c)"
  by (auto simp: RUNQ_def set_runq_def split: option.splits)

lemma vcpus_set_runq: "vcpus (set_runq cpu q s) = vcpus s"
  by (simp add: set_runq_def)

text \<open>
  What no run-queue operation touches: everything of a vcpu but its private data,
  everything of a domain but its private data, the CPUs' current vcpus, the pools and the
  scheduler instances.
\<close>

definition fp_frame :: "fp_xen \<Rightarrow> fp_xen \<Rightarrow> bool" where
  "fp_frame s s' \<longleftrightarrow>
     (\<forall>v. (vcpus s' v)\<lparr>v_priv := None\<rparr> = (vcpus s v)\<lparr>v_priv := None\<rparr>)
     \<and> (\<forall>v. v_priv (vcpus s' v) = None \<longleftrightarrow> v_priv (vcpus s v) = None)
     \<and> (\<forall>d. (domains s' d)\<lparr>d_priv := None\<rparr> = (domains s d)\<lparr>d_priv := None\<rparr>)
     \<and> (\<forall>d. d_priv (domains s' d) = None \<longleftrightarrow> d_priv (domains s d) = None)
     \<and> (\<forall>c. (percpu s' c)\<lparr>sd_priv := None\<rparr> = (percpu s c)\<lparr>sd_priv := None\<rparr>)
     \<and> (\<forall>c. sd_priv (percpu s' c) = None \<longleftrightarrow> sd_priv (percpu s c) = None)
     \<and> pcpu_sched s' = pcpu_sched s \<and> pcpu_pool s' = pcpu_pool s \<and> current s' = current s
     \<and> idle_vcpu s' = idle_vcpu s \<and> dom_list s' = dom_list s \<and> pools s' = pools s
     \<and> pool_list s' = pool_list s \<and> sched_kind s' = sched_kind s
     \<and> default_ops s' = default_ops s \<and> clock s' = clock s \<and> nr_cpu_ids s' = nr_cpu_ids s
     \<and> glob s' = glob s"

lemma fp_frame_refl [simp]: "fp_frame s s"
  by (simp add: fp_frame_def)

lemma fp_frame_trans: "fp_frame s t \<Longrightarrow> fp_frame t u \<Longrightarrow> fp_frame s u"
  by (simp add: fp_frame_def)

lemma fp_frame_stores [simp, intro]:
  "fp_frame s (upd_fpv v h s)"
  "fp_frame s (upd_fpd d g s)"
  "fp_frame s (set_runq cpu q s)"
  "fp_frame s (cpu_raise_softirq c nr s)"
  "fp_frame s (panic f s)"
  "fp_frame s (s\<lparr>sched_data := x\<rparr>)"
  by (simp_all add: fp_frame_def upd_fpv_def upd_fpd_def set_runq_def)

lemma fp_frame_fold:
  assumes "\<And>x s. fp_frame s (f x s)"
  shows "fp_frame s (fold f xs s)"
  by (induction xs arbitrary: s) (auto intro: assms fp_frame_trans)

lemma vcpu_eq_fields:
  assumes "(a :: fp_vcpu vcpu)\<lparr>v_priv := None\<rparr> = b\<lparr>v_priv := None\<rparr>"
  shows "processor a = processor b" "v_domain a = v_domain b" "pause_flags a = pause_flags b"
    "pause_count a = pause_count b" "is_running a = is_running b" "runstate a = runstate b"
    "cpu_hard_affinity a = cpu_hard_affinity b" "vcpu_id a = vcpu_id b"
  using assms by (cases a; cases b; simp)+

lemma dom_eq_fields:
  assumes "(a :: fp_dom domain)\<lparr>d_priv := None\<rparr> = b\<lparr>d_priv := None\<rparr>"
  shows "domain_id a = domain_id b" "dom_vcpus a = dom_vcpus b" "d_cpupool a = d_cpupool b"
    "d_pause_count a = d_pause_count b"
  using assms by (cases a; cases b; simp)+

lemma pcpu_eq_fields:
  assumes "(a :: fp_cpu schedule_data)\<lparr>sd_priv := None\<rparr> = b\<lparr>sd_priv := None\<rparr>"
  shows "sd_curr a = sd_curr b" "sd_lock a = sd_lock b"
  using assms by (cases a; cases b; simp)+

lemma fp_frameD:
  assumes "fp_frame s s'"
  shows "processor (vcpus s' v) = processor (vcpus s v)"
    "v_domain (vcpus s' v) = v_domain (vcpus s v)"
    "pause_flags (vcpus s' v) = pause_flags (vcpus s v)"
    "pause_count (vcpus s' v) = pause_count (vcpus s v)"
    "is_running (vcpus s' v) = is_running (vcpus s v)"
    "runstate (vcpus s' v) = runstate (vcpus s v)"
    "cpu_hard_affinity (vcpus s' v) = cpu_hard_affinity (vcpus s v)"
    "domain_id (domains s' d) = domain_id (domains s d)"
    "dom_vcpus (domains s' d) = dom_vcpus (domains s d)"
    "d_cpupool (domains s' d) = d_cpupool (domains s d)"
    "d_pause_count (domains s' d) = d_pause_count (domains s d)"
    "sd_curr (percpu s' c) = sd_curr (percpu s c)"
    "v_priv (vcpus s' v) = None \<longleftrightarrow> v_priv (vcpus s v) = None"
    "d_priv (domains s' d) = None \<longleftrightarrow> d_priv (domains s d) = None"
    "sd_priv (percpu s' c) = None \<longleftrightarrow> sd_priv (percpu s c) = None"
    "current s' = current s" "idle_vcpu s' = idle_vcpu s" "dom_list s' = dom_list s"
    "pools s' = pools s" "pool_list s' = pool_list s" "sched_kind s' = sched_kind s"
    "nr_cpu_ids s' = nr_cpu_ids s" "clock s' = clock s"
  using assms unfolding fp_frame_def
  by (metis vcpu_eq_fields dom_eq_fields pcpu_eq_fields)+

lemma fp_frame_preds:
  assumes "fp_frame s s'"
  shows "is_idle_domain s' d = is_idle_domain s d" "is_idle_vcpu s' v = is_idle_vcpu s v"
    "vcpu_runnable s' v = vcpu_runnable s v"
    "domains_in_cpupool s' c = domains_in_cpupool s c" "fp_pools s' = fp_pools s"
  using fp_frameD [OF assms]
  by (simp_all add: is_idle_domain_def is_idle_vcpu_def vcpu_runnable_def
      domains_in_cpupool_def fp_pools_def)

section \<open>Keys\<close>

lemma fp_key_upd_fpv:
  assumes "\<And>f. sort_key c (h f) = sort_key c f"
  shows "fp_key c (upd_fpv v h s) = fp_key c s"
  by (rule ext) (simp add: fp_key_def fpv_upd_fpv assms)

lemma fp_key_simps [simp]:
  "fp_key c (upd_fpd d g s) = fp_key c s"
  "fp_key c (set_runq cpu q s) = fp_key c s"
  "fp_key c (cpu_raise_softirq cpu nr s) = fp_key c s"
  "fp_key c (panic f s) = fp_key c s"
  "fp_key c (s\<lparr>sched_data := x\<rparr>) = fp_key c s"
  by (rule ext, simp add: fp_key_def)+

lemma sort_key_other [simp]:
  "sort_key c (f\<lparr>position := i\<rparr>) = sort_key c f"
  "sort_key c (f\<lparr>queue_elem := e\<rparr>) = sort_key c f"
  "sort_key c (f\<lparr>cputime := t\<rparr>) = sort_key c f"
  "sort_key c (f\<lparr>last_time_scheduled := t\<rparr>) = sort_key c f"
  "sort_key c (f\<lparr>period_next := t\<rparr>) = sort_key c f"
  "sort_key c (f\<lparr>iterations := n\<rparr>) = sort_key c f"
  "sort_key c (f\<lparr>fv_slice := n\<rparr>) = sort_key c f"
  by (cases c; simp)+

lemma sort_key_prio:
  "c \<noteq> Runq_fp_compare \<Longrightarrow> sort_key c (f\<lparr>fv_priority := p\<rparr>) = sort_key c f"
  by (cases c) simp_all

section \<open>Operations that leave the queues alone\<close>

definition same_queues :: "fp_xen \<Rightarrow> fp_xen \<Rightarrow> bool" where
  "same_queues s s' \<longleftrightarrow> fp_frame s s' \<and> sched_data s' = sched_data s
     \<and> (\<forall>cpu. RUNQ s' cpu = RUNQ s cpu)
     \<and> (\<forall>v. queue_elem (FPSCHED_VCPU s' v) = queue_elem (FPSCHED_VCPU s v))"

lemma same_queues_refl [simp]: "same_queues s s"
  by (simp add: same_queues_def)

lemma same_queues_trans: "same_queues s t \<Longrightarrow> same_queues t u \<Longrightarrow> same_queues s u"
  by (auto simp: same_queues_def intro: fp_frame_trans)

lemma same_queues_upd_fpv:
  assumes "\<And>f. queue_elem (h f) = queue_elem f"
  shows "same_queues s (upd_fpv v h s)"
  using assms by (simp add: same_queues_def fpv_upd_fpv) (simp add: upd_fpv_def)

lemma same_queues_stores [simp]:
  "same_queues s (upd_fpd d g s)"
  "same_queues s (cpu_raise_softirq cpu nr s)"
  "same_queues s (panic f s)"
  by (simp_all add: same_queues_def) (simp add: upd_fpd_def)

lemma same_queues_fold:
  assumes "\<And>x s. same_queues s (f x s)"
  shows "same_queues s (fold f xs s)"
  by (induction xs arbitrary: s) (auto intro: assms same_queues_trans)

lemma same_queues_renumber: "same_queues s (renumber q i s)"
proof (induction q i s rule: renumber.induct)
  case (1 i s)
  then show ?case by simp
next
  case (2 v vs i s)
  have "same_queues s (upd_fpv v (\<lambda>f. f\<lparr>position := i\<rparr>) s)"
    by (rule same_queues_upd_fpv) simp
  with 2 show ?case by (auto intro: same_queues_trans)
qed

lemma fp_key_renumber [simp]: "fp_key c (renumber q i s) = fp_key c s"
  by (induction q i s rule: renumber.induct) (simp_all add: fp_key_upd_fpv)

lemma renumber_other: "v \<notin> set q \<Longrightarrow> FPSCHED_VCPU (renumber q i s) v = FPSCHED_VCPU s v"
  by (induction q i s rule: renumber.induct) (simp_all add: fpv_upd_fpv)

lemma renumber_position:
  "distinct q \<Longrightarrow> k < length q \<Longrightarrow> v_priv (vcpus s (q ! k)) \<noteq> None \<Longrightarrow>
    FPSCHED_VCPU (renumber q i s) (q ! k) = (FPSCHED_VCPU s (q ! k))\<lparr>position := i + int k\<rparr>"
proof (induction q i s arbitrary: k rule: renumber.induct)
  case (1 i s)
  then show ?case by simp
next
  case (2 v vs i s)
  show ?case
  proof (cases k)
    case 0
    with 2 show ?thesis by (simp add: renumber_other fpv_upd_fpv)
  next
    case (Suc m)
    let ?t = "upd_fpv v (\<lambda>f. f\<lparr>position := i\<rparr>) s"
    have m: "distinct vs" "m < length vs" "vs ! m \<noteq> v"
      using 2(2,3) Suc nth_mem by fastforce+
    have "v_priv (vcpus ?t (vs ! m)) \<noteq> None"
      using 2(4) Suc m by (simp add: upd_fpv_def)
    from 2(1) [OF m(1,2) this] m(3) Suc show ?thesis
      by (simp add: fpv_upd_fpv algebra_simps)
  qed
qed

lemma same_queues_set_vcpu_prios: "same_queues s (set_vcpu_prios d p s)"
  unfolding set_vcpu_prios_def
  by (rule same_queues_fold, rule same_queues_upd_fpv) simp

lemma same_queues_handlers:
  "same_queues s (fp_prio_handler d p s)"
  "same_queues s (rm_prio_handler d p s)"
  "same_queues s (dm_prio_handler d p s)"
  unfolding fp_prio_handler_def rm_prio_handler_def dm_prio_handler_def Let_def
  by (auto intro: same_queues_trans [OF same_queues_stores(1) same_queues_set_vcpu_prios])

lemma same_queues_call_prio_handler: "same_queues s (call_prio_handler h d p s)"
  by (cases h) (simp_all add: same_queues_handlers)

text \<open>The deadline-monotonic handler is a copy of the rate-monotonic one.\<close>

lemma dm_prio_handler_eq: "dm_prio_handler = rm_prio_handler"
  by (intro ext) (simp add: dm_prio_handler_def rm_prio_handler_def)

lemma fp_key_set_vcpu_prios:
  assumes "c \<noteq> Runq_fp_compare"
  shows "fp_key c (set_vcpu_prios d p s) = fp_key c s"
proof -
  have "fp_key c (fold (\<lambda>v. upd_fpv v (\<lambda>f. f\<lparr>fv_priority := p\<rparr>)) vs s) = fp_key c s" for vs s
    by (induction vs arbitrary: s)
      (simp_all add: fp_key_upd_fpv sort_key_prio assms)
  then show ?thesis by (simp add: set_vcpu_prios_def)
qed

lemma fp_key_call_prio_handler:
  "c \<noteq> Runq_fp_compare \<Longrightarrow> fp_key c (call_prio_handler h d p s) = fp_key c s"
  by (cases h)
    (simp_all add: dm_prio_handler_eq rm_prio_handler_def fp_prio_handler_def
      fp_key_set_vcpu_prios Let_def)

section \<open>Well-formed queues\<close>

text \<open>
  A vcpu is in a CPU's queue exactly when its node says so; no queue holds a vcpu twice or
  an idle vcpu; and a vcpu this scheduler manages sits on a CPU this scheduler manages.
\<close>

definition fp_wf :: "fp_xen \<Rightarrow> bool" where
  "fp_wf s \<longleftrightarrow>
     (\<forall>cpu v. v \<in> set (RUNQ s cpu) \<longleftrightarrow>
        v_priv (vcpus s v) \<noteq> None \<and> queue_elem (FPSCHED_VCPU s v) = Some cpu)
     \<and> (\<forall>cpu. distinct (RUNQ s cpu))
     \<and> (\<forall>cpu. \<forall>v\<in>set (RUNQ s cpu). \<not> is_idle_vcpu s v)
     \<and> (\<forall>v. v_priv (vcpus s v) \<noteq> None \<longrightarrow> sd_priv (percpu s (processor (vcpus s v))) \<noteq> None)"

lemma fp_wf_same_queues:
  assumes "same_queues s s'"
  shows "fp_wf s' = fp_wf s"
proof -
  have fr: "fp_frame s s'"
    using assms by (simp add: same_queues_def)
  show ?thesis
    using assms
    by (simp add: fp_wf_def same_queues_def fp_frameD [OF fr] fp_frame_preds [OF fr])
qed

lemma fp_wf_sched_data [simp]: "fp_wf (s\<lparr>sched_data := x\<rparr>) = fp_wf s"
  by (simp add: fp_wf_def is_idle_vcpu_def is_idle_domain_def)

lemma fp_frame_list_del_init_elem: "fp_frame s (list_del_init_elem v s)"
  unfolding list_del_init_elem_def
  by (auto split: option.splits intro: fp_frame_trans)

lemma fp_key_list_del_init_elem [simp]: "fp_key c (list_del_init_elem v s) = fp_key c s"
  by (simp add: list_del_init_elem_def fp_key_upd_fpv split: option.splits)

lemma sched_data_list_del_init_elem [simp]: "sched_data (list_del_init_elem v s) = sched_data s"
  by (simp add: list_del_init_elem_def upd_fpv_def set_runq_def split: option.splits)

lemma runq_list_del_init_elem:
  assumes "fp_wf s"
  shows "RUNQ (list_del_init_elem v s) cpu = remove1 v (RUNQ s cpu)
    \<or> v_priv (vcpus s v) = None"
proof (cases "v_priv (vcpus s v) = None")
  case False
  have iff: "v \<in> set (RUNQ s cpu) \<longleftrightarrow> queue_elem (FPSCHED_VCPU s v) = Some cpu" for cpu
    using assms False by (simp add: fp_wf_def)
  show ?thesis
  proof (cases "queue_elem (FPSCHED_VCPU s v)")
    case None
    with iff have "v \<notin> set (RUNQ s cpu)" by simp
    with None show ?thesis by (simp add: list_del_init_elem_def remove1_idem)
  next
    case (Some c)
    with iff have "v \<in> set (RUNQ s c)" by simp
    then have "sd_priv (percpu s c) \<noteq> None" by (cases "sd_priv (percpu s c)") (simp_all add: RUNQ_def)
    moreover have "c \<noteq> cpu \<Longrightarrow> v \<notin> set (RUNQ s cpu)" using iff Some by auto
    ultimately show ?thesis
      using Some by (auto simp: list_del_init_elem_def runq_set_runq remove1_idem)
  qed
qed simp

lemma queue_elem_list_del_init_elem:
  assumes "v_priv (vcpus s v) \<noteq> None"
  shows "queue_elem (FPSCHED_VCPU (list_del_init_elem v s) w) =
    (if w = v then None else queue_elem (FPSCHED_VCPU s w))"
  using assms
  by (auto simp: list_del_init_elem_def fpv_upd_fpv vcpus_set_runq split: option.splits)

lemma fp_wf_list_del_init_elem:
  assumes wf: "fp_wf s" and v: "v_priv (vcpus s v) \<noteq> None"
  shows "fp_wf (list_del_init_elem v s)"
proof -
  let ?t = "list_del_init_elem v s"
  note fr = fp_frame_list_del_init_elem [of s v]
  have q: "RUNQ ?t cpu = remove1 v (RUNQ s cpu)" for cpu
    using runq_list_del_init_elem [OF wf, of v cpu] v by blast
  have d: "distinct (RUNQ s cpu)" for cpu
    using wf by (simp add: fp_wf_def)
  have mem: "w \<in> set (RUNQ ?t cpu) \<longleftrightarrow> w \<noteq> v \<and> w \<in> set (RUNQ s cpu)" for w cpu
    by (auto simp: q set_remove1_eq [OF d])
  show ?thesis
    unfolding fp_wf_def mem queue_elem_list_del_init_elem [OF v] fp_frameD [OF fr]
      fp_frame_preds [OF fr]
    using wf by (auto simp: fp_wf_def q)
qed

section \<open>Inserting\<close>

lemma runq_insert_idle [simp]: "is_idle_vcpu s v \<Longrightarrow> runq_insert cpu v c s = s"
  by (simp add: runq_insert_def)

lemma fp_frame_runq_insert: "fp_frame s (runq_insert cpu v c s)"
  using same_queues_renumber
  by (auto simp: runq_insert_def Let_def same_queues_def
      intro: fp_frame_trans [OF fp_frame_trans [OF fp_frame_stores(3) fp_frame_stores(1)]])

lemma fp_key_runq_insert [simp]: "fp_key k (runq_insert cpu v c s) = fp_key k s"
  by (simp add: runq_insert_def Let_def fp_key_upd_fpv)

lemma sched_data_runq_insert [simp]: "sched_data (runq_insert cpu v c s) = sched_data s"
  using same_queues_renumber
  by (auto simp: runq_insert_def Let_def same_queues_def upd_fpv_def set_runq_def)

lemma runq_runq_insert:
  assumes "\<not> is_idle_vcpu s v"
  shows "RUNQ (runq_insert cpu v c s) k =
    (if k = cpu \<and> sd_priv (percpu s cpu) \<noteq> None
     then insert_before (\<lambda>i. fp_key c s v \<le> fp_key c s i) v (RUNQ s cpu) else RUNQ s k)"
  using assms same_queues_renumber
  by (simp add: runq_insert_def Let_def same_queues_def runq_set_runq call_compare_key fp_key_def)

lemma queue_elem_runq_insert:
  assumes "\<not> is_idle_vcpu s v" and "v_priv (vcpus s v) \<noteq> None"
  shows "queue_elem (FPSCHED_VCPU (runq_insert cpu v c s) w) =
    (if w = v then Some cpu else queue_elem (FPSCHED_VCPU s w))"
  using assms same_queues_renumber
  by (auto simp: runq_insert_def Let_def same_queues_def fpv_upd_fpv vcpus_set_runq)

lemma fp_wf_runq_insert:
  assumes wf: "fp_wf s" and v: "v_priv (vcpus s v) \<noteq> None" and off: "\<not> vcpu_on_q s v"
    and cpu: "sd_priv (percpu s cpu) \<noteq> None"
  shows "fp_wf (runq_insert cpu v c s)"
proof (cases "is_idle_vcpu s v")
  case False
  let ?t = "runq_insert cpu v c s"
  note fr = fp_frame_runq_insert [of s cpu v c]
  have out: "v \<notin> set (RUNQ s k)" for k
    using wf off by (auto simp: fp_wf_def vcpu_on_q_def)
  have q: "RUNQ ?t k = (if k = cpu then insert_before (\<lambda>i. fp_key c s v \<le> fp_key c s i) v (RUNQ s cpu)
      else RUNQ s k)" for k
    using runq_runq_insert [OF False] cpu by auto
  have mem: "w \<in> set (RUNQ ?t k) \<longleftrightarrow> w = v \<and> k = cpu \<or> w \<in> set (RUNQ s k)" for w k
    by (auto simp: q)
  have "\<forall>k. distinct (RUNQ ?t k)"
    using wf out by (simp add: q fp_wf_def)
  moreover have "\<forall>k. \<forall>w\<in>set (RUNQ ?t k). \<not> is_idle_vcpu s w"
    using wf False mem by (auto simp: fp_wf_def)
  ultimately show ?thesis
    unfolding fp_wf_def queue_elem_runq_insert [OF False v] fp_frameD [OF fr]
      fp_frame_preds [OF fr] unfolding mem
    using wf out v by (auto simp: fp_wf_def)
qed (simp add: wf)

end
