(* ===== verification/Sched_Fp_Inv.thy ===== *)
theory Sched_Fp_Inv
  imports Sched_Fp_Queue
begin

text \<open>
  The invariant of the fixed-priority scheduler and its preservation by every hook: queues
  are well formed, a vcpu has the priority of its domain, the function pointers match the
  strategy, and the run queues are in the strategy's order.
\<close>

declare not_None_eq [simp del]

section \<open>The invariant\<close>

definition conf_ok :: "fpsched_private \<Rightarrow> bool" where
  "conf_ok prv \<longleftrightarrow> strategy prv \<le> 2 \<and> config prv = strategy_conf (strategy prv) (config prv)"

text \<open>
  The vcpu lists of the domains are consistent, and a non-idle vcpu that has scheduler data
  is listed in a domain that has scheduler data.
\<close>

definition fp_linked :: "fp_xen \<Rightarrow> bool" where
  "fp_linked s \<longleftrightarrow>
     (\<forall>d. \<forall>v\<in>set (dom_vcpus (domains s d)). v_domain (vcpus s v) = d)
     \<and> (\<forall>v. v_priv (vcpus s v) \<noteq> None \<and> \<not> is_idle_vcpu s v \<longrightarrow>
          v \<in> set (dom_vcpus (domains s (v_domain (vcpus s v))))
          \<and> d_priv (domains s (v_domain (vcpus s v))) \<noteq> None)"

definition fp_coherent :: "fp_xen \<Rightarrow> bool" where
  "fp_coherent s \<longleftrightarrow>
     (\<forall>v. v_priv (vcpus s v) \<noteq> None \<and> \<not> is_idle_vcpu s v \<longrightarrow>
        fv_priority (FPSCHED_VCPU s v) = fd_priority (FPSCHED_DOM s (v_domain (vcpus s v))))"

text \<open>Domain 0 always has the top priority.\<close>

definition fp_dom0 :: "fp_xen \<Rightarrow> bool" where
  "fp_dom0 s \<longleftrightarrow>
     (\<forall>d. domain_id (domains s d) = 0 \<and> d_priv (domains s d) \<noteq> None \<longrightarrow>
        fd_priority (FPSCHED_DOM s d) = VM_DOM0_PRIO)"

definition fp_cmp :: "nat \<Rightarrow> fp_xen \<Rightarrow> fp_compare" where
  "fp_cmp ops s = compare (config (FPSCHED_PRIV s ops))"

definition fp_inv :: "nat \<Rightarrow> fp_xen \<Rightarrow> bool" where
  "fp_inv ops s \<longleftrightarrow> fp_wf s \<and> fp_linked s \<and> fp_coherent s \<and> fp_dom0 s
     \<and> sched_data s ops \<noteq> None \<and> conf_ok (FPSCHED_PRIV s ops)"

definition fp_sorted :: "nat \<Rightarrow> fp_xen \<Rightarrow> bool" where
  "fp_sorted ops s \<longleftrightarrow> (\<forall>cpu. pcpu_sched s cpu = ops \<longrightarrow> runq_sorted (fp_cmp ops s) s cpu)"

lemma conf_ok_cases:
  assumes "conf_ok prv"
  shows "compare (config prv) = Runq_fp_compare \<longleftrightarrow> prio_handler (config prv) = Fp_prio_handler"
proof -
  obtain a b where ab: "config prv = \<lparr>compare = a, prio_handler = b\<rparr>"
    by (cases "config prv") auto
  have "\<lparr>compare = a, prio_handler = b\<rparr> = strategy_conf (strategy prv) \<lparr>compare = a, prio_handler = b\<rparr>"
    using assms unfolding conf_ok_def ab [symmetric] by simp
  moreover have "strategy prv = 0 \<or> strategy prv = 1 \<or> strategy prv = 2"
    using assms by (auto simp: conf_ok_def)
  ultimately show ?thesis
    unfolding ab by auto
qed

lemma conf_ok_strategy:
  assumes "conf_ok prv"
  shows "prio_handler (config prv) = Fp_prio_handler \<longleftrightarrow> strategy prv = FP"
proof -
  obtain a b where ab: "config prv = \<lparr>compare = a, prio_handler = b\<rparr>"
    by (cases "config prv") auto
  have "\<lparr>compare = a, prio_handler = b\<rparr> = strategy_conf (strategy prv) \<lparr>compare = a, prio_handler = b\<rparr>"
    using assms unfolding conf_ok_def ab [symmetric] by simp
  moreover have "strategy prv = 0 \<or> strategy prv = 1 \<or> strategy prv = 2"
    using assms by (auto simp: conf_ok_def)
  ultimately show ?thesis
    unfolding ab FP_def by auto
qed

section \<open>The priority handlers\<close>

lemma fpv_fold_upd:
  assumes "\<And>f. h (h f) = h f"
  shows "FPSCHED_VCPU (fold (\<lambda>v. upd_fpv v h) vs s) w =
    (if w \<in> set vs \<and> v_priv (vcpus s w) \<noteq> None then h (FPSCHED_VCPU s w) else FPSCHED_VCPU s w)"
proof (induction vs arbitrary: s)
  case Nil
  then show ?case by simp
next
  case (Cons v vs)
  have "v_priv (vcpus (upd_fpv v h s) w) = None \<longleftrightarrow> v_priv (vcpus s w) = None"
    by (simp add: upd_fpv_def)
  with Cons [of "upd_fpv v h s"] show ?case
    by (auto simp: fpv_upd_fpv assms)
qed

lemma fpd_fold_upd [simp]:
  "FPSCHED_DOM (fold (\<lambda>v. upd_fpv v h) vs s) d = FPSCHED_DOM s d"
  by (induction vs arbitrary: s) simp_all

lemma upd_fpd_priv:
  "v_priv (vcpus (upd_fpd d g s) v) = v_priv (vcpus s v)"
  "dom_vcpus (domains (upd_fpd d g s) e) = dom_vcpus (domains s e)"
  by (simp_all add: upd_fpd_def)

lemma fpv_fp_prio_handler:
  "FPSCHED_VCPU (fp_prio_handler d p s) w =
    (if w \<in> set (dom_vcpus (domains s d)) \<and> v_priv (vcpus s w) \<noteq> None
     then (FPSCHED_VCPU s w)\<lparr>fv_priority := p\<rparr> else FPSCHED_VCPU s w)"
  by (simp add: fp_prio_handler_def set_vcpu_prios_def fpv_fold_upd upd_fpd_priv)

lemma fpd_fp_prio_handler:
  "FPSCHED_DOM (fp_prio_handler d p s) e =
    (if e = d \<and> d_priv (domains s d) \<noteq> None then (FPSCHED_DOM s e)\<lparr>fd_priority := p\<rparr>
     else FPSCHED_DOM s e)"
  by (simp add: fp_prio_handler_def set_vcpu_prios_def fpd_upd_fpd)

text \<open>
  Every handler gives the domain and all its vcpus one priority; the position-based ones
  divide by the number of vcpus.
\<close>

lemma call_prio_handler_cases:
  obtains (assign) p where "call_prio_handler h d prio s = fp_prio_handler d p s"
      and "h = Fp_prio_handler \<longrightarrow> p = prio"
  | (crash) "dom_vcpus (domains s d) = []" "domain_id (domains s d) \<noteq> 0" "\<not> is_idle_domain s d"
      "h \<noteq> Fp_prio_handler" "call_prio_handler h d prio s = panic Div_by_zero s"
proof (cases "h = Fp_prio_handler")
  case True
  then show ?thesis using assign by simp
next
  case False
  then have h: "call_prio_handler h d prio s = rm_prio_handler d prio s"
    by (cases h) (simp_all add: dm_prio_handler_eq)
  show ?thesis
  proof (cases "domain_id (domains s d) = 0 \<or> is_idle_domain s d \<or> dom_vcpus (domains s d) \<noteq> []")
    case True
    then have "\<exists>p. rm_prio_handler d prio s = fp_prio_handler d p s"
      by (auto simp: rm_prio_handler_def fp_prio_handler_def Let_def)
    with h False assign show ?thesis by auto
  next
    case nohead: False
    then have "rm_prio_handler d prio s = panic Div_by_zero s"
      by (simp add: rm_prio_handler_def Let_def)
    with h False nohead crash show ?thesis by simp
  qed
qed

lemma fp_linked_frame: "fp_frame s s' \<Longrightarrow> fp_linked s' = fp_linked s"
  by (simp add: fp_linked_def fp_frameD [of s s'] fp_frame_preds [of s s'])

lemma fp_coherent_same:
  assumes fr: "fp_frame s s'"
    and "\<And>v. fv_priority (FPSCHED_VCPU s' v) = fv_priority (FPSCHED_VCPU s v)"
    and "\<And>d. fd_priority (FPSCHED_DOM s' d) = fd_priority (FPSCHED_DOM s d)"
  shows "fp_coherent s' = fp_coherent s"
  using assms(2,3) by (simp add: fp_coherent_def fp_frameD [OF fr] fp_frame_preds [OF fr])

lemma fp_coherent_fp_prio_handler:
  assumes "fp_linked s" and "fp_coherent s"
  shows "fp_coherent (fp_prio_handler d p s)"
proof -
  have fr: "fp_frame s (fp_prio_handler d p s)"
    using same_queues_handlers(1) by (simp add: same_queues_def)
  show ?thesis
    using assms
    by (auto simp: fp_coherent_def fp_frameD [OF fr] fp_frame_preds [OF fr]
        fpv_fp_prio_handler fpd_fp_prio_handler fp_linked_def)
qed

lemma fp_coherent_call_prio_handler:
  assumes "fp_linked s" and "fp_coherent s"
  shows "fp_coherent (call_prio_handler h d prio s)"
proof (cases rule: call_prio_handler_cases [of h d prio s])
  case (assign p)
  with fp_coherent_fp_prio_handler [OF assms] show ?thesis by simp
next
  case crash
  moreover have "fp_coherent (panic Div_by_zero s) = fp_coherent s"
    by (rule fp_coherent_same) simp_all
  ultimately show ?thesis using assms by simp
qed

text \<open>
  A handler keeps every key, provided the fixed-priority one is given the priority the
  domain already has.
\<close>

lemma fp_key_handler_same:
  assumes inv: "fp_linked s" "fp_coherent s"
    and h: "h = Fp_prio_handler \<longleftrightarrow> c = Runq_fp_compare"
    and p: "h = Fp_prio_handler \<Longrightarrow> prio = fd_priority (FPSCHED_DOM s d)"
    and d: "\<not> is_idle_domain s d"
  shows "fp_key c (call_prio_handler h d prio s) = fp_key c s"
proof (cases "c = Runq_fp_compare")
  case True
  then have hh: "h = Fp_prio_handler" and pp: "prio = fd_priority (FPSCHED_DOM s d)"
    using h p by simp_all
  have "fv_priority (FPSCHED_VCPU s v) = prio"
    if "v \<in> set (dom_vcpus (domains s d))" "v_priv (vcpus s v) \<noteq> None" for v
  proof -
    have "v_domain (vcpus s v) = d"
      using inv(1) that by (simp add: fp_linked_def)
    with d inv(2) that pp show ?thesis
      by (auto simp: fp_coherent_def is_idle_vcpu_def)
  qed
  with hh True show ?thesis
    by (intro ext) (simp add: fp_key_def fpv_fp_prio_handler)
next
  case False
  then show ?thesis by (rule fp_key_call_prio_handler)
qed

section \<open>Queue changes keep the invariant\<close>

lemma fv_priority_key: "fv_priority (FPSCHED_VCPU s v) = - fp_key Runq_fp_compare s v"
  by (simp add: fp_key_def)

lemma fpd_renumber [simp]: "FPSCHED_DOM (renumber q i s) d = FPSCHED_DOM s d"
  by (induction q i s rule: renumber.induct) simp_all

lemma fpd_queue_ops [simp]:
  "FPSCHED_DOM (runq_insert cpu v c s) d = FPSCHED_DOM s d"
  "FPSCHED_DOM (list_del_init_elem v s) d = FPSCHED_DOM s d"
  by (simp_all add: runq_insert_def list_del_init_elem_def Let_def split: option.splits)

lemma fp_inv_cong:
  assumes fr: "fp_frame s s'" and wf: "fp_wf s'" and inv: "fp_inv ops s"
    and key: "fp_key Runq_fp_compare s' = fp_key Runq_fp_compare s"
    and dom: "\<And>d. fd_priority (FPSCHED_DOM s' d) = fd_priority (FPSCHED_DOM s d)"
    and prv: "sched_data s' ops \<noteq> None" "conf_ok (FPSCHED_PRIV s' ops)"
  shows "fp_inv ops s'"
proof -
  have "fp_coherent s' = fp_coherent s"
    by (rule fp_coherent_same [OF fr]) (simp_all add: fv_priority_key key dom)
  moreover have "fp_dom0 s' = fp_dom0 s"
    by (simp add: fp_dom0_def fp_frameD [OF fr] dom)
  ultimately show ?thesis
    using inv wf prv fp_linked_frame [OF fr] by (simp add: fp_inv_def)
qed

lemma fp_sorted_cong:
  assumes "fp_cmp ops s' = fp_cmp ops s" and "pcpu_sched s' = pcpu_sched s"
    and "fp_key (fp_cmp ops s) s' = fp_key (fp_cmp ops s) s"
    and "\<And>cpu. RUNQ s' cpu = RUNQ s cpu"
  shows "fp_sorted ops s' = fp_sorted ops s"
  using assms by (simp add: fp_sorted_def runq_sorted_key)

lemma fp_frame_pcpu_sched: "fp_frame s s' \<Longrightarrow> pcpu_sched s' = pcpu_sched s"
  by (simp add: fp_frame_def)

lemma fp_cmp_sched_data: "sched_data s' ops = sched_data s ops \<Longrightarrow> fp_cmp ops s' = fp_cmp ops s"
  by (simp add: fp_cmp_def FPSCHED_PRIV_def)

lemma fp_inv_list_del_init_elem:
  assumes "fp_inv ops s" and "v_priv (vcpus s v) \<noteq> None"
  shows "fp_inv ops (list_del_init_elem v s)"
proof (rule fp_inv_cong [OF fp_frame_list_del_init_elem _ assms(1)])
  show "fp_wf (list_del_init_elem v s)"
    using assms fp_wf_list_del_init_elem by (simp add: fp_inv_def)
qed (use assms in \<open>simp_all add: fp_inv_def FPSCHED_PRIV_def\<close>)

lemma fp_sorted_list_del_init_elem:
  assumes inv: "fp_inv ops s" and v: "v_priv (vcpus s v) \<noteq> None" and st: "fp_sorted ops s"
  shows "fp_sorted ops (list_del_init_elem v s)"
proof -
  have q: "RUNQ (list_del_init_elem v s) cpu = remove1 v (RUNQ s cpu)" for cpu
    using inv v runq_list_del_init_elem [of s v cpu] by (auto simp: fp_inv_def)
  show ?thesis
    using st fp_frame_pcpu_sched [OF fp_frame_list_del_init_elem [of s v]]
    by (simp add: fp_sorted_def runq_sorted_key q sorted_wrt_remove1
        fp_cmp_sched_data [of "list_del_init_elem v s" ops s])
qed

lemma fp_inv_runq_insert:
  assumes inv: "fp_inv ops s" and v: "v_priv (vcpus s v) \<noteq> None" and off: "\<not> vcpu_on_q s v"
  shows "fp_inv ops (runq_insert (processor (vcpus s v)) v c s)"
proof (rule fp_inv_cong [OF fp_frame_runq_insert _ inv])
  show "fp_wf (runq_insert (processor (vcpus s v)) v c s)"
  proof (rule fp_wf_runq_insert [OF _ v off])
    show "sd_priv (percpu s (processor (vcpus s v))) \<noteq> None" and "fp_wf s"
      using inv v by (auto simp: fp_inv_def fp_wf_def)
  qed
qed (use inv in \<open>simp_all add: fp_inv_def FPSCHED_PRIV_def\<close>)

lemma runq_sorted_runq_insert:
  assumes "runq_sorted c s k" and "\<not> is_idle_vcpu s v"
  shows "runq_sorted c (runq_insert cpu v c s) k"
  using assms fpq.insert_before_sorted [of "fp_key c s" "RUNQ s k" v]
  by (auto simp: runq_sorted_key runq_runq_insert)

lemma fp_sorted_runq_insert:
  assumes "fp_sorted ops s"
  shows "fp_sorted ops (runq_insert cpu v (fp_cmp ops s) s)"
proof (cases "is_idle_vcpu s v")
  case False
  with assms runq_sorted_runq_insert show ?thesis
    by (auto simp: fp_sorted_def fp_frame_pcpu_sched [OF fp_frame_runq_insert]
        fp_cmp_sched_data [OF arg_cong [OF sched_data_runq_insert, of "\<lambda>f. f ops"]])
qed (simp add: assms)

lemma fp_inv_same_queues:
  assumes "fp_inv ops s" and "same_queues s s'"
    and "fp_key Runq_fp_compare s' = fp_key Runq_fp_compare s"
    and "\<And>d. fd_priority (FPSCHED_DOM s' d) = fd_priority (FPSCHED_DOM s d)"
  shows "fp_inv ops s'"
proof (rule fp_inv_cong [OF _ _ assms(1)])
  show "fp_wf s'"
    using assms(1) fp_wf_same_queues [OF assms(2)] by (simp add: fp_inv_def)
qed (use assms in \<open>simp_all add: fp_inv_def same_queues_def FPSCHED_PRIV_def\<close>)

lemma fp_sorted_same_queues:
  assumes "fp_sorted ops s" and "same_queues s s'"
    and "fp_key (fp_cmp ops s) s' = fp_key (fp_cmp ops s) s"
  shows "fp_sorted ops s'"
proof -
  have "fp_sorted ops s' = fp_sorted ops s"
    using assms(2,3)
    by (intro fp_sorted_cong fp_cmp_sched_data) (simp_all add: same_queues_def fp_frame_pcpu_sched)
  with assms(1) show ?thesis by simp
qed

lemma fp_dom0_call_prio_handler:
  assumes "fp_dom0 s"
    and "h = Fp_prio_handler \<Longrightarrow> domain_id (domains s d) = 0 \<Longrightarrow> prio = VM_DOM0_PRIO"
  shows "fp_dom0 (call_prio_handler h d prio s)"
proof (cases "h = Fp_prio_handler \<or> domain_id (domains s d) = 0")
  case True
  have fr: "fp_frame s (fp_prio_handler d p s)" for p
    using same_queues_handlers(1) by (simp add: same_queues_def)
  show ?thesis
  proof (cases "h = Fp_prio_handler")
    case True
    with assms show ?thesis
      by (auto simp: fp_dom0_def fp_frameD [OF fr] fpd_fp_prio_handler)
  next
    case False
    with True have "call_prio_handler h d prio s = fp_prio_handler d VM_DOM0_PRIO s"
      by (cases h) (auto simp: dm_prio_handler_eq rm_prio_handler_def fp_prio_handler_def)
    with assms show ?thesis
      by (auto simp: fp_dom0_def fp_frameD [OF fr] fpd_fp_prio_handler)
  qed
next
  case False
  have fr: "fp_frame s (fp_prio_handler d p s)" for p
    using same_queues_handlers(1) by (simp add: same_queues_def)
  from False show ?thesis
    using assms(1)
    by (cases rule: call_prio_handler_cases [of h d prio s])
      (auto simp: fp_dom0_def fp_frameD [OF fr] fpd_fp_prio_handler)
qed

lemma fp_inv_call_prio_handler:
  assumes "fp_inv ops s"
    and "h = Fp_prio_handler \<Longrightarrow> domain_id (domains s d) = 0 \<Longrightarrow> prio = VM_DOM0_PRIO"
  shows "fp_inv ops (call_prio_handler h d prio s)"
proof -
  let ?t = "call_prio_handler h d prio s"
  have sq: "same_queues s ?t" by (rule same_queues_call_prio_handler)
  have "fp_wf ?t" "fp_linked ?t" "fp_coherent ?t"
    using assms fp_wf_same_queues [OF sq] fp_linked_frame [of s ?t] sq fp_coherent_call_prio_handler
    by (auto simp: fp_inv_def same_queues_def)
  moreover have "fp_dom0 ?t"
    using assms by (intro fp_dom0_call_prio_handler) (simp_all add: fp_inv_def)
  ultimately show ?thesis
    using assms(1) sq by (simp add: fp_inv_def same_queues_def FPSCHED_PRIV_def)
qed

lemma fp_sorted_call_prio_handler:
  assumes inv: "fp_inv ops s" and st: "fp_sorted ops s" and d: "\<not> is_idle_domain s d"
    and p: "prio_handler (config (FPSCHED_PRIV s ops)) = Fp_prio_handler
            \<Longrightarrow> prio = fd_priority (FPSCHED_DOM s d)"
  shows "fp_sorted ops (call_prio_handler (prio_handler (config (FPSCHED_PRIV s ops))) d prio s)"
proof (rule fp_sorted_same_queues [OF st same_queues_call_prio_handler])
  show "fp_key (fp_cmp ops s)
      (call_prio_handler (prio_handler (config (FPSCHED_PRIV s ops))) d prio s) =
      fp_key (fp_cmp ops s) s"
    using inv conf_ok_cases [of "FPSCHED_PRIV s ops"] p
    by (intro fp_key_handler_same) (auto simp: fp_inv_def fp_cmp_def d)
qed

section \<open>The hooks keep the invariant and the order\<close>

lemma fp_sleep_cases:
  "fp_sleep v s = s \<or> fp_sleep v s = cpu_raise_softirq (processor (vcpus s v)) SCHEDULE_SOFTIRQ s
    \<or> fp_sleep v s = list_del_init_elem v s"
  by (simp add: fp_sleep_def runq_remove_def Let_def)

lemma fp_raise_softirq:
  "fp_inv ops s \<Longrightarrow> fp_inv ops (cpu_raise_softirq cpu nr s)"
  "fp_sorted ops s \<Longrightarrow> fp_sorted ops (cpu_raise_softirq cpu nr s)"
  by (rule fp_inv_same_queues, simp_all)
    (rule fp_sorted_same_queues [OF _ same_queues_stores(2)], simp_all)

lemma fp_sleep_keeps:
  assumes "fp_inv ops s" and "v_priv (vcpus s v) \<noteq> None"
  shows "fp_inv ops (fp_sleep v s)" and "fp_sorted ops s \<Longrightarrow> fp_sorted ops (fp_sleep v s)"
  using fp_sleep_cases [of v s] assms
  by (auto simp: fp_raise_softirq fp_inv_list_del_init_elem fp_sorted_list_del_init_elem)

lemma fp_vcpu_remove_keeps:
  assumes "fp_inv ops s" and "v_priv (vcpus s v) \<noteq> None"
  shows "fp_inv ops (fp_vcpu_remove v s)" and "fp_sorted ops s \<Longrightarrow> fp_sorted ops (fp_vcpu_remove v s)"
  using assms
  by (auto simp: fp_vcpu_remove_def remove_from_queue_def fp_inv_list_del_init_elem
      fp_sorted_list_del_init_elem)

lemma fp_vcpu_wake_insert:
  assumes "sd_curr (percpu s (processor (vcpus s v))) \<noteq> v" and "\<not> is_idle_vcpu s v"
    and "\<not> vcpu_on_q s v"
  shows "fp_vcpu_wake ops v s =
    (let s1 = runq_insert (processor (vcpus s v)) v (fp_cmp ops s) s
     in cpu_raise_softirq (processor (vcpus s v)) SCHEDULE_SOFTIRQ
          (call_prio_handler (prio_handler (config (FPSCHED_PRIV s1 ops)))
             (v_domain (vcpus s1 v)) (fv_priority (FPSCHED_VCPU s1 v)) s1))"
  using assms by (simp add: fp_vcpu_wake_def Let_def fp_cmp_def)

lemma fp_vcpu_wake_noinsert:
  assumes "sd_curr (percpu s (processor (vcpus s v))) = v \<or> is_idle_vcpu s v \<or> vcpu_on_q s v"
  shows "\<exists>t. fp_vcpu_wake ops v s = s \<or> fp_vcpu_wake ops v s =
    s\<lparr>sched_data := (sched_data s)(ops := Some ((FPSCHED_PRIV s ops)\<lparr>last_time_temp := t\<rparr>))\<rparr>"
  using assms by (auto simp: fp_vcpu_wake_def Let_def)

lemma fp_last_time_temp:
  assumes inv: "fp_inv ops s"
    and t: "t = s\<lparr>sched_data := (sched_data s)(ops := Some ((FPSCHED_PRIV s ops)\<lparr>last_time_temp := x\<rparr>))\<rparr>"
  shows "fp_inv ops t" and "fp_sorted ops s \<Longrightarrow> fp_sorted ops t"
proof -
  have prv: "FPSCHED_PRIV t ops = (FPSCHED_PRIV s ops)\<lparr>last_time_temp := x\<rparr>"
    and sd: "sched_data t ops \<noteq> None"
    by (simp_all add: t FPSCHED_PRIV_def)
  show "fp_inv ops t"
  proof (rule fp_inv_cong [OF _ _ inv])
    show "fp_wf t" and "fp_frame s t"
      using inv by (simp_all add: t fp_inv_def)
  qed (use inv prv sd in \<open>simp_all add: t fp_inv_def conf_ok_def\<close>)
  have "fp_sorted ops t = fp_sorted ops s"
    by (rule fp_sorted_cong) (simp_all add: fp_cmp_def prv, simp_all add: t)
  then show "fp_sorted ops s \<Longrightarrow> fp_sorted ops t" by simp
qed

lemma fp_vcpu_wake_keeps:
  assumes inv: "fp_inv ops s" and v: "v_priv (vcpus s v) \<noteq> None"
  shows "fp_inv ops (fp_vcpu_wake ops v s)"
    and "fp_sorted ops s \<Longrightarrow> fp_sorted ops (fp_vcpu_wake ops v s)"
proof -
  have "fp_inv ops (fp_vcpu_wake ops v s)
    \<and> (fp_sorted ops s \<longrightarrow> fp_sorted ops (fp_vcpu_wake ops v s))"
  proof (cases "sd_curr (percpu s (processor (vcpus s v))) = v \<or> is_idle_vcpu s v \<or> vcpu_on_q s v")
    case True
    from fp_vcpu_wake_noinsert [OF this, of ops] show ?thesis
      using inv fp_last_time_temp by (elim exE disjE) simp_all
  next
    case False
    let ?s1 = "runq_insert (processor (vcpus s v)) v (fp_cmp ops s) s"
    note fr = fp_frame_runq_insert [of s "processor (vcpus s v)" v "fp_cmp ops s"]
    have inv1: "fp_inv ops ?s1"
      using False by (intro fp_inv_runq_insert inv v) simp
    have nid: "\<not> is_idle_vcpu ?s1 v" "v_priv (vcpus ?s1 v) \<noteq> None"
      using False v by (simp_all add: fp_frame_preds [OF fr] fp_frameD [OF fr])
    then have p: "fv_priority (FPSCHED_VCPU ?s1 v) = fd_priority (FPSCHED_DOM ?s1 (v_domain (vcpus ?s1 v)))"
      using inv1 by (simp only: fp_inv_def fp_coherent_def) blast
    have nd: "\<not> is_idle_domain ?s1 (v_domain (vcpus ?s1 v))"
      using nid by (simp add: is_idle_vcpu_def)
    have p0: "fv_priority (FPSCHED_VCPU ?s1 v) = VM_DOM0_PRIO"
      if "domain_id (domains ?s1 (v_domain (vcpus ?s1 v))) = 0"
      using that p inv1 nid by (auto simp: fp_inv_def fp_dom0_def fp_linked_def)
    have "fp_sorted ops ?s1" if "fp_sorted ops s"
      using fp_sorted_runq_insert [OF that] .
    with fp_inv_call_prio_handler [OF inv1 p0] fp_sorted_call_prio_handler [OF inv1 _ nd p]
    show ?thesis
      using False by (simp add: fp_vcpu_wake_insert Let_def fp_raise_softirq)
  qed
  then show "fp_inv ops (fp_vcpu_wake ops v s)"
    and "fp_sorted ops s \<Longrightarrow> fp_sorted ops (fp_vcpu_wake ops v s)" by simp_all
qed

lemma fp_insert_vcpu_keeps:
  assumes inv: "fp_inv ops s" and v: "v_priv (vcpus s v) \<noteq> None"
  shows "fp_inv ops (fp_insert_vcpu ops v s)"
    and "fp_sorted ops s \<Longrightarrow> fp_sorted ops (fp_insert_vcpu ops v s)"
proof -
  let ?s1 = "runq_insert (processor (vcpus s v)) v (fp_cmp ops s) s"
  have pan: "fp_inv ops (panic f s)" "fp_sorted ops s \<longrightarrow> fp_sorted ops (panic f s)" for f
    by (rule fp_inv_same_queues [OF inv]) (auto intro: fp_sorted_same_queues)
  have "fp_inv ops (fp_insert_vcpu ops v s)
    \<and> (fp_sorted ops s \<longrightarrow> fp_sorted ops (fp_insert_vcpu ops v s))"
  proof (cases "\<not> is_idle_vcpu s v \<and> \<not> vcpu_on_q s v \<and> vcpu_runnable s v \<and> \<not> is_running (vcpus s v)")
    case True
    note fr = fp_frame_runq_insert [of s "processor (vcpus s v)" v "fp_cmp ops s"]
    have inv1: "fp_inv ops ?s1"
      using True by (intro fp_inv_runq_insert inv v) simp
    have nd: "\<not> is_idle_domain ?s1 (v_domain (vcpus ?s1 v))"
      using True fp_frame_preds(2) [OF fr] by (simp add: is_idle_vcpu_def)
    have prv: "FPSCHED_PRIV ?s1 ops = FPSCHED_PRIV s ops"
      by (simp add: FPSCHED_PRIV_def)
    have notfp: "prio_handler (config (FPSCHED_PRIV ?s1 ops)) \<noteq> Fp_prio_handler"
      if "strategy (FPSCHED_PRIV ?s1 ops) \<noteq> FP"
      using that inv1 conf_ok_strategy by (simp add: fp_inv_def)
    have "fp_sorted ops ?s1" if "fp_sorted ops s"
      using fp_sorted_runq_insert [OF that] .
    with True inv1 fp_inv_call_prio_handler [OF inv1] fp_sorted_call_prio_handler [OF inv1 _ nd] notfp
    show ?thesis
      by (auto simp: fp_insert_vcpu_def Let_def fp_cmp_def)
  next
    case False
    with inv pan show ?thesis by (auto simp: fp_insert_vcpu_def)
  qed
  then show "fp_inv ops (fp_insert_vcpu ops v s)"
    and "fp_sorted ops s \<Longrightarrow> fp_sorted ops (fp_insert_vcpu ops v s)" by simp_all
qed

section \<open>The scheduling decision keeps the invariant and the order\<close>

text \<open>Bookkeeping changes no queue, no key and no domain parameter.\<close>

definition fp_bookkeeping :: "fp_xen \<Rightarrow> fp_xen \<Rightarrow> bool" where
  "fp_bookkeeping s s' \<longleftrightarrow> same_queues s s' \<and> (\<forall>c. fp_key c s' = fp_key c s)
     \<and> (\<forall>d. FPSCHED_DOM s' d = FPSCHED_DOM s d)"

lemma fp_bookkeeping_refl [simp]: "fp_bookkeeping s s"
  by (simp add: fp_bookkeeping_def)

lemma fp_bookkeeping_trans:
  "fp_bookkeeping s t \<Longrightarrow> fp_bookkeeping t u \<Longrightarrow> fp_bookkeeping s u"
  by (auto simp: fp_bookkeeping_def intro: same_queues_trans)

lemma fp_bookkeeping_upd_fpv:
  assumes "\<And>f. queue_elem (h f) = queue_elem f" and "\<And>c f. sort_key c (h f) = sort_key c f"
  shows "fp_bookkeeping s (upd_fpv v h s)"
  using assms by (simp add: fp_bookkeeping_def same_queues_upd_fpv fp_key_upd_fpv)

lemma fp_bookkeeping_update_queue: "fp_bookkeeping s (update_queue now q s)"
proof (induction q arbitrary: s)
  case Nil
  then show ?case by (simp add: update_queue_def)
next
  case (Cons v q)
  let ?h = "\<lambda>f. f\<lparr>iterations := u64 (iterations f + 1), cputime := 0,
               period_next := s64 (now + fv_period f)\<rparr>"
  have "fp_bookkeeping s (upd_fpv v ?h s)"
    by (rule fp_bookkeeping_upd_fpv) simp_all
  with Cons show ?case
    by (auto simp: update_queue_def intro: fp_bookkeeping_trans)
qed

lemma fp_bookkeeping_do_schedule:
  assumes "fp_do_schedule cpu now tasklet s = (ts, s')"
  shows "fp_bookkeeping s s'"
proof -
  let ?cur = "current s cpu"
  let ?s1 = "if \<not> is_idle_vcpu s ?cur
     then upd_fpv ?cur (\<lambda>f. f\<lparr>cputime := s64 (cputime f + s64 (now - last_time_scheduled f))\<rparr>) s else s"
  let ?s2 = "update_queue now (RUNQ ?s1 cpu) ?s1"
  have "fp_bookkeeping s ?s1"
    by (auto intro: fp_bookkeeping_upd_fpv)
  then have s2: "fp_bookkeeping s ?s2"
    using fp_bookkeeping_update_queue by (rule fp_bookkeeping_trans)
  have "s' = ?s2 \<or> (\<exists>v. s' = upd_fpv v (\<lambda>f. f\<lparr>last_time_scheduled := now\<rparr>) ?s2)"
    using assms by (auto simp: fp_do_schedule_def Let_def split: option.splits)
  moreover have "fp_bookkeeping ?s2 (upd_fpv v (\<lambda>f. f\<lparr>last_time_scheduled := now\<rparr>) ?s2)" for v
    by (rule fp_bookkeeping_upd_fpv) simp_all
  ultimately show ?thesis
    using s2 by (auto intro: fp_bookkeeping_trans)
qed

lemma fp_bookkeeping_keeps:
  assumes "fp_bookkeeping s s'"
  shows "fp_inv ops s \<Longrightarrow> fp_inv ops s'" and "fp_sorted ops s \<Longrightarrow> fp_sorted ops s'"
  using assms by (auto simp: fp_bookkeeping_def intro: fp_inv_same_queues fp_sorted_same_queues)

section \<open>The rest of the hypervisor\<close>

text \<open>
  What the code outside the scheduler changes between two hooks: anything but the
  scheduler's private data, the placement of the vcpus that have such data, the membership
  of vcpus in domains and the scheduler of a CPU.
\<close>

definition fp_outside :: "fp_xen \<Rightarrow> fp_xen \<Rightarrow> bool" where
  "fp_outside s s' \<longleftrightarrow>
     (\<forall>v. v_priv (vcpus s' v) = v_priv (vcpus s v) \<and> processor (vcpus s' v) = processor (vcpus s v)
        \<and> v_domain (vcpus s' v) = v_domain (vcpus s v))
     \<and> (\<forall>d. d_priv (domains s' d) = d_priv (domains s d) \<and> domain_id (domains s' d) = domain_id (domains s d)
        \<and> dom_vcpus (domains s' d) = dom_vcpus (domains s d))
     \<and> (\<forall>c. sd_priv (percpu s' c) = sd_priv (percpu s c))
     \<and> pcpu_sched s' = pcpu_sched s \<and> sched_data s' = sched_data s"

lemma fp_outside_same:
  assumes "fp_outside s s'"
  shows "RUNQ s' = RUNQ s" "FPSCHED_VCPU s' = FPSCHED_VCPU s" "FPSCHED_DOM s' = FPSCHED_DOM s"
    "is_idle_vcpu s' = is_idle_vcpu s" "FPSCHED_PRIV s' = FPSCHED_PRIV s"
  using assms
  by (auto simp: fp_outside_def RUNQ_def FPSCHED_VCPU_def FPSCHED_DOM_def is_idle_vcpu_def
      is_idle_domain_def FPSCHED_PRIV_def)

lemma fp_outside_keeps:
  assumes "fp_outside s s'"
  shows "fp_inv ops s \<Longrightarrow> fp_inv ops s'" and "fp_sorted ops s \<Longrightarrow> fp_sorted ops s'"
  using assms fp_outside_same [OF assms]
  by (simp_all add: fp_inv_def fp_wf_def fp_linked_def fp_coherent_def fp_dom0_def fp_sorted_def
      runq_sorted_def fp_cmp_def) (simp_all add: fp_outside_def)

text \<open>
  One step of a running system: a hook called for a vcpu the scheduler manages, a
  scheduling decision on some CPU, or something outside the scheduler.
\<close>

inductive fp_step :: "nat \<Rightarrow> fp_xen \<Rightarrow> fp_xen \<Rightarrow> bool" for ops :: nat where
  insert: "v_priv (vcpus s v) \<noteq> None \<Longrightarrow> fp_step ops s (fp_insert_vcpu ops v s)"
| remove: "v_priv (vcpus s v) \<noteq> None \<Longrightarrow> fp_step ops s (fp_vcpu_remove v s)"
| sleep: "v_priv (vcpus s v) \<noteq> None \<Longrightarrow> fp_step ops s (fp_sleep v s)"
| wake: "v_priv (vcpus s v) \<noteq> None \<Longrightarrow> fp_step ops s (fp_vcpu_wake ops v s)"
| do_schedule: "fp_do_schedule cpu now tasklet s = (ts, s') \<Longrightarrow> fp_step ops s s'"
| env: "fp_outside s s' \<Longrightarrow> fp_step ops s s'"

inductive fp_steps :: "nat \<Rightarrow> fp_xen \<Rightarrow> fp_xen \<Rightarrow> bool" for ops :: nat where
  none: "fp_steps ops s s"
| more: "fp_steps ops s t \<Longrightarrow> fp_step ops t u \<Longrightarrow> fp_steps ops s u"

lemma fp_step_keeps:
  assumes "fp_step ops s s'" and "fp_inv ops s"
  shows "fp_inv ops s'" and "fp_sorted ops s \<Longrightarrow> fp_sorted ops s'"
  using assms
  by (induction rule: fp_step.induct)
    (auto simp: fp_insert_vcpu_keeps fp_vcpu_remove_keeps fp_sleep_keeps fp_vcpu_wake_keeps
      dest: fp_bookkeeping_do_schedule intro: fp_bookkeeping_keeps fp_outside_keeps)

lemma fp_steps_keep:
  assumes "fp_steps ops s s'" and "fp_inv ops s" and "fp_sorted ops s"
  shows "fp_inv ops s' \<and> fp_sorted ops s'"
  using assms by (induction rule: fp_steps.induct) (auto intro: fp_step_keeps)

end
