(* ===== verification/Sched_Fp_Adjust.thy ===== *)
theory Sched_Fp_Adjust
  imports Sched_Fp_Inv
begin

text \<open>
  Changing the strategy (fp_adjust_global) or a domain's parameters (fp_adjust) changes the
  keys of queued vcpus in place and then takes every vcpu out of its queue and inserts it
  again. The proof follows the re-insertions: the vcpus already re-inserted are settled.
\<close>

declare not_None_eq [simp del]

section \<open>Re-inserting one vcpu\<close>

definition fp_settled :: "fp_compare \<Rightarrow> nat set \<Rightarrow> fp_xen \<Rightarrow> bool" where
  "fp_settled c P s \<longleftrightarrow> (\<forall>cpu. fpq.settled (fp_key c s) P (RUNQ s cpu))"

lemma fp_settled_same_queues:
  "same_queues s s' \<Longrightarrow> fp_key c s' = fp_key c s \<Longrightarrow> fp_settled c P s' = fp_settled c P s"
  by (simp add: fp_settled_def same_queues_def)

lemma remove_from_queue_eq:
  "remove_from_queue v s = list_del_init_elem v s"
  by (simp add: remove_from_queue_def list_del_init_elem_def vcpu_on_q_def split: option.splits)

lemma fp_inv_reinsertsort:
  assumes inv: "fp_inv ops s" and v: "v_priv (vcpus s v) \<noteq> None"
  shows "fp_inv ops (fp_reinsertsort_vcpu v c s)"
proof -
  let ?t = "list_del_init_elem v s"
  note fr = fp_frame_list_del_init_elem [of s v]
  have "\<not> vcpu_on_q ?t v"
    using v by (simp add: vcpu_on_q_def queue_elem_list_del_init_elem)
  moreover have "v_priv (vcpus ?t v) \<noteq> None"
    using v by (simp add: fp_frameD [OF fr])
  ultimately have "fp_inv ops (runq_insert (processor (vcpus ?t v)) v c ?t)"
    by (intro fp_inv_runq_insert fp_inv_list_del_init_elem inv v)
  then show ?thesis
    by (simp add: fp_reinsertsort_vcpu_def Let_def remove_from_queue_eq fp_raise_softirq
        fp_frameD [OF fr])
qed

lemma fp_frame_reinsertsort: "fp_frame s (fp_reinsertsort_vcpu v c s)"
  unfolding fp_reinsertsort_vcpu_def Let_def remove_from_queue_eq
  by (blast intro: fp_frame_trans fp_frame_list_del_init_elem fp_frame_runq_insert)

lemma reinsertsort_simps [simp]:
  "fp_key k (fp_reinsertsort_vcpu v c s) = fp_key k s"
  "FPSCHED_DOM (fp_reinsertsort_vcpu v c s) d = FPSCHED_DOM s d"
  "sched_data (fp_reinsertsort_vcpu v c s) = sched_data s"
  by (simp_all add: fp_reinsertsort_vcpu_def Let_def remove_from_queue_eq)

lemma fp_settled_reinsertsort:
  assumes wf: "fp_wf s" and v: "v_priv (vcpus s v) \<noteq> None" and nid: "\<not> is_idle_vcpu s v"
    and st: "fp_settled c P s"
  shows "fp_settled c (insert v P) (fp_reinsertsort_vcpu v c s)"
  unfolding fp_settled_def
proof
  fix cpu
  let ?t = "list_del_init_elem v s" and ?k = "fp_key c s"
  note fr = fp_frame_list_del_init_elem [of s v]
  have q1: "RUNQ ?t k = remove1 v (RUNQ s k)" for k
    using runq_list_del_init_elem [OF wf, of v k] v by blast
  have out: "v \<notin> set (RUNQ ?t k)" for k
    using wf by (simp add: q1 fp_wf_def)
  have st1: "fpq.settled ?k P (RUNQ ?t k)" for k
    using st unfolding fp_settled_def q1 by (blast intro: fpq.settled_remove1)
  have sd: "sd_priv (percpu ?t (processor (vcpus s v))) \<noteq> None"
    using wf v by (simp add: fp_frameD [OF fr] fp_wf_def)
  have nid1: "\<not> is_idle_vcpu ?t v"
    using nid by (simp add: fp_frame_preds [OF fr])
  have "RUNQ (fp_reinsertsort_vcpu v c s) cpu =
    (if cpu = processor (vcpus s v) then insert_before (\<lambda>i. ?k v \<le> ?k i) v (RUNQ ?t cpu)
     else RUNQ ?t cpu)"
    using sd by (auto simp: fp_reinsertsort_vcpu_def Let_def remove_from_queue_eq
        runq_runq_insert [OF nid1])
  then show "fpq.settled (fp_key c (fp_reinsertsort_vcpu v c s)) (insert v P)
      (RUNQ (fp_reinsertsort_vcpu v c s) cpu)"
    using fpq.settled_insert_before [OF st1 out] fpq.settled_cong_notin [OF st1 out] by simp
qed

section \<open>Re-inserting the vcpus of a domain\<close>

definition fp_prio_step :: "nat \<Rightarrow> nat \<Rightarrow> int \<Rightarrow> nat \<Rightarrow> fp_xen \<Rightarrow> fp_xen" where
  "fp_prio_step ops d prio v s =
     fp_reinsertsort_vcpu v (compare (config (FPSCHED_PRIV s ops)))
       (call_prio_handler (prio_handler (config (FPSCHED_PRIV s ops))) d prio s)"

lemma fp_sched_set_vm_prio_fold:
  "fp_sched_set_vm_prio ops d prio s =
     (if domain_id (domains s d) = 0 then upd_fpd d (\<lambda>x. x\<lparr>fd_priority := VM_DOM0_PRIO\<rparr>) s
      else if is_idle_domain s d then upd_fpd d (\<lambda>x. x\<lparr>fd_priority := VM_IDLE_PRIO\<rparr>) s
      else fold (fp_prio_step ops d prio) (dom_vcpus (domains s d)) s)"
  by (simp add: fp_sched_set_vm_prio_def fp_prio_step_def [abs_def])

lemma fp_frame_handler: "fp_frame s (call_prio_handler h d prio s)"
  using same_queues_call_prio_handler by (simp add: same_queues_def)

lemma sched_data_handler [simp]: "sched_data (call_prio_handler h d prio s) = sched_data s"
  using same_queues_call_prio_handler by (simp add: same_queues_def)

lemma fp_frame_prio_step: "fp_frame s (fp_prio_step ops d prio v s)"
  unfolding fp_prio_step_def
  by (blast intro: fp_frame_trans fp_frame_handler fp_frame_reinsertsort)

lemma sched_data_prio_step [simp]: "sched_data (fp_prio_step ops d prio v s) = sched_data s"
  by (simp add: fp_prio_step_def)

lemma fp_prio_step_fd_priority:
  assumes "prio_handler (config (FPSCHED_PRIV s ops)) = Fp_prio_handler"
    and "d_priv (domains s d) \<noteq> None"
  shows "fd_priority (FPSCHED_DOM (fp_prio_step ops d prio v s) d) = prio"
  using assms by (simp add: fp_prio_step_def fpd_fp_prio_handler)

lemma fp_inv_prio_step:
  assumes inv: "fp_inv ops s" and v: "v_priv (vcpus s v) \<noteq> None" and d: "domain_id (domains s d) \<noteq> 0"
  shows "fp_inv ops (fp_prio_step ops d prio v s)"
  unfolding fp_prio_step_def
  using d v
  by (intro fp_inv_reinsertsort fp_inv_call_prio_handler inv) (simp_all add: fp_frameD [OF fp_frame_handler])

lemma fp_settled_prio_step:
  assumes inv: "fp_inv ops s" and v: "v_priv (vcpus s v) \<noteq> None" and nid: "\<not> is_idle_vcpu s v"
    and d: "domain_id (domains s d) \<noteq> 0" "\<not> is_idle_domain s d"
    and st: "fp_settled (fp_cmp ops s) P s"
    and p: "P \<noteq> {} \<Longrightarrow> prio_handler (config (FPSCHED_PRIV s ops)) = Fp_prio_handler
            \<Longrightarrow> prio = fd_priority (FPSCHED_DOM s d)"
  shows "fp_settled (fp_cmp ops s) (insert v P) (fp_prio_step ops d prio v s)"
proof -
  let ?h = "prio_handler (config (FPSCHED_PRIV s ops))" and ?c = "fp_cmp ops s"
  let ?t = "call_prio_handler ?h d prio s"
  note fr = fp_frame_handler [of s ?h d prio]
  have inv1: "fp_inv ops ?t"
    using d by (intro fp_inv_call_prio_handler inv) simp
  have st1: "fp_settled ?c P ?t"
  proof (cases "P = {}")
    case True
    then show ?thesis by (simp add: fp_settled_def fpq.settled_empty)
  next
    case False
    have "fp_key ?c ?t = fp_key ?c s"
      using inv conf_ok_cases [of "FPSCHED_PRIV s ops"] p False d
      by (intro fp_key_handler_same) (auto simp: fp_inv_def fp_cmp_def)
    with st show ?thesis
      using fp_settled_same_queues [OF same_queues_call_prio_handler] by blast
  qed
  have "fp_settled ?c (insert v P) (fp_reinsertsort_vcpu v ?c ?t)"
    using v nid inv1 st1
    by (intro fp_settled_reinsertsort)
      (simp_all add: fp_frameD [OF fr] fp_frame_preds [OF fr] fp_inv_def)
  then show ?thesis by (simp add: fp_prio_step_def fp_cmp_def)
qed

lemma fp_prio_fold:
  assumes "fp_inv ops s" and "\<forall>v\<in>set vs. v_priv (vcpus s v) \<noteq> None \<and> \<not> is_idle_vcpu s v"
    and "domain_id (domains s d) \<noteq> 0" and "\<not> is_idle_domain s d" and "d_priv (domains s d) \<noteq> None"
    and "fp_settled (fp_cmp ops s) P s"
    and "P \<noteq> {} \<Longrightarrow> prio_handler (config (FPSCHED_PRIV s ops)) = Fp_prio_handler
            \<Longrightarrow> prio = fd_priority (FPSCHED_DOM s d)"
  shows "fp_inv ops (fold (fp_prio_step ops d prio) vs s)
    \<and> fp_frame s (fold (fp_prio_step ops d prio) vs s)
    \<and> sched_data (fold (fp_prio_step ops d prio) vs s) = sched_data s
    \<and> fp_settled (fp_cmp ops s) (set vs \<union> P) (fold (fp_prio_step ops d prio) vs s)"
  using assms
proof (induction vs arbitrary: s P)
  case Nil
  then show ?case by simp
next
  case (Cons v vs)
  let ?t = "fp_prio_step ops d prio v s"
  note fr = fp_frame_prio_step [of s ops d prio v]
  have prv: "FPSCHED_PRIV ?t ops = FPSCHED_PRIV s ops" and cmp: "fp_cmp ops ?t = fp_cmp ops s"
    by (simp_all add: FPSCHED_PRIV_def fp_cmp_def)
  have "fp_inv ops ?t"
    using Cons.prems by (intro fp_inv_prio_step) simp_all
  moreover have "fp_settled (fp_cmp ops ?t) (insert v P) ?t"
    unfolding cmp using Cons.prems by (intro fp_settled_prio_step) simp_all
  moreover have "prio = fd_priority (FPSCHED_DOM ?t d)"
    if "prio_handler (config (FPSCHED_PRIV ?t ops)) = Fp_prio_handler"
    using that Cons.prems(5) by (simp add: fp_prio_step_fd_priority prv)
  ultimately have "fp_inv ops (fold (fp_prio_step ops d prio) vs ?t)
    \<and> fp_frame ?t (fold (fp_prio_step ops d prio) vs ?t)
    \<and> sched_data (fold (fp_prio_step ops d prio) vs ?t) = sched_data ?t
    \<and> fp_settled (fp_cmp ops ?t) (set vs \<union> insert v P) (fold (fp_prio_step ops d prio) vs ?t)"
    using Cons.prems by (intro Cons.IH) (simp_all add: fp_frameD [OF fr] fp_frame_preds [OF fr])
  then show ?case
    using fp_frame_trans [OF fr] by (simp add: cmp)
qed

section \<open>Re-inserting the vcpus of every domain\<close>

text \<open>The vcpus of a domain that fp_sched_set_vm_prio re-inserts: none of domain 0's.\<close>

definition reinserted :: "fp_xen \<Rightarrow> nat \<Rightarrow> nat set" where
  "reinserted s d =
     (if domain_id (domains s d) = 0 \<or> is_idle_domain s d then {} else set (dom_vcpus (domains s d)))"

text \<open>A domain whose data and whose vcpus' data this scheduler has allocated.\<close>

definition fp_dom_ready :: "fp_xen \<Rightarrow> nat \<Rightarrow> bool" where
  "fp_dom_ready s d \<longleftrightarrow> is_idle_domain s d \<or>
     d_priv (domains s d) \<noteq> None \<and> (\<forall>v\<in>set (dom_vcpus (domains s d)). v_priv (vcpus s v) \<noteq> None)"

lemma frame_reinserted: "fp_frame s s' \<Longrightarrow> reinserted s' d = reinserted s d"
  by (simp add: reinserted_def fp_frameD [of s s'] fp_frame_preds [of s s'])

lemma frame_dom_ready: "fp_frame s s' \<Longrightarrow> fp_dom_ready s' d = fp_dom_ready s d"
  by (simp add: fp_dom_ready_def fp_frameD [of s s'] fp_frame_preds [of s s'])

definition fp_reorder_ok :: "nat \<Rightarrow> nat set \<Rightarrow> nat set \<Rightarrow> fp_xen \<Rightarrow> fp_xen \<Rightarrow> bool" where
  "fp_reorder_ok ops P Q s s' \<longleftrightarrow> fp_inv ops s' \<and> fp_frame s s' \<and> sched_data s' = sched_data s
     \<and> (fp_settled (fp_cmp ops s) P s \<longrightarrow> fp_settled (fp_cmp ops s) (Q \<union> P) s')"

lemma fp_reorder_ok_trans:
  "fp_reorder_ok ops P Q s t \<Longrightarrow> fp_reorder_ok ops (Q \<union> P) R t u \<Longrightarrow> fp_reorder_ok ops P (R \<union> Q) s u"
  by (auto simp: fp_reorder_ok_def fp_cmp_def FPSCHED_PRIV_def Un_assoc intro: fp_frame_trans)

lemma fp_set_vm_prio_reorder:
  assumes inv: "fp_inv ops s" and rdy: "fp_dom_ready s d"
    and p: "P \<noteq> {} \<Longrightarrow> prio_handler (config (FPSCHED_PRIV s ops)) = Fp_prio_handler
            \<Longrightarrow> prio = fd_priority (FPSCHED_DOM s d)"
  shows "fp_reorder_ok ops P (reinserted s d) s (fp_sched_set_vm_prio ops d prio s)"
proof -
  consider (dom0) "domain_id (domains s d) = 0" | (idle) "domain_id (domains s d) \<noteq> 0" "is_idle_domain s d"
    | (other) "domain_id (domains s d) \<noteq> 0" "\<not> is_idle_domain s d" by blast
  then show ?thesis
  proof cases
    case dom0
    have eq: "FPSCHED_DOM (upd_fpd d (\<lambda>x. x\<lparr>fd_priority := VM_DOM0_PRIO\<rparr>) s) e = FPSCHED_DOM s e" for e
      using inv dom0 by (auto simp: fpd_upd_fpd fp_inv_def fp_dom0_def)
    have "fp_inv ops (upd_fpd d (\<lambda>x. x\<lparr>fd_priority := VM_DOM0_PRIO\<rparr>) s)"
      by (rule fp_inv_same_queues [OF inv]) (simp_all add: eq)
    with dom0 show ?thesis
      by (simp add: fp_reorder_ok_def fp_sched_set_vm_prio_fold reinserted_def fp_settled_def)
        (simp add: upd_fpd_def)
  next
    case idle
    let ?t = "upd_fpd d (\<lambda>x. x\<lparr>fd_priority := VM_IDLE_PRIO\<rparr>) s"
    have sq: "same_queues s ?t" by simp
    have fr: "fp_frame s ?t" by simp
    have "fp_coherent ?t"
      using inv idle(2)
      by (auto simp: fp_inv_def fp_coherent_def fp_frameD [OF fr] fp_frame_preds [OF fr] fpd_upd_fpd
          is_idle_vcpu_def)
    moreover have "fp_dom0 ?t"
      using inv idle(1) by (auto simp: fp_inv_def fp_dom0_def fp_frameD [OF fr] fpd_upd_fpd)
    ultimately have "fp_inv ops ?t"
      using inv fp_wf_same_queues [OF sq] fp_linked_frame [OF fr]
      by (simp add: fp_inv_def FPSCHED_PRIV_def) (simp add: upd_fpd_def)
    with idle show ?thesis
      by (simp add: fp_reorder_ok_def fp_sched_set_vm_prio_fold reinserted_def fp_settled_def)
        (simp add: upd_fpd_def)
  next
    case other
    have "\<forall>v\<in>set (dom_vcpus (domains s d)). v_priv (vcpus s v) \<noteq> None \<and> \<not> is_idle_vcpu s v"
      using inv rdy other by (auto simp: fp_dom_ready_def fp_inv_def fp_linked_def is_idle_vcpu_def)
    moreover have "d_priv (domains s d) \<noteq> None"
      using rdy other by (simp add: fp_dom_ready_def)
    ultimately have fold_facts: "Q = P \<or> Q = {} \<Longrightarrow> fp_settled (fp_cmp ops s) Q s \<Longrightarrow>
      fp_inv ops (fold (fp_prio_step ops d prio) (dom_vcpus (domains s d)) s)
      \<and> fp_frame s (fold (fp_prio_step ops d prio) (dom_vcpus (domains s d)) s)
      \<and> sched_data (fold (fp_prio_step ops d prio) (dom_vcpus (domains s d)) s) = sched_data s
      \<and> fp_settled (fp_cmp ops s) (set (dom_vcpus (domains s d)) \<union> Q)
          (fold (fp_prio_step ops d prio) (dom_vcpus (domains s d)) s)" for Q
      using other p by (intro fp_prio_fold inv) auto
    have "fp_settled (fp_cmp ops s) {} s"
      by (simp add: fp_settled_def fpq.settled_empty)
    with fold_facts [of "{}"] fold_facts [of P] other show ?thesis
      by (simp add: fp_reorder_ok_def fp_sched_set_vm_prio_fold reinserted_def)
  qed
qed

text \<open>The inner loops: every domain of a pool, every pool of the scheduler kind.\<close>

lemma fp_reorder_domains:
  assumes "fp_inv ops s" and "\<forall>d\<in>set ds. fp_dom_ready s d"
    and "\<And>d s'. fp_frame s s' \<Longrightarrow> step d s' = s' \<and> skip d
          \<or> \<not> skip d \<and> step d s' = fp_sched_set_vm_prio ops d (fd_priority (FPSCHED_DOM s' d)) s'"
  shows "fp_reorder_ok ops P (\<Union>d\<in>{d \<in> set ds. \<not> skip d}. reinserted s d) s (fold step ds s)"
  using assms
proof (induction ds arbitrary: s P)
  case Nil
  then show ?case by (simp add: fp_reorder_ok_def)
next
  case (Cons d ds)
  show ?case
  proof (cases "skip d")
    case True
    then have "step d s = s" using Cons.prems(3) [of s d] by simp
    moreover have "{x \<in> set (d # ds). \<not> skip x} = {x \<in> set ds. \<not> skip x}"
      using True by auto
    ultimately show ?thesis
      using Cons.IH [of s P] Cons.prems by simp
  next
    case False
    let ?t = "fp_sched_set_vm_prio ops d (fd_priority (FPSCHED_DOM s d)) s"
    have t: "step d s = ?t" using Cons.prems(3) [of s d] False by simp
    have one: "fp_reorder_ok ops P (reinserted s d) s ?t"
      using Cons.prems by (intro fp_set_vm_prio_reorder) simp_all
    then have fr: "fp_frame s ?t" and inv: "fp_inv ops ?t"
      by (simp_all add: fp_reorder_ok_def)
    have "fp_reorder_ok ops (reinserted s d \<union> P) (\<Union>d\<in>{d \<in> set ds. \<not> skip d}. reinserted ?t d) ?t
        (fold step ds ?t)"
      using Cons.prems inv
      by (intro Cons.IH) (auto simp: frame_dom_ready [OF fr] intro: fp_frame_trans [OF fr])
    from fp_reorder_ok_trans [OF one this]
    have "fp_reorder_ok ops P ((\<Union>d\<in>{d \<in> set ds. \<not> skip d}. reinserted s d) \<union> reinserted s d) s
        (fold step ds ?t)"
      by (simp add: frame_reinserted [OF fr])
    moreover have "(\<Union>x\<in>{x \<in> set (d # ds). \<not> skip x}. reinserted s x) =
        (\<Union>x\<in>{x \<in> set ds. \<not> skip x}. reinserted s x) \<union> reinserted s d"
      using False by auto
    ultimately show ?thesis by (simp add: t)
  qed
qed

lemma fp_reorder_pools:
  assumes "fp_inv ops s" and "\<forall>c\<in>set cs. \<forall>d\<in>set (domains_in_cpupool s c). fp_dom_ready s d"
    and "\<And>d s'. fp_frame s s' \<Longrightarrow> step d s' = s' \<and> skip d
          \<or> \<not> skip d \<and> step d s' = fp_sched_set_vm_prio ops d (fd_priority (FPSCHED_DOM s' d)) s'"
  shows "fp_reorder_ok ops P
    (\<Union>c\<in>set cs. \<Union>d\<in>{d \<in> set (domains_in_cpupool s c). \<not> skip d}. reinserted s d)
    s (fold (\<lambda>c s. fold step (domains_in_cpupool s c) s) cs s)"
  using assms
proof (induction cs arbitrary: s P)
  case Nil
  then show ?case by (simp add: fp_reorder_ok_def)
next
  case (Cons c cs)
  let ?t = "fold step (domains_in_cpupool s c) s"
  let ?R = "\<lambda>c. \<Union>d\<in>{d \<in> set (domains_in_cpupool s c). \<not> skip d}. reinserted s d"
  have one: "fp_reorder_ok ops P (?R c) s ?t"
    using Cons.prems by (intro fp_reorder_domains) auto
  then have fr: "fp_frame s ?t" and inv: "fp_inv ops ?t"
    by (simp_all add: fp_reorder_ok_def)
  have "fp_reorder_ok ops (?R c \<union> P)
      (\<Union>c\<in>set cs. \<Union>d\<in>{d \<in> set (domains_in_cpupool ?t c). \<not> skip d}. reinserted ?t d) ?t
      (fold (\<lambda>c s. fold step (domains_in_cpupool s c) s) cs ?t)"
    using Cons.prems inv
    by (intro Cons.IH)
      (auto simp: frame_dom_ready [OF fr] fp_frame_preds [OF fr] intro: fp_frame_trans [OF fr])
  from fp_reorder_ok_trans [OF one this] show ?case
    by (simp add: fp_frame_preds [OF fr] frame_reinserted [OF fr] Un_commute)
qed

section \<open>Changing the strategy\<close>

text \<open>
  The queues whose entries are all re-inserted: every vcpu on them belongs to a domain other
  than domain 0 that is listed in a pool of this scheduler kind.
\<close>

definition fp_covered :: "fp_xen \<Rightarrow> nat \<Rightarrow> bool" where
  "fp_covered s cpu \<longleftrightarrow>
     (\<forall>v\<in>set (RUNQ s cpu). domain_id (domains s (v_domain (vcpus s v))) \<noteq> 0
        \<and> (\<exists>c\<in>set (fp_pools s). v_domain (vcpus s v) \<in> set (domains_in_cpupool s c)))"

definition fp_doms_ready :: "fp_xen \<Rightarrow> bool" where
  "fp_doms_ready s \<longleftrightarrow>
     (\<forall>c\<in>set (fp_pools s). \<forall>d\<in>set (domains_in_cpupool s c). fp_dom_ready s d)"

lemma queued_reinserted:
  assumes "fp_inv ops s" and "fp_covered s cpu" and "v \<in> set (RUNQ s cpu)"
  shows "v \<in> reinserted s (v_domain (vcpus s v))"
  using assms by (auto simp: fp_inv_def fp_wf_def fp_linked_def fp_covered_def reinserted_def is_idle_vcpu_def)

lemma covered_sorted:
  assumes ok: "fp_reorder_ok ops {} Q s s'" and cov: "fp_covered s' cpu"
    and Q: "\<And>c d. c \<in> set (fp_pools s) \<Longrightarrow> d \<in> set (domains_in_cpupool s c) \<Longrightarrow> reinserted s d \<subseteq> Q"
  shows "runq_sorted (fp_cmp ops s') s' cpu"
proof -
  have fr: "fp_frame s s'" and inv: "fp_inv ops s'"
    and cmp: "fp_cmp ops s' = fp_cmp ops s" and st: "fp_settled (fp_cmp ops s) Q s'"
    using ok by (auto simp: fp_reorder_ok_def fp_cmp_def FPSCHED_PRIV_def fp_settled_def)
  have "set (RUNQ s' cpu) \<subseteq> Q"
  proof
    fix v assume v: "v \<in> set (RUNQ s' cpu)"
    then obtain c where "c \<in> set (fp_pools s)" "v_domain (vcpus s' v) \<in> set (domains_in_cpupool s c)"
      using cov by (auto simp: fp_covered_def fp_frame_preds [OF fr])
    from Q [OF this] queued_reinserted [OF inv cov v] show "v \<in> Q"
      by (auto simp: frame_reinserted [OF fr])
  qed
  with st show ?thesis
    unfolding cmp runq_sorted_key fp_settled_def by (blast intro: fpq.settled_sorted)
qed

lemma strategy_conf_idem: "strategy_conf n (strategy_conf n c) = strategy_conf n c"
  by simp

lemma fp_sched_set_cases:
  assumes "fp_sched_set ops arg s = (rc, t)"
  shows "fs_strategy arg > 2 \<and> rc = Inl EINVAL \<and> t = s
    \<or> fs_strategy arg \<le> 2 \<and> rc = OK \<and> t = s\<lparr>sched_data := (sched_data s)(ops :=
          Some ((FPSCHED_PRIV s ops)\<lparr>strategy := fs_strategy arg,
            config := strategy_conf (fs_strategy arg) (config (FPSCHED_PRIV s ops))\<rparr>))\<rparr>"
  using assms unfolding fp_sched_set_def Let_def
  by (simp del: strategy_conf.simps split: if_splits)

lemma fp_sched_set_inv:
  assumes inv: "fp_inv ops s" and t: "fp_sched_set ops arg s = (rc, t)"
  shows "fp_inv ops t" and "fp_frame s t"
proof -
  show fr: "fp_frame s t"
    using fp_sched_set_cases [OF t] by (auto simp: fp_frame_def)
  show "fp_inv ops t"
    using fp_sched_set_cases [OF t]
  proof (elim disjE conjE)
    assume n: "fs_strategy arg \<le> 2"
      and eq: "t = s\<lparr>sched_data := (sched_data s)(ops :=
          Some ((FPSCHED_PRIV s ops)\<lparr>strategy := fs_strategy arg,
            config := strategy_conf (fs_strategy arg) (config (FPSCHED_PRIV s ops))\<rparr>))\<rparr>"
    have "conf_ok (FPSCHED_PRIV t ops)"
      using n unfolding eq conf_ok_def
      by (simp add: FPSCHED_PRIV_def strategy_conf_idem del: strategy_conf.simps)
    moreover have "fp_wf t" "sched_data t ops \<noteq> None"
      using inv by (simp_all add: eq fp_inv_def)
    ultimately show ?thesis
      by (intro fp_inv_cong [OF fr _ inv]) (simp_all add: eq)
  qed (use inv in simp)
qed

text \<open>The state after the command and before the vcpus are re-inserted.\<close>

lemma fp_adjust_global_split:
  assumes "fp_adjust_global ops cmd arg junk s = (rc, out, s')" and inv: "fp_inv ops s"
  obtains t where "fp_inv ops t" "fp_frame s t"
    "s' = fold (\<lambda>c s. fold (\<lambda>d s. fp_sched_set_vm_prio ops d (fd_priority (FPSCHED_DOM s d)) s)
            (domains_in_cpupool s c) s) (fp_pools t) t"
    "cmd = Sysctl_putinfo \<and> fp_sched_set ops arg s = (rc, t) \<or> cmd \<noteq> Sysctl_putinfo \<and> t = s"
proof (cases cmd)
  case Sysctl_putinfo
  obtain r t where t: "fp_sched_set ops arg s = (r, t)" by fastforce
  with assms(1) Sysctl_putinfo fp_sched_set_inv [OF inv t] that [of t] show thesis
    by (simp add: fp_adjust_global_def Let_def)
next
  case Sysctl_getinfo
  with assms that [of s] show thesis by (simp add: fp_adjust_global_def Let_def)
next
  case Sysctl_other
  with assms that [of s] show thesis by (simp add: fp_adjust_global_def Let_def)
qed

lemma fp_adjust_global_reorders:
  assumes call: "fp_adjust_global ops cmd arg junk s = (rc, out, s')"
    and inv: "fp_inv ops s" and ready: "fp_doms_ready s"
  shows "fp_inv ops s'" and "fp_covered s' cpu \<Longrightarrow> runq_sorted (fp_cmp ops s') s' cpu"
proof -
  obtain t where t: "fp_inv ops t" "fp_frame s t"
    and s': "s' = fold (\<lambda>c s. fold (\<lambda>d s. fp_sched_set_vm_prio ops d (fd_priority (FPSCHED_DOM s d)) s)
            (domains_in_cpupool s c) s) (fp_pools t) t"
    by (rule fp_adjust_global_split [OF call inv])
  let ?Q = "\<Union>c\<in>set (fp_pools t). \<Union>d\<in>{d \<in> set (domains_in_cpupool t c). \<not> False}. reinserted t d"
  have "fp_reorder_ok ops {} ?Q t s'"
    unfolding s' using t ready
    by (intro fp_reorder_pools)
      (auto simp: fp_doms_ready_def frame_dom_ready [OF t(2)] fp_frame_preds [OF t(2)])
  then show "fp_inv ops s'" and "fp_covered s' cpu \<Longrightarrow> runq_sorted (fp_cmp ops s') s' cpu"
    using covered_sorted [of ops ?Q t s' cpu] by (auto simp: fp_reorder_ok_def)
qed

section \<open>Changing the parameters of a domain\<close>

lemma fp_set_params_same:
  "same_queues s (fold (\<lambda>v. upd_fpv v h) vs (upd_fpd d g s))" if "\<And>f. queue_elem (h f) = queue_elem f"
  using that by (blast intro: same_queues_trans same_queues_fold same_queues_upd_fpv same_queues_stores)

lemma fp_key_fold_upd:
  assumes "\<And>f. sort_key c (h f) = sort_key c f"
  shows "fp_key c (fold (\<lambda>v. upd_fpv v h) vs s) = fp_key c s"
  by (induction vs arbitrary: s) (simp_all add: fp_key_upd_fpv assms)

lemma fp_set_params_inv:
  assumes "fp_inv ops s" and "\<And>f. queue_elem (h f) = queue_elem f"
    and "\<And>f. fv_priority (h f) = fv_priority f" and "\<And>x. fd_priority (g x) = fd_priority x"
  shows "fp_inv ops (fold (\<lambda>v. upd_fpv v h) vs (upd_fpd d g s))"
  using assms
  by (intro fp_inv_same_queues [OF _ fp_set_params_same])
    (simp_all add: fp_key_fold_upd fpd_upd_fpd)

definition fp_same_prio :: "nat \<Rightarrow> fp_xen \<Rightarrow> fp_xen \<Rightarrow> bool" where
  "fp_same_prio ops s s' \<longleftrightarrow> (fp_inv ops s \<longrightarrow> fp_inv ops s') \<and> same_queues s s'"

lemma fp_same_prio_refl [simp]: "fp_same_prio ops s s"
  by (simp add: fp_same_prio_def)

lemma fp_same_prio_trans: "fp_same_prio ops s t \<Longrightarrow> fp_same_prio ops t u \<Longrightarrow> fp_same_prio ops s u"
  by (auto simp: fp_same_prio_def intro: same_queues_trans)

lemma fp_set_same_prio:
  "fp_same_prio ops s (fp_set_period ops d p s)"
  "fp_same_prio ops s (fp_set_slice d p s)"
  "fp_same_prio ops s (fp_set_deadline d p s)"
  unfolding fp_same_prio_def fp_set_period_def fp_set_slice_def fp_set_deadline_def Let_def
  by (intro conjI impI fp_set_params_inv fp_set_params_same; simp)+

text \<open>The domain itself is re-inserted first, then every domain with another number.\<close>

lemma fp_adjust_split:
  assumes "fp_adjust ops d cmd op s = (op', s')" and "cmd \<noteq> Domctl_getinfo"
  obtains t u prio where "fp_same_prio ops s t"
    "u = (if sched_kind t (cp_sched (pools t (the (d_cpupool (domains t d))))) = XEN_SCHEDULER_FP
          then fp_sched_set_vm_prio ops d prio t else t)"
    "s' = fold (\<lambda>c s. fold (\<lambda>d' s. if domain_id (domains s d) = domain_id (domains s d') then s
            else fp_sched_set_vm_prio ops d' (fd_priority (FPSCHED_DOM s d')) s)
          (domains_in_cpupool s c) s) (fp_pools u) u"
proof -
  let ?s1 = "if op_period op > 0 then fp_set_period ops d (op_period op) s else s"
  let ?s2 = "if op_slice op > 0 then fp_set_slice d (op_slice op) ?s1 else ?s1"
  let ?s3 = "if op_deadline op > 0 then fp_set_deadline d (op_deadline op) ?s2 else ?s2"
  have "fp_same_prio ops s ?s1" "fp_same_prio ops ?s1 ?s2" "fp_same_prio ops ?s2 ?s3"
    by (simp_all add: fp_set_same_prio)
  then have same: "fp_same_prio ops s ?s3"
    by (meson fp_same_prio_trans)
  define s3 where "s3 = ?s3"
  let ?prio = "if op_priority op > 0 then op_priority op else fd_priority (FPSCHED_DOM s3 d)"
  define u where "u = (if sched_kind s3 (cp_sched (pools s3 (the (d_cpupool (domains s3 d))))) = XEN_SCHEDULER_FP
    then fp_sched_set_vm_prio ops d ?prio s3 else s3)"
  have "snd (fp_adjust ops d cmd op s) = s'"
    using assms by simp
  then show thesis
    unfolding fp_adjust_def Let_def s3_def [symmetric] u_def [symmetric]
    using assms(2) same [folded s3_def]
    by (intro that [of s3 u ?prio]) (simp_all only: if_False snd_conv u_def)
qed

lemma fp_adjust_reorders:
  assumes call: "fp_adjust ops d cmd op s = (op', s')"
    and inv: "fp_inv ops s" and ready: "fp_doms_ready s"
    and d: "c \<in> set (fp_pools s)" "d_cpupool (domains s d) = Some c" "fp_dom_ready s d"
    and ids: "\<And>e. domain_id (domains s e) = domain_id (domains s d) \<Longrightarrow> e = d"
    and cmd: "cmd \<noteq> Domctl_getinfo"
  shows "fp_inv ops s'" and "fp_covered s' cpu \<Longrightarrow> runq_sorted (fp_cmp ops s') s' cpu"
proof -
  let ?skip = "\<lambda>e. domain_id (domains s d) = domain_id (domains s e)"
  obtain t u prio where t: "fp_same_prio ops s t"
    and u: "u = (if sched_kind t (cp_sched (pools t (the (d_cpupool (domains t d))))) = XEN_SCHEDULER_FP
          then fp_sched_set_vm_prio ops d prio t else t)"
    and s': "s' = fold (\<lambda>c s. fold (\<lambda>d' s. if domain_id (domains s d) = domain_id (domains s d') then s
            else fp_sched_set_vm_prio ops d' (fd_priority (FPSCHED_DOM s d')) s)
          (domains_in_cpupool s c) s) (fp_pools u) u"
    by (rule fp_adjust_split [OF call cmd])
  have fr: "fp_frame s t" and invt: "fp_inv ops t"
    using t inv by (auto simp: fp_same_prio_def same_queues_def)
  have "u = fp_sched_set_vm_prio ops d prio t"
    using d by (simp add: u fp_frameD [OF fr] fp_pools_def)
  then have one: "fp_reorder_ok ops {} (reinserted t d) t u"
    using d invt by (simp add: fp_set_vm_prio_reorder frame_dom_ready [OF fr])
  then have fru: "fp_frame t u" and invu: "fp_inv ops u" and fr2: "fp_frame s u"
    using fr by (auto simp: fp_reorder_ok_def intro: fp_frame_trans)
  have id: "domain_id (domains w e) = domain_id (domains s e)" if "fp_frame u w" for w e
    using fp_frameD [OF fp_frame_trans [OF fr2 that]] by simp
  have rest: "fp_reorder_ok ops (reinserted t d \<union> {})
      (\<Union>c\<in>set (fp_pools u). \<Union>e\<in>{e \<in> set (domains_in_cpupool u c). \<not> ?skip e}. reinserted u e) u s'"
    unfolding s' using invu ready
    by (intro fp_reorder_pools)
      (auto simp: fp_doms_ready_def frame_dom_ready [OF fr2] fp_frame_preds [OF fr2] id)
  let ?Q = "(\<Union>c\<in>set (fp_pools t). \<Union>e\<in>{e \<in> set (domains_in_cpupool t c). \<not> ?skip e}. reinserted t e)
      \<union> reinserted t d"
  have all: "fp_reorder_ok ops {} ?Q t s'"
    using fp_reorder_ok_trans [OF one rest] by (simp add: fp_frame_preds [OF fru] frame_reinserted [OF fru])
  have "reinserted t e \<subseteq> ?Q" if "k \<in> set (fp_pools t)" "e \<in> set (domains_in_cpupool t k)" for k e
    using that ids [of e] by (cases "e = d") (auto, metis)
  with all show "fp_inv ops s'" and "fp_covered s' cpu \<Longrightarrow> runq_sorted (fp_cmp ops s') s' cpu"
    using covered_sorted [OF all, of cpu] by (auto simp: fp_reorder_ok_def)
qed

end
