(* ===== verification/Sched_Fp_Props.thy ===== *)
theory Sched_Fp_Props
  imports Sched_Fp_Adjust
begin

text \<open>
  What the fixed-priority scheduler guarantees: the order of the run queues over every run,
  the optimality of a scheduling decision, the accounting of the time budget and the bound
  on its overrun, the effect of changing the strategy and the parameters; and the cases in
  which the code does not keep the order.
\<close>

declare not_None_eq [simp del]

section \<open>A concrete machine\<close>

text \<open>
  One CPU and one pool of this scheduler; softirqs \<open>irq\<close> pending; domains 0, 1 and 2 with one vcpu each of the same
  number, and the idle domain with vcpu 9. \<open>fv\<close> and \<open>fd\<close> give the scheduler's data.
\<close>

definition demo_timer :: atimer where
  "demo_timer = \<lparr>at_cpu = 0, at_expires = None, at_killed = False\<rparr>"

definition demo_vcpu :: "nat \<Rightarrow> fp_vcpu option \<Rightarrow> fp_vcpu vcpu" where
  "demo_vcpu d p =
     \<lparr>vcpu_id = 0, processor = 0, v_domain = d, periodic_period = 0, periodic_last_event = 0,
      periodic_timer = demo_timer, singleshot_timer = demo_timer, poll_timer = demo_timer,
      v_priv = p, runstate = \<lparr>rs_state = RUNSTATE_runnable, rs_entry = 0, rs_time = (\<lambda>_. 0)\<rparr>,
      last_run_time = 0, is_running = False, is_urgent = False, defer_shutdown = False,
      paused_for_shutdown = False, affinity_broken = False, poll_evtchn = 0, pause_flags = {},
      pause_count = 0, v_controller_pause_count = 0, cpu_hard_affinity = {0},
      cpu_hard_affinity_saved = {0}, cpu_soft_affinity = {0}\<rparr>"

definition demo_domain :: "nat \<Rightarrow> nat list \<Rightarrow> fp_dom option \<Rightarrow> nat option \<Rightarrow> fp_dom domain" where
  "demo_domain i vs p c =
     \<lparr>domain_id = i, dom_vcpus = vs, d_priv = p, d_cpupool = c, d_is_dying = DOMDYING_alive,
      d_controller_pause_count = 0, is_pinned = False, poll_mask = {}, is_shutting_down = False,
      is_shut_down = False, shutdown_code = None, d_pause_count = 0, max_evtchns = 1024,
      watchdog_inuse_map = {}, watchdog_timer = (\<lambda>_. demo_timer),
      suspend_evtchn = 0, creation_finished = True\<rparr>"

definition demo_globals :: globals where
  "demo_globals =
     \<lparr>system_state = SYS_STATE_active, cpu_online_map = {0}, tasklet_work = (\<lambda>_. {}), hardware_domain = 0,
      cpupool0 = 0, cpupool_free_cpus = {}, cpupool_locked_cpus = {}, cpupool_moving_cpu = None,
      cpupool_cpu_moving = None, sent = []\<rparr>"

definition fp_demo :: "nat \<Rightarrow> (nat \<times> softirq) set \<Rightarrow> nat list \<Rightarrow> (nat \<Rightarrow> fp_vcpu) \<Rightarrow> (nat \<Rightarrow> fp_dom) \<Rightarrow> fp_xen" where
  "fp_demo strat irq q fv fd =
     \<lparr>vcpus = (\<lambda>v. if v < 3 then demo_vcpu v (Some (fv v)) else demo_vcpu 9 None),
      domains = (\<lambda>d. if d < 3 then demo_domain d [d] (Some (fd d)) (Some 0)
                     else demo_domain DOMID_IDLE [] None None),
      percpu = (\<lambda>c. \<lparr>sd_lock = Cpu_lock c, sd_curr = 9,
                     sd_priv = (if c = 0 then Some \<lparr>runq = q\<rparr> else None),
                     sd_timer = demo_timer, urgent_count = 0\<rparr>),
      pcpu_sched = (\<lambda>_. 0), pcpu_pool = (\<lambda>_. Some 0), current = (\<lambda>_. 9), idle_vcpu = (\<lambda>_. 9),
      dom_list = [0, 1, 2],
      pools = (\<lambda>_. \<lparr>cpupool_id = 0, cpu_valid = {0}, cpu_suspended = {}, n_dom = 3, cp_sched = 0,
                    cp_refcnt = 1\<rparr>),
      pool_list = [0],
      sched_data = [0 \<mapsto> \<lparr>strategy = strat,
                     config = strategy_conf strat
                       \<lparr>compare = Runq_rm_compare, prio_handler = Rm_prio_handler\<rparr>,
                     last_time_temp = 0\<rparr>],
      sched_kind = (\<lambda>_. XEN_SCHEDULER_FP), default_ops = 0, softirqs = irq, clock = 1000,
      nr_cpu_ids = 1, glob = demo_globals, fault = None\<rparr>"

text \<open>Rate-monotonic data: domain 1 has the shortest period, then domain 2, then domain 0.\<close>

definition demo_fv :: "nat set \<Rightarrow> nat \<Rightarrow> fp_vcpu" where
  "demo_fv Q v =
     (let per = (if v = 1 then 500000 else if v = 2 then 600000 else 1000000) in
      \<lparr>queue_elem = (if v \<in> Q then Some 0 else None),
       fv_priority = (if v = 1 then 999 else if v = 2 then 998 else 1000),
       fv_period = per, fv_slice = 100000, fv_deadline = per,
       period_next = per, last_time_scheduled = 0, cputime = 0, iterations = 0,
       max_cputime = 0, min_cputime = 0, position = 0\<rparr>)"

definition demo_fd :: "nat \<Rightarrow> fp_dom" where
  "demo_fd d =
     \<lparr>fd_priority = (if d = 1 then 999 else if d = 2 then 998 else 1000),
      fd_period = (if d = 1 then 500000 else if d = 2 then 600000 else 1000000),
      fd_slice = 100000, fd_deadline = 1000000\<rparr>"

lemmas demo_defs = fp_demo_def demo_fv_def demo_fd_def demo_vcpu_def demo_domain_def demo_timer_def
  DOMID_IDLE_def

lemma fp_demo_runq [simp]: "RUNQ (fp_demo n irq q fv fd) c = (if c = 0 then q else [])"
  by (simp add: RUNQ_def fp_demo_def)

lemma fp_demo_fpv: "v < 3 \<Longrightarrow> FPSCHED_VCPU (fp_demo n irq q fv fd) v = fv v"
  by (simp add: FPSCHED_VCPU_def demo_defs)

lemma fp_demo_idle [simp]:
  "is_idle_domain (fp_demo n irq q fv fd) d \<longleftrightarrow> \<not> d < 3"
  "is_idle_vcpu (fp_demo n irq q fv fd) v \<longleftrightarrow> \<not> v < 3"
  by (auto simp: is_idle_vcpu_def is_idle_domain_def demo_defs)

lemma fp_demo_read:
  "d < 3 \<Longrightarrow> FPSCHED_DOM (fp_demo n irq q fv fd) d = fd d"
  "v < 3 \<Longrightarrow> v_domain (vcpus (fp_demo n irq q fv fd) v) = v"
  "d < 3 \<Longrightarrow> domain_id (domains (fp_demo n irq q fv fd) d) = d"
  "d < 3 \<Longrightarrow> dom_vcpus (domains (fp_demo n irq q fv fd) d) = [d]"
  "processor (vcpus (fp_demo n irq q fv fd) v) = 0"
  "d < 3 \<Longrightarrow> d_cpupool (domains (fp_demo n irq q fv fd) d) = Some 0"
  "sched_kind (fp_demo n irq q fv fd) i = XEN_SCHEDULER_FP"
  "fp_pools (fp_demo n irq q fv fd) = [0]"
  "domains_in_cpupool (fp_demo n irq q fv fd) 0 = [0, 1, 2]"
  "FPSCHED_PRIV (fp_demo n irq q fv fd) 0 = \<lparr>strategy = n,
     config = strategy_conf n \<lparr>compare = Runq_rm_compare, prio_handler = Rm_prio_handler\<rparr>,
     last_time_temp = 0\<rparr>"
  by (simp_all add: FPSCHED_DOM_def fp_pools_def domains_in_cpupool_def FPSCHED_PRIV_def
      fp_demo_def demo_vcpu_def demo_domain_def del: strategy_conf.simps)

lemma fp_demo_write:
  "v < 3 \<Longrightarrow> upd_fpv v h (fp_demo n irq q fv fd) = fp_demo n irq q (fv(v := h (fv v))) fd"
  "d < 3 \<Longrightarrow> upd_fpd d g (fp_demo n irq q fv fd) = fp_demo n irq q fv (fd(d := g (fd d)))"
  "set_runq 0 q' (fp_demo n irq q fv fd) = fp_demo n irq q' fv fd"
  "cpu_raise_softirq c nr (fp_demo n irq q fv fd) = fp_demo n (insert (c, nr) irq) q fv fd"
  "m < 3 \<Longrightarrow> snd (fp_sched_set 0 \<lparr>fs_strategy = m, fs_load = l\<rparr> (fp_demo n irq q fv fd)) = fp_demo m irq q fv fd"
  by (auto simp: upd_fpv_def upd_fpd_def set_runq_def cpu_raise_softirq_def upd_defs fun_eq_iff
      fp_sched_set_def fp_demo_def demo_vcpu_def demo_domain_def FPSCHED_PRIV_def)

lemma fp_demo_inv:
  assumes "n \<le> 2" and "distinct q" and "\<forall>v\<in>set q. v < 3"
    and "\<forall>v<3. queue_elem (fv v) = (if v \<in> set q then Some 0 else None)"
    and "\<forall>v<3. fv_priority (fv v) = fd_priority (fd v)" and "fd_priority (fd 0) = 1000"
  shows "fp_inv 0 (fp_demo n irq q fv fd)"
proof -
  let ?s = "fp_demo n irq q fv fd"
  have priv: "v_priv (vcpus ?s v) \<noteq> None \<longleftrightarrow> v < 3" for v
    by (simp add: fp_demo_def demo_vcpu_def)
  have dom: "v < 3 \<Longrightarrow> v_domain (vcpus ?s v) = v" "d < 3 \<Longrightarrow> FPSCHED_DOM ?s d = fd d" for v d
    by (simp_all add: fp_demo_def demo_vcpu_def FPSCHED_DOM_def demo_domain_def)
  have ids: "domain_id (domains ?s d) = 0 \<longleftrightarrow> d = 0" "d_priv (domains ?s d) \<noteq> None \<longleftrightarrow> d < 3"
    "dom_vcpus (domains ?s d) = (if d < 3 then [d] else [])" for d
    by (simp_all add: fp_demo_def demo_domain_def DOMID_IDLE_def)
  have pc: "processor (vcpus ?s v) = 0" "sd_priv (percpu ?s 0) \<noteq> None" for v
    by (simp_all add: fp_demo_def demo_vcpu_def)
  have "fp_wf ?s"
    unfolding fp_wf_def priv pc using assms(2-4) pc(2) by (auto simp: fp_demo_fpv split: if_splits)
  moreover have "fp_linked ?s"
    unfolding fp_linked_def priv ids fp_demo_idle by (auto simp: dom)
  moreover have "fp_coherent ?s"
    unfolding fp_coherent_def priv fp_demo_idle using assms(5) by (simp add: fp_demo_fpv dom)
  moreover have "fp_dom0 ?s"
    unfolding fp_dom0_def ids using assms(6) by (simp add: dom VM_DOM0_PRIO_def)
  moreover have "conf_ok (FPSCHED_PRIV ?s 0)"
    using assms(1) by (simp add: conf_ok_def FPSCHED_PRIV_def fp_demo_def del: strategy_conf.simps)
      (simp add: strategy_conf_idem del: strategy_conf.simps)
  ultimately show ?thesis
    by (simp add: fp_inv_def) (simp add: fp_demo_def)
qed

lemma demo_fv_inv:
  "n \<le> 2 \<Longrightarrow> distinct q \<Longrightarrow> \<forall>v\<in>set q. v < 3 \<Longrightarrow> fp_inv 0 (fp_demo n irq q (demo_fv (set q)) demo_fd)"
  by (rule fp_demo_inv) (simp_all add: demo_fv_def demo_fd_def)

lemma fp_demo_sorted:
  "sorted_wrt (\<lambda>x y. call_compare (compare (strategy_conf n \<lparr>compare = Runq_rm_compare,
      prio_handler = Rm_prio_handler\<rparr>)) (fv x) (fv y)) q \<Longrightarrow> \<forall>v\<in>set q. v < 3 \<Longrightarrow>
    fp_sorted 0 (fp_demo n irq q fv fd)"
  unfolding fp_sorted_def runq_sorted_def fp_cmp_def FPSCHED_PRIV_def
  by (auto simp: fp_demo_def FPSCHED_VCPU_def demo_vcpu_def RUNQ_def simp del: strategy_conf.simps
      elim!: sorted_wrt_mono_rel [rotated])

section \<open>The order of the run queues\<close>

text \<open>
  C1. Whatever sequence of hooks (insert, remove, sleep, wake), scheduling decisions and
  changes outside the scheduler runs between two changes of the strategy or the parameters,
  the scheduler's invariant holds and every run queue stays in the order of the strategy.
\<close>

theorem fp_run_keeps_order:
  assumes "fp_steps ops s s'" and "fp_inv ops s" and "fp_sorted ops s"
  shows "fp_inv ops s' \<and> fp_sorted ops s'"
  using assms by (rule fp_steps_keep)

text \<open>Domain 1's vcpu is queued; domain 2's vcpu wakes, and the CPU schedules.\<close>

definition demo_run :: fp_xen where
  "demo_run = fp_demo 0 {} [1] (demo_fv {1}) demo_fd"

lemma demo_run_ok: "fp_inv 0 demo_run" "fp_sorted 0 demo_run"
  using demo_fv_inv [of 0 "[1]"] by (simp_all add: demo_run_def fp_demo_sorted)

theorem fp_run_keeps_order_witness:
  "fp_inv 0 (fp_vcpu_wake 0 2 demo_run) \<and> fp_sorted 0 (fp_vcpu_wake 0 2 demo_run)"
proof (rule fp_run_keeps_order [OF _ demo_run_ok])
  have "v_priv (vcpus demo_run 2) \<noteq> None"
    by (simp add: demo_run_def demo_defs)
  then show "fp_steps 0 demo_run (fp_vcpu_wake 0 2 demo_run)"
    by (intro fp_steps.more [OF fp_steps.none] fp_step.wake)
qed

section \<open>The scheduling decision\<close>

text \<open>The state after the accounting at the head of \<^verbatim>\<open>fp_do_schedule\<close>, before the choice.\<close>

definition accounted :: "fp_xen \<Rightarrow> nat \<Rightarrow> int \<Rightarrow> fp_xen" where
  "accounted s cpu now =
     (let cur = current s cpu;
          s1 = (if \<not> is_idle_vcpu s cur
                then upd_fpv cur (\<lambda>f. f\<lparr>cputime := s64 (cputime f + s64 (now - last_time_scheduled f))\<rparr>) s
                else s)
      in update_queue now (RUNQ s cpu) s1)"

lemma accounted_bookkeeping: "fp_bookkeeping s (accounted s cpu now)"
proof -
  let ?s1 = "if \<not> is_idle_vcpu s (current s cpu)
     then upd_fpv (current s cpu) (\<lambda>f. f\<lparr>cputime := s64 (cputime f + s64 (now - last_time_scheduled f))\<rparr>) s
     else s"
  have "fp_bookkeeping s ?s1"
    by (auto intro: fp_bookkeeping_upd_fpv)
  then show ?thesis
    unfolding accounted_def Let_def using fp_bookkeeping_update_queue by (rule fp_bookkeeping_trans)
qed

lemma accounted_same:
  "RUNQ (accounted s cpu now) c = RUNQ s c" "idle_vcpu (accounted s cpu now) = idle_vcpu s"
  "v_priv (vcpus (accounted s cpu now) v) = None \<longleftrightarrow> v_priv (vcpus s v) = None"
  using accounted_bookkeeping [of s cpu now]
  by (auto simp: fp_bookkeeping_def same_queues_def fp_frame_def)

lemma fp_do_schedule_cases:
  assumes "fp_do_schedule cpu now tasklet s = (ts, s')"
  obtains (pick) v where "find (fp_eligible (accounted s cpu now)) (RUNQ s cpu) = Some v"
      "s' = upd_fpv v (\<lambda>f. f\<lparr>last_time_scheduled := now\<rparr>) (accounted s cpu now)"
      "ts_task ts = (if tasklet then idle_vcpu s cpu else v)" "ts_time ts = MICROSECS 100"
  | (idle) "find (fp_eligible (accounted s cpu now)) (RUNQ s cpu) = None"
      "s' = accounted s cpu now" "ts_task ts = idle_vcpu s cpu" "ts_time ts = MICROSECS 100"
proof -
  let ?s1 = "if \<not> is_idle_vcpu s (current s cpu)
     then upd_fpv (current s cpu) (\<lambda>f. f\<lparr>cputime := s64 (cputime f + s64 (now - last_time_scheduled f))\<rparr>) s
     else s"
  have acc: "update_queue now (RUNQ ?s1 cpu) ?s1 = accounted s cpu now"
    by (simp add: accounted_def)
  have idle_upd: "idle_vcpu (upd_fpv v h t) = idle_vcpu t" for v h t
    by (simp add: upd_fpv_def)
  show thesis
    using assms unfolding fp_do_schedule_def Let_def acc accounted_same
    by (auto simp: accounted_same idle_upd split: option.splits intro: pick idle)
qed

lemma fp_eligible_last_time:
  "fp_eligible (upd_fpv v (\<lambda>f. f\<lparr>last_time_scheduled := now\<rparr>) s) = fp_eligible s"
proof -
  have "vcpu_runnable (upd_fpv v (\<lambda>f. f\<lparr>last_time_scheduled := now\<rparr>) s) w = vcpu_runnable s w" for w
    by (simp add: vcpu_runnable_def upd_fpv_def)
  then show ?thesis
    by (intro ext) (simp add: fp_eligible_def fpv_upd_fpv)
qed

lemma fp_do_schedule_choice:
  assumes "fp_do_schedule cpu now False s = (ts, s')"
  shows "ts_task ts = (case find (fp_eligible s') (RUNQ s cpu) of Some v \<Rightarrow> v | None \<Rightarrow> idle_vcpu s cpu)"
  using assms by (cases rule: fp_do_schedule_cases) (simp_all add: fp_eligible_last_time)

text \<open>The first vcpu of a sorted queue with a property precedes every other one with it.\<close>

lemma fp_choice_best:
  assumes "fp_sorted ops s" and "pcpu_sched s cpu = ops"
  shows "let v = (case find P (RUNQ s cpu) of Some v \<Rightarrow> v | None \<Rightarrow> i) in
    if \<exists>w\<in>set (RUNQ s cpu). P w
    then v \<in> set (RUNQ s cpu) \<and> P v
      \<and> (\<forall>w\<in>set (RUNQ s cpu). P w \<longrightarrow>
           call_compare (fp_cmp ops s) (FPSCHED_VCPU s v) (FPSCHED_VCPU s w))
    else v = i"
proof (cases "find P (RUNQ s cpu)")
  case None
  then show ?thesis
    using None [unfolded find_None_iff] by simp
next
  case (Some v)
  then obtain as bs where q: "RUNQ s cpu = as @ v # bs" and v: "P v" and as: "\<forall>u\<in>set as. \<not> P u"
    using find_split by metis
  have "sorted_wrt (\<lambda>x y. call_compare (fp_cmp ops s) (FPSCHED_VCPU s x) (FPSCHED_VCPU s y)) (as @ v # bs)"
    using assms q by (auto simp: fp_sorted_def runq_sorted_def)
  then have "\<forall>w\<in>set (as @ v # bs). P w \<longrightarrow> call_compare (fp_cmp ops s) (FPSCHED_VCPU s v) (FPSCHED_VCPU s w)"
    using as by (auto simp: sorted_wrt_append call_compare_key)
  with v Some show ?thesis
    by (auto simp: q)
qed

text \<open>
  C2. On a CPU of this scheduler, when no tasklet work is pending, a scheduling decision
  runs a vcpu of the run queue that is runnable and has budget left, and no other such vcpu
  of the queue precedes it under the strategy (shorter period, shorter deadline, higher
  priority); when no vcpu of the queue is runnable with budget left it runs the idle vcpu.
\<close>

theorem fp_do_schedule_optimal:
  assumes "fp_do_schedule cpu now False s = (ts, s')"
    and "fp_sorted ops s" and "pcpu_sched s cpu = ops"
  shows "if \<exists>v\<in>set (RUNQ s cpu). fp_eligible s' v
    then ts_task ts \<in> set (RUNQ s cpu) \<and> fp_eligible s' (ts_task ts)
      \<and> (\<forall>w\<in>set (RUNQ s cpu). fp_eligible s' w \<longrightarrow>
           call_compare (fp_cmp ops s) (FPSCHED_VCPU s (ts_task ts)) (FPSCHED_VCPU s w))
    else ts_task ts = idle_vcpu s cpu"
  unfolding fp_do_schedule_choice [OF assms(1)]
  using fp_choice_best [OF assms(2,3), where P = "fp_eligible s'" and i = "idle_vcpu s cpu"] by (simp only: Let_def)

definition demo_two :: fp_xen where
  "demo_two = fp_demo 0 {} [1, 2] (demo_fv {1, 2}) demo_fd"

lemma demo_two_sorted: "fp_sorted 0 demo_two"
  by (simp add: demo_two_def fp_demo_sorted runq_rm_compare_def demo_fv_def)

theorem fp_do_schedule_optimal_witness:
  "fp_sorted 0 demo_two \<and> pcpu_sched demo_two 0 = 0
   \<and> (let (ts, s') = fp_do_schedule 0 2000 False demo_two
      in if \<exists>v\<in>set (RUNQ demo_two 0). fp_eligible s' v
         then ts_task ts \<in> set (RUNQ demo_two 0) \<and> fp_eligible s' (ts_task ts)
           \<and> (\<forall>w\<in>set (RUNQ demo_two 0). fp_eligible s' w \<longrightarrow>
                call_compare (fp_cmp 0 demo_two) (FPSCHED_VCPU demo_two (ts_task ts)) (FPSCHED_VCPU demo_two w))
         else ts_task ts = idle_vcpu demo_two 0)"
proof -
  have ops: "pcpu_sched demo_two 0 = 0" by (simp add: demo_two_def fp_demo_def)
  obtain ts s' where eq: "fp_do_schedule 0 2000 False demo_two = (ts, s')" by fastforce
  from fp_do_schedule_optimal [OF eq demo_two_sorted ops] show ?thesis
    unfolding eq by (simp only: ops demo_two_sorted prod.case Let_def simp_thms)
qed

section \<open>The time budget\<close>

lemma fpv_update_queue:
  assumes "distinct q"
  shows "FPSCHED_VCPU (update_queue now q s) w =
    (let f = FPSCHED_VCPU s w in
     if w \<in> set q \<and> v_priv (vcpus s w) \<noteq> None \<and> now > period_next f
     then f\<lparr>iterations := u64 (iterations f + 1), cputime := 0, period_next := s64 (now + fv_period f)\<rparr>
     else f)"
  using assms
proof (induction q arbitrary: s)
  case Nil
  then show ?case by (simp add: update_queue_def)
next
  case (Cons v q)
  let ?r = "\<lambda>f. f\<lparr>iterations := u64 (iterations f + 1), cputime := 0,
                        period_next := s64 (now + fv_period f)\<rparr>"
  define t where "t = (if now > period_next (FPSCHED_VCPU s v) then upd_fpv v ?r s else s)"
  have upd: "update_queue now (v # q) s = update_queue now q t"
    by (simp add: update_queue_def t_def)
  have priv: "v_priv (vcpus t w) = None \<longleftrightarrow> v_priv (vcpus s w) = None"
    by (simp add: t_def upd_fpv_def)
  have fpv: "FPSCHED_VCPU t w =
    (if w = v \<and> v_priv (vcpus s v) \<noteq> None \<and> now > period_next (FPSCHED_VCPU s v)
     then ?r (FPSCHED_VCPU s w) else FPSCHED_VCPU s w)"
    by (simp add: t_def fpv_upd_fpv)
  show ?case
  proof (cases "w = v")
    case True
    with Cons.IH [of t] Cons.prems priv fpv show ?thesis unfolding upd Let_def by simp
  next
    case False
    then have same: "FPSCHED_VCPU t w = FPSCHED_VCPU s w" using fpv by simp
    show ?thesis
      using Cons.IH [of t] Cons.prems False unfolding upd same priv by simp
  qed
qed

text \<open>The processor time of a vcpu at a decision on \<open>cpu\<close>, before a new period resets it.\<close>

definition charged :: "fp_xen \<Rightarrow> nat \<Rightarrow> int \<Rightarrow> nat \<Rightarrow> int" where
  "charged s cpu now w =
     (let f = FPSCHED_VCPU s w in
      if w = current s cpu \<and> \<not> is_idle_vcpu s w then s64 (cputime f + s64 (now - last_time_scheduled f))
      else cputime f)"

definition renewed :: "fp_xen \<Rightarrow> nat \<Rightarrow> int \<Rightarrow> nat \<Rightarrow> bool" where
  "renewed s cpu now w \<longleftrightarrow> w \<in> set (RUNQ s cpu) \<and> now > period_next (FPSCHED_VCPU s w)"

lemma fpv_accounted:
  assumes "fp_inv ops s" and "v_priv (vcpus s w) \<noteq> None"
  shows "cputime (FPSCHED_VCPU (accounted s cpu now) w) =
      (if renewed s cpu now w then 0 else charged s cpu now w)"
    "period_next (FPSCHED_VCPU (accounted s cpu now) w) =
      (if renewed s cpu now w then s64 (now + fv_period (FPSCHED_VCPU s w))
       else period_next (FPSCHED_VCPU s w))"
    "fv_slice (FPSCHED_VCPU (accounted s cpu now) w) = fv_slice (FPSCHED_VCPU s w)"
proof -
  define s1 where "s1 = (if \<not> is_idle_vcpu s (current s cpu)
     then upd_fpv (current s cpu) (\<lambda>f. f\<lparr>cputime := s64 (cputime f + s64 (now - last_time_scheduled f))\<rparr>) s
     else s)"
  have acc: "accounted s cpu now = update_queue now (RUNQ s cpu) s1"
    by (simp add: accounted_def s1_def)
  have "distinct (RUNQ s cpu)"
    using assms(1) by (simp add: fp_inv_def fp_wf_def)
  note upd = fpv_update_queue [OF this, of now s1 w, folded acc]
  have f: "FPSCHED_VCPU s1 w = (FPSCHED_VCPU s w)\<lparr>cputime := charged s cpu now w\<rparr>"
    using assms(2) by (auto simp: s1_def fpv_upd_fpv charged_def Let_def)
  have p: "v_priv (vcpus s1 w) \<noteq> None"
    using assms(2) by (auto simp: s1_def upd_fpv_def)
  show "cputime (FPSCHED_VCPU (accounted s cpu now) w) =
      (if renewed s cpu now w then 0 else charged s cpu now w)"
    "period_next (FPSCHED_VCPU (accounted s cpu now) w) =
      (if renewed s cpu now w then s64 (now + fv_period (FPSCHED_VCPU s w))
       else period_next (FPSCHED_VCPU s w))"
    "fv_slice (FPSCHED_VCPU (accounted s cpu now) w) = fv_slice (FPSCHED_VCPU s w)"
    unfolding upd f Let_def renewed_def using p by simp_all
qed

lemma fp_do_schedule_fields:
  assumes "fp_do_schedule cpu now tasklet s = (ts, s')"
  shows "cputime (FPSCHED_VCPU s' w) = cputime (FPSCHED_VCPU (accounted s cpu now) w)"
    "period_next (FPSCHED_VCPU s' w) = period_next (FPSCHED_VCPU (accounted s cpu now) w)"
    "fv_slice (FPSCHED_VCPU s' w) = fv_slice (FPSCHED_VCPU (accounted s cpu now) w)"
  using assms by (cases rule: fp_do_schedule_cases; simp add: fpv_upd_fpv)+

text \<open>
  C25. A decision charges the time since it was last scheduled to the vcpu that was running,
  and to no other; a queued vcpu whose period is over starts a new one: its processor time
  is reset and its next period begins one period from now. Slices do not change.
\<close>

theorem fp_do_schedule_accounting:
  assumes "fp_do_schedule cpu now tasklet s = (ts, s')"
    and "fp_inv ops s" and "v_priv (vcpus s w) \<noteq> None"
  shows "let f = FPSCHED_VCPU s w; f' = FPSCHED_VCPU s' w;
             renew = (w \<in> set (RUNQ s cpu) \<and> now > period_next f)
    in cputime f' =
        (if renew then 0
         else if w = current s cpu \<and> \<not> is_idle_vcpu s w then s64 (cputime f + s64 (now - last_time_scheduled f))
         else cputime f)
     \<and> period_next f' = (if renew then s64 (now + fv_period f) else period_next f)
     \<and> fv_slice f' = fv_slice f"
  unfolding fp_do_schedule_fields [OF assms(1)] fpv_accounted [OF assms(2,3)] Let_def charged_def renewed_def
  by (intro conjI refl)

theorem fp_do_schedule_accounting_witness:
  "fp_inv 0 demo_run \<and> v_priv (vcpus demo_run 1) \<noteq> None
   \<and> (let s' = snd (fp_do_schedule 0 600000 False demo_run) in
      cputime (FPSCHED_VCPU s' 1) = 0 \<and> period_next (FPSCHED_VCPU s' 1) = 1100000)"
proof -
  obtain ts s' where eq: "fp_do_schedule 0 600000 False demo_run = (ts, s')" by fastforce
  have p: "v_priv (vcpus demo_run 1) \<noteq> None" by (simp add: demo_run_def demo_defs)
  from fp_do_schedule_accounting [OF eq demo_run_ok(1) p] show ?thesis
    using p demo_run_ok(1) unfolding eq
    by (simp add: Let_def demo_run_def fp_demo_fpv) (simp add: demo_fv_def s64_id)
qed

lemma fp_do_schedule_picked:
  assumes "fp_do_schedule cpu now False s = (ts, s')" and "fp_inv ops s"
    and "ts_task ts \<noteq> idle_vcpu s cpu"
  shows "ts_task ts \<in> set (RUNQ s cpu)" and "fp_eligible s' (ts_task ts)"
    and "last_time_scheduled (FPSCHED_VCPU s' (ts_task ts)) = now"
proof -
  obtain v where v: "find (fp_eligible (accounted s cpu now)) (RUNQ s cpu) = Some v" "ts_task ts = v"
    and s': "s' = upd_fpv v (\<lambda>f. f\<lparr>last_time_scheduled := now\<rparr>) (accounted s cpu now)"
    using assms(1,3) by (cases rule: fp_do_schedule_cases) auto
  then show in_q: "ts_task ts \<in> set (RUNQ s cpu)" and "fp_eligible s' (ts_task ts)"
    using find_split [OF v(1)] by (auto simp: fp_eligible_last_time)
  have "v_priv (vcpus s v) \<noteq> None"
    using in_q v assms(2) by (auto simp: fp_inv_def fp_wf_def)
  then show "last_time_scheduled (FPSCHED_VCPU s' (ts_task ts)) = now"
    by (simp add: s' v fpv_upd_fpv accounted_same)
qed



section \<open>Changing the strategy and the parameters\<close>

text \<open>
  The global adjustment (a new strategy, a query, or a rejected command alike) keeps the
  scheduler's invariant and leaves every run queue that holds no vcpu of domain 0, and only
  vcpus of domains of a pool of this scheduler, in the order of the strategy then in force,
  whatever order it had before.
\<close>

theorem fp_adjust_global_sorts:
  assumes "fp_adjust_global ops cmd arg junk s = (rc, out, s')"
    and "fp_inv ops s" and "fp_doms_ready s"
  shows "fp_inv ops s' \<and> (\<forall>cpu. fp_covered s' cpu \<longrightarrow> runq_sorted (fp_cmp ops s') s' cpu)"
  using fp_adjust_global_reorders [OF assms] by blast

lemma fp_demo_ready: "fp_doms_ready (fp_demo n irq q fv fd)"
  by (auto simp: fp_doms_ready_def fp_pools_def domains_in_cpupool_def fp_dom_ready_def
      is_idle_domain_def demo_defs)

lemma fp_demo_covered:
  assumes "fp_frame (fp_demo n irq q fv fd) s'" and "\<forall>v\<in>set (RUNQ s' c). v = 1 \<or> v = 2"
  shows "fp_covered s' c"
  unfolding fp_covered_def fp_frame_preds [OF assms(1)] fp_frameD [OF assms(1)]
  using assms(2) by (auto simp: fp_pools_def domains_in_cpupool_def demo_defs)

text \<open>
  From rate-monotonic to fixed-priority with domain 2 above domain 1: vcpu 1 was first, and
  vcpu 2 is first afterwards.
\<close>

definition demo_swap :: fp_xen where
  "demo_swap = fp_demo 0 {} [1, 2] (\<lambda>v. (demo_fv {1, 2} v)\<lparr>fv_priority := (if v = 0 then 1000 else int v)\<rparr>)
     (\<lambda>d. (demo_fd d)\<lparr>fd_priority := (if d = 0 then 1000 else int d)\<rparr>)"

lemma demo_swap_inv: "fp_inv 0 demo_swap"
  unfolding demo_swap_def by (rule fp_demo_inv) (auto simp: demo_fv_def demo_fd_def)

lemmas fp_adjust_eval =
  fp_adjust_global_def fp_sched_set_vm_prio_def fp_reinsertsort_vcpu_def
  runq_insert_def remove_from_queue_def list_del_init_elem_def vcpu_on_q_def
  fp_prio_handler_def rm_prio_handler_def set_vcpu_prios_def
  runq_fp_compare_def runq_rm_compare_def VM_DOM0_PRIO_def VM_IDLE_PRIO_def
  fp_demo_read fp_demo_write fp_demo_fpv Let_def split_beta

lemma demo_swap_queue:
  "RUNQ (snd (snd (fp_adjust_global 0 Sysctl_putinfo \<lparr>fs_strategy = 2, fs_load = 0\<rparr> junk demo_swap))) 0 = [2, 1]"
  by (simp add: fp_adjust_eval demo_swap_def demo_fv_def demo_fd_def)

lemma fp_adjust_global_frame:
  assumes "fp_adjust_global ops cmd arg junk s = (rc, out, s')" "fp_inv ops s" "fp_doms_ready s"
  shows "fp_frame s s'"
proof -
  obtain t where t: "fp_inv ops t" "fp_frame s t"
    and s': "s' = fold (\<lambda>c s. fold (\<lambda>d s. fp_sched_set_vm_prio ops d (fd_priority (FPSCHED_DOM s d)) s)
            (domains_in_cpupool s c) s) (fp_pools t) t"
    by (rule fp_adjust_global_split [OF assms(1,2)])
  have "fp_reorder_ok ops {} (\<Union>c\<in>set (fp_pools t). \<Union>d\<in>{d \<in> set (domains_in_cpupool t c). \<not> False}. reinserted t d) t s'"
    unfolding s' using t assms(3)
    by (intro fp_reorder_pools)
      (auto simp: fp_doms_ready_def frame_dom_ready [OF t(2)] fp_frame_preds [OF t(2)])
  with t show ?thesis by (auto simp: fp_reorder_ok_def intro: fp_frame_trans)
qed

theorem fp_adjust_global_sorts_witness:
  "let (rc, out, s') = fp_adjust_global 0 Sysctl_putinfo \<lparr>fs_strategy = 2, fs_load = 0\<rparr>
         \<lparr>fs_strategy = 0, fs_load = 0\<rparr> demo_swap
   in RUNQ s' 0 = [2, 1] \<and> fp_inv 0 s' \<and> runq_sorted (fp_cmp 0 s') s' 0"
proof -
  obtain rc out s' where eq: "fp_adjust_global 0 Sysctl_putinfo \<lparr>fs_strategy = 2, fs_load = 0\<rparr>
         \<lparr>fs_strategy = 0, fs_load = 0\<rparr> demo_swap = (rc, out, s')" by (metis prod.exhaust)
  have ready: "fp_doms_ready demo_swap" by (simp add: demo_swap_def fp_demo_ready)
  have q: "RUNQ s' 0 = [2, 1]" using demo_swap_queue eq by (metis snd_conv)
  have "fp_covered s' 0"
    using fp_adjust_global_frame [OF eq demo_swap_inv ready] q
    by (intro fp_demo_covered) (auto simp: demo_swap_def)
  with fp_adjust_global_sorts [OF eq demo_swap_inv ready] q show ?thesis
    unfolding eq by simp
qed

definition demo_dom0 :: fp_xen where
  "demo_dom0 = fp_demo 0 {} [1, 2, 0] (demo_fv {0, 1, 2}) demo_fd"


text \<open>
  Changing the parameters of a domain of one of the scheduler's pools re-sorts the
  queues in the same way: the invariant holds and every queue without a vcpu of domain 0 is
  in the order of the strategy, with the new parameters of the domain in force.
\<close>

theorem fp_adjust_sorts:
  assumes "fp_adjust ops d cmd op s = (op', s')" and "cmd \<noteq> Domctl_getinfo"
    and "fp_inv ops s" and "fp_doms_ready s"
    and "c \<in> set (fp_pools s)" and "d_cpupool (domains s d) = Some c" and "fp_dom_ready s d"
    and "\<forall>e. domain_id (domains s e) = domain_id (domains s d) \<longrightarrow> e = d"
  shows "fp_inv ops s' \<and> (\<forall>cpu. fp_covered s' cpu \<longrightarrow> runq_sorted (fp_cmp ops s') s' cpu)"
  using fp_adjust_reorders [OF assms(1,3,4,5,6,7) _ assms(2)] assms(8) by blast

text \<open>Domain 2 gets a period of 300 microseconds, shorter than domain 1's.\<close>

definition demo_op :: xen_domctl_sched_fp where
  "demo_op = \<lparr>op_slice = 0, op_period = 300, op_deadline = 0, op_priority = 0\<rparr>"

lemma demo_adjust_eval:
  "\<exists>irq fv fd. fp_adjust 0 2 Domctl_putinfo demo_op demo_two = (demo_op, fp_demo 0 irq [2, 1] fv fd)"
  by (simp add: fp_adjust_def fp_set_period_def fp_adjust_eval demo_op_def demo_two_def demo_fv_def
      demo_fd_def RM_def s64_id) metis

theorem fp_adjust_sorts_witness:
  "let (op', s') = fp_adjust 0 2 Domctl_putinfo demo_op demo_two
   in RUNQ s' 0 = [2, 1] \<and> fp_inv 0 s' \<and> runq_sorted (fp_cmp 0 s') s' 0"
proof -
  obtain irq fv fd where
    eq: "fp_adjust 0 2 Domctl_putinfo demo_op demo_two = (demo_op, fp_demo 0 irq [2, 1] fv fd)"
    using demo_adjust_eval by blast
  have inv: "fp_inv 0 demo_two" and ready: "fp_doms_ready demo_two"
    using demo_fv_inv [of 0 "[1, 2]"] fp_demo_ready by (simp_all add: demo_two_def)
  have "0 \<in> set (fp_pools demo_two)" "d_cpupool (domains demo_two 2) = Some 0" "fp_dom_ready demo_two 2"
    "\<forall>e. domain_id (domains demo_two e) = domain_id (domains demo_two 2) \<longrightarrow> e = 2"
    by (auto simp: demo_two_def fp_dom_ready_def fp_demo_def fp_pools_def demo_domain_def demo_vcpu_def
        DOMID_IDLE_def)
  from fp_adjust_sorts [OF eq _ inv ready this]
  have "fp_inv 0 (fp_demo 0 irq [2, 1] fv fd)"
    "fp_covered (fp_demo 0 irq [2, 1] fv fd) 0 \<longrightarrow>
      runq_sorted (fp_cmp 0 (fp_demo 0 irq [2, 1] fv fd)) (fp_demo 0 irq [2, 1] fv fd) 0"
    by auto
  moreover have "fp_covered (fp_demo 0 irq [2, 1] fv fd) 0"
    by (rule fp_demo_covered [OF fp_frame_refl]) simp
  ultimately show ?thesis
    unfolding eq by simp
qed



section \<open>Placement\<close>

text \<open>
  C33. When the pool of the vcpu's domain has a CPU in the vcpu's hard affinity, the CPU
  picked for it is such a CPU; and the vcpu stays on its CPU if that one qualifies.
\<close>

theorem fp_pick_cpu_valid:
  assumes "c \<in> cpupool_domain_cpumask s (v_domain (vcpus s v)) \<inter> cpu_hard_affinity (vcpus s v)"
    and "c < nr_cpu_ids s"
  shows "fp_pick_cpu v s \<in> cpupool_domain_cpumask s (v_domain (vcpus s v)) \<inter> cpu_hard_affinity (vcpus s v)
    \<and> (processor (vcpus s v) \<in> cpupool_domain_cpumask s (v_domain (vcpus s v)) \<inter> cpu_hard_affinity (vcpus s v)
        \<longrightarrow> fp_pick_cpu v s = processor (vcpus s v))"
  using cpumask_cycle_in [OF assms] by (simp add: fp_pick_cpu_def Let_def)

theorem fp_pick_cpu_valid_witness:
  "fp_pick_cpu 1 demo_two \<in> cpupool_domain_cpumask demo_two 1 \<inter> {0} \<and> fp_pick_cpu 1 demo_two = 0"
  using fp_pick_cpu_valid [of 0 demo_two 1]
  by (simp add: demo_two_def demo_defs cpupool_domain_cpumask_def)

section \<open>Faults\<close>

lemma fault_stores [simp]:
  "fault (upd_fpv v h s) = fault s" "fault (upd_fpd d g s) = fault s" "fault (set_runq c q s) = fault s"
  by (simp_all add: upd_fpv_def upd_fpd_def set_runq_def)

lemma fault_fold_upd [simp]: "fault (fold (\<lambda>v. upd_fpv v h) vs s) = fault s"
  by (induction vs arbitrary: s) simp_all

lemma fault_renumber [simp]: "fault (renumber q i s) = fault s"
  by (induction q i s rule: renumber.induct) simp_all

lemma fault_queue_ops [simp]:
  "fault (list_del_init_elem v s) = fault s" "fault (runq_insert cpu v c s) = fault s"
  by (simp_all add: list_del_init_elem_def runq_insert_def Let_def split: option.splits)

lemma fault_call_prio_handler:
  "dom_vcpus (domains s d) \<noteq> [] \<Longrightarrow> fault (call_prio_handler h d p s) = fault s"
  by (cases h) (simp_all add: fp_prio_handler_def dm_prio_handler_eq rm_prio_handler_def
      set_vcpu_prios_def Let_def)

lemma fault_accounted: "fault (accounted s cpu now) = fault s"
proof -
  have "fault (update_queue now q t) = fault t" for q t
    by (induction q arbitrary: t) (simp_all add: update_queue_def)
  then show ?thesis by (simp add: accounted_def Let_def)
qed

lemma fault_do_schedule:
  assumes "fp_do_schedule cpu now tasklet s = (ts, s')"
  shows "fault s' = fault s"
  using assms by (cases rule: fp_do_schedule_cases) (simp_all add: fault_accounted)

lemma fault_fp_wake:
  assumes "fp_inv ops s" and "v_priv (vcpus s v) \<noteq> None" and "\<not> is_idle_vcpu s v"
  shows "fault (fp_vcpu_wake ops v s) = fault s" and "fault (fp_insert_vcpu ops v s) = fault s"
proof -
  let ?s1 = "runq_insert (processor (vcpus s v)) v (compare (config (FPSCHED_PRIV s ops))) s"
  note fr = fp_frame_runq_insert [of s "processor (vcpus s v)" v "compare (config (FPSCHED_PRIV s ops))"]
  have "v \<in> set (dom_vcpus (domains s (v_domain (vcpus s v))))"
    using assms unfolding fp_inv_def fp_linked_def by blast
  then have "dom_vcpus (domains s (v_domain (vcpus s v))) \<noteq> []" by force
  then have "dom_vcpus (domains ?s1 (v_domain (vcpus ?s1 v))) \<noteq> []"
    by (simp only: fp_frameD [OF fr] simp_thms)
  then show "fault (fp_vcpu_wake ops v s) = fault s" "fault (fp_insert_vcpu ops v s) = fault s"
    using assms(3) by (simp_all add: fp_vcpu_wake_def fp_insert_vcpu_def Let_def fault_call_prio_handler)
qed

lemma fault_fp_sleep:
  "\<not> is_idle_vcpu s v \<Longrightarrow> fault (fp_sleep v s) = fault s" "\<not> is_idle_vcpu s v \<Longrightarrow> fault (fp_vcpu_remove v s) = fault s"
  by (simp_all add: fp_sleep_def fp_vcpu_remove_def runq_remove_def remove_from_queue_eq Let_def)



text \<open>
  When the memory for a domain's data cannot be allocated, \<open>fp_init_domain\<close> does not
  return -ENOMEM: it tests the wrong pointer and writes through the null one. With memory it
  succeeds and installs the standard parameters, with the fixed ones for domain 0.
\<close>

theorem fp_init_domain_oom:
  assumes "\<not> is_idle_domain s d" and "fault s = None"
  shows "fault (snd (fp_init_domain False d s)) = Some Null_deref
    \<and> fp_init_domain True d s = (OK, upd_dom d (\<lambda>x. x\<lparr>d_priv := Some
        (if domain_id (domains s d) = 0
         then \<lparr>fd_priority = VM_DOM0_PRIO, fd_period = VM_DOM0_PERIOD, fd_slice = VM_DOM0_SLICE,
               fd_deadline = VM_DOM0_PERIOD\<rparr>
         else \<lparr>fd_priority = 0, fd_period = VM_STANDARD_PERIOD, fd_slice = VM_STANDARD_SLICE,
               fd_deadline = VM_STANDARD_PERIOD\<rparr>)\<rparr>) s)"
  using assms by (simp add: fp_init_domain_def fp_alloc_domdata_def panic_def)

theorem fp_init_domain_oom_witness:
  "fault (snd (fp_init_domain False 1 demo_run)) = Some Null_deref"
  using fp_init_domain_oom [of demo_run 1] by (simp add: demo_run_def) (simp add: fp_demo_def)

end
