(* ===== verification/Rangeset.thy ===== *)
theory Rangeset
  imports Xen_Prelude
begin

text \<open>
  Sets of numbers as ordered lists of inclusive ranges, common/rangeset.c, and the I/O
  capabilities built on them, include/xen/iocap.h. The bounds are 64-bit unsigned numbers,
  with the wrap-around of \<^verbatim>\<open>x->e + 1\<close> and \<^verbatim>\<open>s - 1\<close> written out. A pointer to a range is its
  position in the list; removing a range moves the later ones up. A result \<open>None\<close> stands
  for a failed assertion or a null dereference. Locks and pretty-printing are left out.
\<close>

section \<open>Data\<close>

definition wrap64 :: "nat \<Rightarrow> nat" where
  "wrap64 n = n mod 2 ^ 64"

record range =
  r_s :: nat
  r_e :: nat

record rangeset =
  range_list :: "range list"
  nr_ranges :: int
  rs_domain :: "nat option"

section \<open>Private range functions\<close>

text \<open>The loop of \<^verbatim>\<open>find_range\<close>: \<open>i\<close> is the position of the head, \<open>x\<close> the last match.\<close>

fun find_range_from :: "range list \<Rightarrow> nat \<Rightarrow> nat \<Rightarrow> nat option \<Rightarrow> nat option" where
  "find_range_from [] s i x = x"
| "find_range_from (y # ys) s i x = (if r_s y > s then x else find_range_from ys s (Suc i) (Some i))"

definition find_range :: "rangeset \<Rightarrow> nat \<Rightarrow> nat option" where
  "find_range r s = find_range_from (range_list r) s 0 None"

definition first_range :: "rangeset \<Rightarrow> nat option" where
  "first_range r = (if range_list r = [] then None else Some 0)"

definition next_range :: "rangeset \<Rightarrow> nat \<Rightarrow> nat option" where
  "next_range r x = (if Suc x = length (range_list r) then None else Some (Suc x))"

definition get_range :: "rangeset \<Rightarrow> nat \<Rightarrow> range" where
  "get_range r x = range_list r ! x"

definition upd_range :: "nat \<Rightarrow> (range \<Rightarrow> range) \<Rightarrow> rangeset \<Rightarrow> rangeset" where
  "upd_range x f r = r\<lparr>range_list := (range_list r)[x := f (range_list r ! x)]\<rparr>"

text \<open>The new range goes behind \<open>x\<close>, or in front; its position is returned with it.\<close>

definition insert_range :: "nat option \<Rightarrow> range \<Rightarrow> rangeset \<Rightarrow> nat \<times> rangeset" where
  "insert_range x y r =
     (let i = (case x of None \<Rightarrow> 0 | Some i \<Rightarrow> Suc i)
      in (i, r\<lparr>range_list := take i (range_list r) @ y # drop i (range_list r)\<rparr>))"

definition destroy_range :: "nat \<Rightarrow> rangeset \<Rightarrow> rangeset" where
  "destroy_range x r =
     r\<lparr>range_list := take x (range_list r) @ drop (Suc x) (range_list r),
       nr_ranges := s64 (nr_ranges r + 1)\<rparr>"

text \<open>\<open>mem\<close> says whether xmalloc succeeds. Only the counter changes: the node is not linked yet.\<close>

definition alloc_range :: "bool \<Rightarrow> rangeset \<Rightarrow> rangeset option" where
  "alloc_range mem r =
     (if nr_ranges r = 0 then None
      else if mem then Some (r\<lparr>nr_ranges := s64 (nr_ranges r - 1)\<rparr>) else None)"

lemma length_destroy_range [simp]:
  "x < length (range_list r) \<Longrightarrow> length (range_list (destroy_range x r)) = length (range_list r) - 1"
  by (simp add: destroy_range_def)

section \<open>Adding a range\<close>

text \<open>The condition under which \<open>[s, e]\<close> does not touch the range \<open>x\<close> in front of it.\<close>

definition apart :: "rangeset \<Rightarrow> nat option \<Rightarrow> nat \<Rightarrow> bool" where
  "apart r x s \<longleftrightarrow>
     (case x of None \<Rightarrow> True
      | Some i \<Rightarrow> r_e (get_range r i) < s \<and> wrap64 (r_e (get_range r i) + 1) \<noteq> s)"

text \<open>The loop that removes the ranges behind \<open>x\<close> that end inside it.\<close>

function absorb :: "nat \<Rightarrow> rangeset \<Rightarrow> rangeset" where
  "absorb x r =
     (case next_range r x of
        None \<Rightarrow> r
      | Some y \<Rightarrow>
          if x \<ge> length (range_list r) \<or> r_e (get_range r y) > r_e (get_range r x) then r
          else absorb x (destroy_range y r))"
  by pat_completeness auto
termination
  by (relation "measure (\<lambda>(x, r). length (range_list r))")
    (auto simp: next_range_def split: if_splits)

declare absorb.simps [simp del]

text \<open>The last step: a range that begins right behind \<open>x\<close> is joined to it.\<close>

definition merge_next :: "nat \<Rightarrow> rangeset \<Rightarrow> rangeset" where
  "merge_next x r =
     (case next_range r x of
        None \<Rightarrow> r
      | Some y \<Rightarrow>
          if wrap64 (r_e (get_range r x) + 1) = r_s (get_range r y)
          then destroy_range y (upd_range x (\<lambda>z. z\<lparr>r_e := r_e (get_range r y)\<rparr>) r)
          else r)"

definition rangeset_add_range :: "bool \<Rightarrow> nat \<Rightarrow> nat \<Rightarrow> rangeset \<Rightarrow> (rc \<times> rangeset) option" where
  "rangeset_add_range mem s e r =
     (if s > e then None
      else
        let x = find_range r s; y = find_range r e
        in if x = y then
             if apart r x s then
               case alloc_range mem r of
                 None \<Rightarrow> Some (Inl ENOMEM, r)
               | Some r1 \<Rightarrow>
                   let (i, r2) = insert_range y \<lparr>r_s = s, r_e = e\<rparr> r1
                   in Some (OK, merge_next i r2)
             else
               case x of
                 None \<Rightarrow> None
               | Some i \<Rightarrow>
                   Some (OK, merge_next i
                     (if r_e (get_range r i) < e then upd_range i (\<lambda>z. z\<lparr>r_e := e\<rparr>) r else r))
           else
             let x1 = (case x of
                         None \<Rightarrow> first_range r
                       | Some i \<Rightarrow> if apart r x s then next_range r i else Some i)
             in case (x1, y) of
                  (Some i, Some j) \<Rightarrow>
                    let r1 = (if apart r x s then upd_range i (\<lambda>z. z\<lparr>r_s := s\<rparr>) r else r);
                        ye = r_e (get_range r1 j);
                        r2 = upd_range i (\<lambda>z. z\<lparr>r_e := (if ye > e then ye else e)\<rparr>) r1
                    in Some (OK, merge_next i (absorb i r2))
                | _ \<Rightarrow> None)"

section \<open>Removing a range\<close>

text \<open>The loop that removes the ranges from \<open>x\<close> up to, but not including, \<open>y\<close>.\<close>

function remove_until :: "nat \<Rightarrow> nat \<Rightarrow> rangeset \<Rightarrow> rangeset" where
  "remove_until x y r = (if x < y then remove_until x (y - 1) (destroy_range x r) else r)"
  by pat_completeness auto
termination by (relation "measure (\<lambda>(x, y, r). y - x)") auto

declare remove_until.simps [simp del]

definition rangeset_remove_range :: "bool \<Rightarrow> nat \<Rightarrow> nat \<Rightarrow> rangeset \<Rightarrow> (rc \<times> rangeset) option" where
  "rangeset_remove_range mem s e r =
     (if s > e then None
      else
        let x = find_range r s; y = find_range r e
        in if x = y then
             case x of
               None \<Rightarrow> Some (OK, r)
             | Some i \<Rightarrow>
                 let xs = r_s (get_range r i); xe = r_e (get_range r i)
                 in if xe < s then Some (OK, r)
                    else if xs < s \<and> xe > e then
                      case alloc_range mem r of
                        None \<Rightarrow> Some (Inl ENOMEM, r)
                      | Some r1 \<Rightarrow>
                          let r2 = upd_range i (\<lambda>z. z\<lparr>r_e := wrap64 (s + 2 ^ 64 - 1)\<rparr>) r1
                          in Some (OK, snd (insert_range (Some i) \<lparr>r_s = wrap64 (e + 1), r_e = xe\<rparr> r2))
                    else if xs = s \<and> xe \<le> e then Some (OK, destroy_range i r)
                    else if xs = s then Some (OK, upd_range i (\<lambda>z. z\<lparr>r_s := wrap64 (e + 1)\<rparr>) r)
                    else if xe \<le> e then
                      Some (OK, upd_range i (\<lambda>z. z\<lparr>r_e := wrap64 (s + 2 ^ 64 - 1)\<rparr>) r)
                    else Some (OK, r)
           else
             case (case x of None \<Rightarrow> first_range r | Some i \<Rightarrow> Some i, y) of
               (Some i, Some j) \<Rightarrow>
                 let (x1, r1) =
                       (if r_s (get_range r i) < s
                        then (next_range r i, upd_range i (\<lambda>z. z\<lparr>r_e := wrap64 (s + 2 ^ 64 - 1)\<rparr>) r)
                        else (Some i, r))
                 in (case x1 of
                       None \<Rightarrow> None
                     | Some k \<Rightarrow>
                         let r2 = upd_range k (\<lambda>z. z\<lparr>r_s := wrap64 (e + 1)\<rparr>) (remove_until k j r1)
                         in Some (OK, if r_s (get_range r2 k) > r_e (get_range r2 k)
                                      then destroy_range k r2 else r2))
             | _ \<Rightarrow> None)"

section \<open>Queries\<close>

definition rangeset_contains_range :: "nat \<Rightarrow> nat \<Rightarrow> rangeset \<Rightarrow> bool option" where
  "rangeset_contains_range s e r =
     (if s > e then None
      else case find_range r s of
             None \<Rightarrow> Some False
           | Some x \<Rightarrow> Some (r_e (get_range r x) \<ge> e))"

definition rangeset_overlaps_range :: "nat \<Rightarrow> nat \<Rightarrow> rangeset \<Rightarrow> bool option" where
  "rangeset_overlaps_range s e r =
     (if s > e then None
      else case find_range r e of
             None \<Rightarrow> Some False
           | Some x \<Rightarrow> Some (s \<le> r_e (get_range r x)))"

text \<open>The callback returns a code and the new context; a code other than 0 ends the loop.\<close>

fun report_ranges :: "range list \<Rightarrow> nat \<Rightarrow> nat \<Rightarrow> (nat \<Rightarrow> nat \<Rightarrow> 'c \<Rightarrow> int \<times> 'c) \<Rightarrow> 'c \<Rightarrow> int \<times> 'c" where
  "report_ranges [] s e cb ctxt = (0, ctxt)"
| "report_ranges (x # xs) s e cb ctxt =
     (if r_s x > e then (0, ctxt)
      else if r_e x \<ge> s then
        let (rc, ctxt') = cb (max (r_s x) s) (min (r_e x) e) ctxt
        in if rc \<noteq> 0 then (rc, ctxt') else report_ranges xs s e cb ctxt'
      else report_ranges xs s e cb ctxt)"

definition rangeset_report_ranges ::
  "nat \<Rightarrow> nat \<Rightarrow> (nat \<Rightarrow> nat \<Rightarrow> 'c \<Rightarrow> int \<times> 'c) \<Rightarrow> rangeset \<Rightarrow> 'c \<Rightarrow> int \<times> 'c" where
  "rangeset_report_ranges s e cb r ctxt = report_ranges (range_list r) s e cb ctxt"

definition rangeset_add_singleton :: "bool \<Rightarrow> nat \<Rightarrow> rangeset \<Rightarrow> (rc \<times> rangeset) option" where
  "rangeset_add_singleton mem s r = rangeset_add_range mem s s r"

definition rangeset_remove_singleton :: "bool \<Rightarrow> nat \<Rightarrow> rangeset \<Rightarrow> (rc \<times> rangeset) option" where
  "rangeset_remove_singleton mem s r = rangeset_remove_range mem s s r"

definition rangeset_contains_singleton :: "nat \<Rightarrow> rangeset \<Rightarrow> bool option" where
  "rangeset_contains_singleton s r = rangeset_contains_range s s r"

text \<open>A null pointer is the empty set here.\<close>

definition rangeset_is_empty :: "rangeset option \<Rightarrow> bool" where
  "rangeset_is_empty r = (case r of None \<Rightarrow> True | Some r \<Rightarrow> range_list r = [])"

section \<open>Life cycle\<close>

text \<open>The rangesets by address, and the list \<^verbatim>\<open>d->rangesets\<close> of each domain.\<close>

record rs_store =
  rs_at :: "nat \<Rightarrow> rangeset option"
  dom_rangesets :: "nat \<Rightarrow> nat list"

text \<open>\<open>p\<close> is the address xmalloc returns; the flag word is a parameter of the printing only.\<close>

definition rangeset_new :: "nat option \<Rightarrow> nat option \<Rightarrow> rs_store \<Rightarrow> nat option \<times> rs_store" where
  "rangeset_new p d st =
     (case p of
        None \<Rightarrow> (None, st)
      | Some a \<Rightarrow>
          (Some a,
           st\<lparr>rs_at := (rs_at st)(a \<mapsto> \<lparr>range_list = [], nr_ranges = -1, rs_domain = d\<rparr>),
              dom_rangesets := (case d of None \<Rightarrow> dom_rangesets st
                                | Some d' \<Rightarrow> (dom_rangesets st)(d' := a # dom_rangesets st d'))\<rparr>))"

text \<open>Destroying the ranges one by one and freeing the set leaves nothing at the address.\<close>

definition rangeset_destroy :: "nat option \<Rightarrow> rs_store \<Rightarrow> rs_store" where
  "rangeset_destroy p st =
     (case p of
        None \<Rightarrow> st
      | Some a \<Rightarrow>
          st\<lparr>rs_at := (rs_at st)(a := None),
             dom_rangesets :=
               (case Option.bind (rs_at st a) rs_domain of
                  None \<Rightarrow> dom_rangesets st
                | Some d \<Rightarrow> (dom_rangesets st)(d := remove1 a (dom_rangesets st d)))\<rparr>)"

definition rangeset_limit :: "nat \<Rightarrow> rangeset \<Rightarrow> rangeset" where
  "rangeset_limit limit r = r\<lparr>nr_ranges := int (limit mod 2 ^ 32)\<rparr>"

definition rangeset_domain_initialise :: "nat \<Rightarrow> rs_store \<Rightarrow> rs_store" where
  "rangeset_domain_initialise d st = st\<lparr>dom_rangesets := (dom_rangesets st)(d := [])\<rparr>"

text \<open>
  The loop takes the first set off the list, detaches it from the domain and destroys it;
  \<open>None\<close> is the BUG_ON for a set that belongs to another domain.
\<close>

fun domain_destroy_loop :: "nat \<Rightarrow> nat list \<Rightarrow> rs_store \<Rightarrow> rs_store option" where
  "domain_destroy_loop d [] st = Some (st\<lparr>dom_rangesets := (dom_rangesets st)(d := [])\<rparr>)"
| "domain_destroy_loop d (a # as) st =
     (if Option.bind (rs_at st a) rs_domain \<noteq> Some d then None
      else
        let st1 = st\<lparr>rs_at := (rs_at st)(a := map_option (\<lambda>r. r\<lparr>rs_domain := None\<rparr>) (rs_at st a)),
                     dom_rangesets := (dom_rangesets st)(d := as)\<rparr>
        in domain_destroy_loop d as (rangeset_destroy (Some a) st1))"

definition rangeset_domain_destroy :: "nat \<Rightarrow> rs_store \<Rightarrow> rs_store option" where
  "rangeset_domain_destroy d st = domain_destroy_loop d (dom_rangesets st d) st"

text \<open>The lists are exchanged; the counters \<open>nr_ranges\<close> stay where they are.\<close>

definition rangeset_swap :: "nat \<Rightarrow> nat \<Rightarrow> rs_store \<Rightarrow> rs_store" where
  "rangeset_swap a b st =
     (case (rs_at st a, rs_at st b) of
        (Some ra, Some rb) \<Rightarrow>
          let tmp = range_list ra;
              m1 = (rs_at st)(a \<mapsto> ra\<lparr>range_list := range_list rb\<rparr>)
          in st\<lparr>rs_at := m1(b := map_option (\<lambda>r. r\<lparr>range_list := tmp\<rparr>) (m1 b))\<rparr>
      | _ \<Rightarrow> st)"

section \<open>I/O capabilities\<close>

text \<open>The two capability sets of a domain.\<close>

record io_caps =
  iomem_caps :: rangeset
  irq_caps :: rangeset

definition iomem_permit_access :: "bool \<Rightarrow> nat \<Rightarrow> nat \<Rightarrow> io_caps \<Rightarrow> (rc \<times> io_caps) option" where
  "iomem_permit_access mem s e d =
     map_option (\<lambda>(rc, r). (rc, d\<lparr>iomem_caps := r\<rparr>)) (rangeset_add_range mem s e (iomem_caps d))"

definition iomem_deny_access :: "bool \<Rightarrow> nat \<Rightarrow> nat \<Rightarrow> io_caps \<Rightarrow> (rc \<times> io_caps) option" where
  "iomem_deny_access mem s e d =
     map_option (\<lambda>(rc, r). (rc, d\<lparr>iomem_caps := r\<rparr>)) (rangeset_remove_range mem s e (iomem_caps d))"

definition iomem_access_permitted :: "nat \<Rightarrow> nat \<Rightarrow> io_caps \<Rightarrow> bool option" where
  "iomem_access_permitted s e d = rangeset_contains_range s e (iomem_caps d)"

definition irq_permit_access :: "bool \<Rightarrow> nat \<Rightarrow> io_caps \<Rightarrow> (rc \<times> io_caps) option" where
  "irq_permit_access mem i d =
     map_option (\<lambda>(rc, r). (rc, d\<lparr>irq_caps := r\<rparr>)) (rangeset_add_singleton mem i (irq_caps d))"

definition irq_deny_access :: "bool \<Rightarrow> nat \<Rightarrow> io_caps \<Rightarrow> (rc \<times> io_caps) option" where
  "irq_deny_access mem i d =
     map_option (\<lambda>(rc, r). (rc, d\<lparr>irq_caps := r\<rparr>)) (rangeset_remove_singleton mem i (irq_caps d))"

definition irq_access_permitted :: "nat \<Rightarrow> io_caps \<Rightarrow> bool option" where
  "irq_access_permitted i d = rangeset_contains_singleton i (irq_caps d)"

end
