(* ===== verification/Rangeset_Inv.thy ===== *)
theory Rangeset_Inv
  imports Rangeset
begin

text \<open>
  The invariant of a rangeset (an ordered list with gaps between the ranges), the set of
  numbers it stands for, and what adding and removing a range do to both. The list is cut at
  the two bounds of the operation: \<open>A\<close> begins at or before \<open>s\<close>, \<open>M\<close> begins inside, \<open>C\<close> behind.
\<close>

section \<open>Invariant and abstraction\<close>

definition ranges_ok :: "range list \<Rightarrow> bool" where
  "ranges_ok L \<longleftrightarrow> sorted_wrt (\<lambda>x y. r_e x + 1 < r_s y) L \<and> (\<forall>x\<in>set L. r_s x \<le> r_e x \<and> r_e x < 2 ^ 64)"

definition ranges_set :: "range list \<Rightarrow> nat set" where
  "ranges_set L = (\<Union>x\<in>set L. {r_s x..r_e x})"

definition rs_ok :: "rangeset \<Rightarrow> bool" where
  "rs_ok r \<longleftrightarrow> ranges_ok (range_list r)"

definition rs_set :: "rangeset \<Rightarrow> nat set" where
  "rs_set r = ranges_set (range_list r)"

text \<open>The ranges in use and those that may still be allocated.\<close>

definition rs_budget :: "rangeset \<Rightarrow> int" where
  "rs_budget r = s64 (nr_ranges r + int (length (range_list r)))"

lemma ranges_set_simps [simp]:
  "ranges_set [] = {}"
  "ranges_set (x # L) = {r_s x..r_e x} \<union> ranges_set L"
  "ranges_set (L @ K) = ranges_set L \<union> ranges_set K"
  by (auto simp: ranges_set_def)

lemma ranges_ok_Nil [simp]: "ranges_ok []"
  by (simp add: ranges_ok_def)

lemma ranges_ok_Cons [simp]:
  "ranges_ok (x # L) \<longleftrightarrow> (\<forall>y\<in>set L. r_e x + 1 < r_s y) \<and> r_s x \<le> r_e x \<and> r_e x < 2 ^ 64 \<and> ranges_ok L"
  by (auto simp: ranges_ok_def)

lemma ranges_ok_append [simp]:
  "ranges_ok (L @ K) \<longleftrightarrow> ranges_ok L \<and> ranges_ok K \<and> (\<forall>x\<in>set L. \<forall>y\<in>set K. r_e x + 1 < r_s y)"
  by (auto simp: ranges_ok_def sorted_wrt_append)

lemma ranges_ok_bounds: "ranges_ok L \<Longrightarrow> x \<in> set L \<Longrightarrow> r_s x \<le> r_e x \<and> r_e x < 2 ^ 64"
  by (auto simp: ranges_ok_def)

lemma s64_s64_add [simp]: "s64 (s64 a + b) = s64 (a + b)" "s64 (a + s64 b) = s64 (a + b)"
  by (simp_all add: s64_def algebra_simps mod_simps)

lemma wrap64_less: "n < 2 ^ 64 \<Longrightarrow> wrap64 n = n"
  by (simp add: wrap64_def)

lemma wrap64_pred: "0 < s \<Longrightarrow> s < 2 ^ 64 \<Longrightarrow> wrap64 (s + 2 ^ 64 - 1) = s - 1"
proof -
  assume s: "0 < s" "s < 2 ^ 64"
  then have "s + 2 ^ 64 - 1 = (s - 1) + 2 ^ 64" by linarith
  then have "wrap64 (s + 2 ^ 64 - 1) = (s - 1) mod 2 ^ 64"
    unfolding wrap64_def by (simp only: mod_add_self2)
  with s show ?thesis by simp
qed

section \<open>The search\<close>

lemma find_range_from_eq:
  "find_range_from L s i x =
    (let k = length (takeWhile (\<lambda>y. r_s y \<le> s) L) in if k = 0 then x else Some (i + k - 1))"
  by (induction L s i x rule: find_range_from.induct) (auto simp: Let_def)

definition last_pos :: "'a list \<Rightarrow> nat option" where
  "last_pos A = (if A = [] then None else Some (length A - 1))"

lemma find_range_split:
  assumes "range_list r = A @ B" and "\<forall>a\<in>set A. r_s a \<le> s" and "\<forall>b\<in>set B. s < r_s b"
  shows "find_range r s = last_pos A"
proof -
  have "takeWhile (\<lambda>y. r_s y \<le> s) (A @ B) = A"
  proof (cases B)
    case Nil
    with assms(2) show ?thesis by (simp add: takeWhile_eq_all_conv)
  next
    case (Cons b B')
    with assms show ?thesis by (simp add: takeWhile_append2)
  qed
  then show ?thesis
    by (simp add: find_range_def find_range_from_eq assms(1) last_pos_def Let_def)
qed

text \<open>Cutting an ordered list at the two bounds of a query.\<close>

lemma cut_at:
  assumes "ranges_ok L"
  obtains A B where "L = A @ B" "\<forall>a\<in>set A. r_s a \<le> s" "\<forall>b\<in>set B. s < r_s b"
proof -
  let ?A = "takeWhile (\<lambda>y. r_s y \<le> s) L" and ?B = "dropWhile (\<lambda>y. r_s y \<le> s) L"
  have "\<forall>b\<in>set ?B. s < r_s b"
  proof (cases ?B)
    case (Cons b B')
    then have "\<not> r_s b \<le> s" by (metis dropWhile_eq_Cons_conv)
    moreover have "ranges_ok (?A @ ?B)"
      using assms by (simp only: takeWhile_dropWhile_id)
    then have "ranges_ok (b # B')"
      unfolding Cons ranges_ok_append by simp
    ultimately show ?thesis using Cons by fastforce
  next
    case Nil
    show ?thesis unfolding Nil by simp
  qed
  moreover have "\<forall>a\<in>set ?A. r_s a \<le> s" by (auto dest: set_takeWhileD)
  ultimately show thesis using that [of ?A ?B] by simp
qed

lemma cut_twice:
  assumes ok: "rs_ok r" and "s \<le> e"
  obtains A M C where "range_list r = A @ M @ C"
    "\<forall>a\<in>set A. r_s a \<le> s" "\<forall>m\<in>set M. s < r_s m \<and> r_s m \<le> e" "\<forall>c\<in>set C. e < r_s c"
    "find_range r s = last_pos A" "find_range r e = last_pos (A @ M)"
proof -
  obtain A B where AB: "range_list r = A @ B" "\<forall>a\<in>set A. r_s a \<le> s" "\<forall>b\<in>set B. s < r_s b"
    using cut_at ok unfolding rs_ok_def by metis
  then have "ranges_ok B" using ok by (simp add: rs_ok_def)
  then obtain M C where MC: "B = M @ C" "\<forall>m\<in>set M. r_s m \<le> e" "\<forall>c\<in>set C. e < r_s c"
    using cut_at by metis
  have "find_range r s = last_pos A" by (rule find_range_split [OF AB])
  moreover have "find_range r e = last_pos (A @ M)"
    using AB MC assms(2) by (intro find_range_split [of _ _ C]) auto
  ultimately show thesis using that AB MC by simp
qed

lemma last_pos_append_eq: "last_pos A = last_pos (A @ M) \<longleftrightarrow> M = []"
  by (cases A; cases M) (auto simp: last_pos_def)

section \<open>The steps on a split list\<close>

lemma get_range_at: "range_list r = A @ x # B \<Longrightarrow> get_range r (length A) = x"
  by (simp add: get_range_def)

lemma upd_range_at:
  "range_list r = A @ x # B \<Longrightarrow> range_list (upd_range (length A) f r) = A @ f x # B"
  "nr_ranges (upd_range i f r) = nr_ranges r"
  by (simp_all add: upd_range_def)

lemma next_range_at:
  "range_list r = A @ x # B \<Longrightarrow> next_range r (length A) = (if B = [] then None else Some (Suc (length A)))"
  by (auto simp: next_range_def)

lemma destroy_range_at:
  "range_list r = A @ x # B \<Longrightarrow> range_list (destroy_range (length A) r) = A @ B"
  "nr_ranges (destroy_range i r) = s64 (nr_ranges r + 1)"
  by (simp_all add: destroy_range_def)

lemma rs_budget_destroy: "i < length (range_list r) \<Longrightarrow> rs_budget (destroy_range i r) = rs_budget r"
proof -
  assume "i < length (range_list r)"
  then have "int (length (range_list (destroy_range i r))) = int (length (range_list r)) - 1"
    by simp
  then show ?thesis
    by (simp add: rs_budget_def destroy_range_at(2))
qed

lemma rs_budget_upd [simp]: "rs_budget (upd_range i f r) = rs_budget r"
  by (simp add: rs_budget_def upd_range_def)

lemma merge_next_ok:
  assumes L: "range_list r = A @ x # B" and ok: "ranges_ok A" "ranges_ok B"
    and bef: "\<forall>a\<in>set A. r_e a + 1 < r_s x" and x: "r_s x \<le> r_e x" "r_e x < 2 ^ 64"
    and aft: "\<forall>b\<in>set B. r_e x < r_s b"
  shows "rs_ok (merge_next (length A) r)"
    and "rs_set (merge_next (length A) r) = ranges_set A \<union> {r_s x..r_e x} \<union> ranges_set B"
    and "rs_budget (merge_next (length A) r) = rs_budget r"
proof -
  let ?r = "merge_next (length A) r"
  have "rs_ok ?r \<and> rs_set ?r = ranges_set A \<union> {r_s x..r_e x} \<union> ranges_set B \<and> rs_budget ?r = rs_budget r"
  proof (cases B)
    case Nil
    with L ok bef x show ?thesis
      by (simp add: merge_next_def next_range_at rs_ok_def rs_set_def)
  next
    case (Cons y B')
    have y: "get_range r (Suc (length A)) = y" using get_range_at [of r "A @ [x]" y B'] L Cons by simp
    have yb: "r_e x < r_s y" "r_s y \<le> r_e y" "r_e y < 2 ^ 64" using ok aft Cons by simp_all
    then have wrap: "wrap64 (r_e x + 1) = r_e x + 1" by (simp add: wrap64_less)
    show ?thesis
    proof (cases "r_e x + 1 = r_s y")
      case True
      let ?u = "upd_range (length A) (\<lambda>z. z\<lparr>r_e := r_e y\<rparr>) r"
      have u: "range_list ?u = (A @ [x\<lparr>r_e := r_e y\<rparr>]) @ y # B'"
        using L Cons by (simp add: upd_range_at)
      have m: "?r = destroy_range (length (A @ [x\<lparr>r_e := r_e y\<rparr>])) ?u"
        using L Cons True wrap y by (simp add: merge_next_def next_range_at get_range_at)
      have lst: "range_list ?r = A @ x\<lparr>r_e := r_e y\<rparr> # B'"
        unfolding m using destroy_range_at(1) [OF u] by simp
      have "{r_s x..r_e y} = {r_s x..r_e x} \<union> {r_s y..r_e y}"
        using True x yb by auto
      moreover have "rs_budget ?r = rs_budget r"
        unfolding m using u by (subst rs_budget_destroy) simp_all
      moreover have "r_e a + 1 < r_s b" if "a \<in> set A" "b \<in> set B'" for a b
        using that bef x yb ok Cons by fastforce
      ultimately show ?thesis
        using ok bef x yb Cons by (auto simp: rs_ok_def rs_set_def lst)
    next
      case False
      with L Cons wrap y have m: "?r = r" by (simp add: merge_next_def next_range_at get_range_at)
      have "r_e x + 1 < r_s b" if "b \<in> set B" for b
        using that False ok yb Cons by fastforce
      moreover have "r_e a + 1 < r_s b" if "a \<in> set A" "b \<in> set B" for a b
        using that bef x calculation by fastforce
      ultimately show ?thesis
        unfolding m using L ok bef x by (auto simp: rs_ok_def rs_set_def)
    qed
  qed
  then show "rs_ok ?r" "rs_set ?r = ranges_set A \<union> {r_s x..r_e x} \<union> ranges_set B"
    "rs_budget ?r = rs_budget r" by blast+
qed

lemma absorb_ok:
  assumes "range_list r = A @ x # M @ C" and "\<forall>m\<in>set M. r_e m \<le> r_e x" and "\<forall>c\<in>set C. r_e x < r_e c"
  shows "range_list (absorb (length A) r) = A @ x # C \<and> rs_budget (absorb (length A) r) = rs_budget r"
  using assms
proof (induction M arbitrary: r)
  case Nil
  show ?case
  proof (cases C)
    case Nil
    with \<open>range_list r = A @ x # [] @ C\<close> show ?thesis
      by (subst (1 2) absorb.simps) (simp add: next_range_at)
  next
    case (Cons c C')
    with Nil.prems have "get_range r (Suc (length A)) = c"
      using get_range_at [of r "A @ [x]" c C'] by simp
    with Nil.prems Cons show ?thesis
      by (subst (1 2) absorb.simps) (simp add: next_range_at get_range_at)
  qed
next
  case (Cons m M)
  have m: "get_range r (Suc (length A)) = m"
    using get_range_at [of r "A @ [x]" m] Cons.prems(1) by simp
  let ?r = "destroy_range (Suc (length A)) r"
  have d: "range_list ?r = A @ x # M @ C"
    using destroy_range_at(1) [of r "A @ [x]" m "M @ C"] Cons.prems(1) by simp
  have "absorb (length A) r = absorb (length A) ?r"
    using Cons.prems m by (subst absorb.simps) (simp add: next_range_at get_range_at)
  moreover have "rs_budget ?r = rs_budget r"
    using Cons.prems(1) by (intro rs_budget_destroy) simp
  ultimately show ?case
    using Cons.IH [OF d] Cons.prems by simp
qed

section \<open>Adding\<close>

lemma apart_last:
  assumes "rs_ok r" and "range_list r = A @ M @ C" and "s < 2 ^ 64"
  shows "apart r (last_pos A) s \<longleftrightarrow> (\<forall>a\<in>set A. r_e a + 1 < s)"
proof (cases A rule: rev_cases)
  case Nil
  then show ?thesis by (simp add: apart_def last_pos_def)
next
  case (snoc A' z)
  have z: "get_range r (length A') = z"
    using assms(2) snoc by (simp add: get_range_def)
  have ok: "ranges_ok A" using assms by (simp add: rs_ok_def)
  have bz: "r_s z \<le> r_e z" "r_e z < 2 ^ 64" and lt: "\<forall>a\<in>set A'. r_e a + 1 < r_s z"
    using ok snoc by auto
  have "r_e z < s \<and> wrap64 (r_e z + 1) \<noteq> s \<longleftrightarrow> r_e z + 1 < s"
  proof (cases "r_e z < s")
    case True
    then have "wrap64 (r_e z + 1) = r_e z + 1" using assms(3) by (intro wrap64_less) linarith
    with True show ?thesis by linarith
  qed simp
  then show ?thesis
    using lt bz z snoc by (auto simp: apart_def last_pos_def)
qed

text \<open>What an addition does to the set, with the reasons for which it fails.\<close>

definition added :: "bool \<Rightarrow> nat \<Rightarrow> nat \<Rightarrow> rangeset \<Rightarrow> rc \<Rightarrow> rangeset \<Rightarrow> bool" where
  "added mem s e r rc r' \<longleftrightarrow>
     rc = OK \<and> rs_ok r' \<and> rs_set r' = rs_set r \<union> {s..e} \<and> rs_budget r' = rs_budget r
     \<or> rc = Inl ENOMEM \<and> r' = r \<and> (nr_ranges r = 0 \<or> \<not> mem) \<and> \<not> {s..e} \<subseteq> rs_set r"

lemma add_new_range:
  assumes ok: "rs_ok r" and L: "range_list r = A @ C"
    and A: "\<forall>a\<in>set A. r_e a + 1 < s" and C: "\<forall>c\<in>set C. e < r_s c" and se: "s \<le> e" "e < 2 ^ 64"
    and al: "alloc_range mem r = Some r1"
    and ins: "insert_range (last_pos A) \<lparr>r_s = s, r_e = e\<rparr> r1 = (i, r2)"
  shows "added mem s e r OK (merge_next i r2)"
proof -
  have r1: "range_list r1 = A @ C" "nr_ranges r1 = s64 (nr_ranges r - 1)"
    using al L by (auto simp: alloc_range_def split: if_splits)
  have pos: "(case last_pos A of None \<Rightarrow> 0 | Some i \<Rightarrow> Suc i) = length A"
    by (cases "A = []") (simp_all add: last_pos_def)
  have i: "i = length A" and r2: "range_list r2 = A @ \<lparr>r_s = s, r_e = e\<rparr> # C" "nr_ranges r2 = nr_ranges r1"
    using ins r1 pos by (auto simp: insert_range_def Let_def)
  have "rs_budget r2 = rs_budget r"
    using r1 r2 L by (simp add: rs_budget_def)
  moreover have "rs_ok (merge_next (length A) r2)"
    "rs_set (merge_next (length A) r2) = ranges_set A \<union> {s..e} \<union> ranges_set C"
    "rs_budget (merge_next (length A) r2) = rs_budget r2"
    using merge_next_ok [OF r2(1)] ok L A C se by (simp_all add: rs_ok_def)
  ultimately show ?thesis
    using L i by (auto simp: added_def rs_set_def)
qed

lemma add_extend:
  assumes ok: "rs_ok r" and L: "range_list r = A @ z # C"
    and z: "r_s z \<le> s" "s \<le> r_e z + 1" and C: "\<forall>c\<in>set C. e < r_s c" and se: "s \<le> e" "e < 2 ^ 64"
    and t: "t = (if r_e (get_range r (length A)) < e then upd_range (length A) (\<lambda>z. z\<lparr>r_e := e\<rparr>) r else r)"
  shows "added mem s e r OK (merge_next (length A) t)"
proof -
  define z' where "z' = z\<lparr>r_e := max (r_e z) e\<rparr>"
  have L': "range_list t = A @ z' # C"
    using upd_range_at(1) [OF L] L unfolding t get_range_at [OF L] z'_def by (simp add: max_def)
  have okL: "ranges_ok (A @ z # C)" using ok L by (simp add: rs_ok_def)
  then have okA: "ranges_ok A" "ranges_ok C" by simp_all
  have "r_s z \<le> r_e z" "r_e z < 2 ^ 64" "\<forall>c\<in>set C. r_e z < r_s c" using okL by auto
  then have b: "\<forall>a\<in>set A. r_e a + 1 < r_s z'" "r_s z' \<le> r_e z'" "r_e z' < 2 ^ 64" "\<forall>c\<in>set C. r_e z' < r_s c"
    using okL se C by (auto simp: z'_def)
  have "{r_s z'..r_e z'} = {r_s z..r_e z} \<union> {s..e}" using z se by (auto simp: z'_def)
  moreover have "rs_budget t = rs_budget r" by (simp add: t)
  ultimately show ?thesis
    using merge_next_ok [OF L' okA b] by (auto simp: added_def rs_set_def L)
qed

lemma last_covers:
  assumes "ranges_ok (M @ [n])" and "m \<in> set M"
  shows "r_e m < r_s n \<and> r_e m \<le> r_e n"
  using assms by fastforce

text \<open>The numbers from \<open>s\<close> to the end of the last range touched.\<close>

lemma span_eq:
  assumes "ranges_ok (M @ [n])" and "\<forall>m\<in>set (M @ [n]). s < r_s m \<and> r_s m \<le> e" and "s \<le> e"
  shows "{s..max (r_e n) e} = {s..e} \<union> ranges_set (M @ [n])"
proof (intro set_eqI iffI)
  fix w assume w: "w \<in> {s..max (r_e n) e}"
  show "w \<in> {s..e} \<union> ranges_set (M @ [n])"
    using w assms(2) by (cases "w \<le> e") auto
next
  fix w assume "w \<in> {s..e} \<union> ranges_set (M @ [n])"
  then consider "w \<in> {s..e}" | m where "m \<in> set (M @ [n])" "w \<in> {r_s m..r_e m}"
    by (auto simp: ranges_set_def)
  then show "w \<in> {s..max (r_e n) e}"
  proof cases
    case 2
    then have "r_e m \<le> r_e n" using last_covers [OF assms(1)] by auto
    with 2 assms(2) show ?thesis by fastforce
  qed auto
qed

lemma add_span:
  assumes ok: "ranges_ok A" "ranges_ok C" and x: "r_s x \<le> s"
    and L: "range_list r = A @ x # M @ C"
    and A: "\<forall>a\<in>set A. r_e a + 1 < r_s x" and M: "\<forall>m\<in>set M. r_e m \<le> r_e x"
    and C: "\<forall>c\<in>set C. r_e x < r_s c" and e: "s \<le> r_e x" "r_e x < 2 ^ 64"
  shows "rs_ok (merge_next (length A) (absorb (length A) r))
    \<and> rs_set (merge_next (length A) (absorb (length A) r)) = ranges_set A \<union> {r_s x..r_e x} \<union> ranges_set C
    \<and> rs_budget (merge_next (length A) (absorb (length A) r)) = rs_budget r"
proof -
  have "\<forall>c\<in>set C. r_e x < r_e c" using C ok(2) ranges_ok_bounds by fastforce
  from absorb_ok [OF L M this]
  have a: "range_list (absorb (length A) r) = A @ x # C" "rs_budget (absorb (length A) r) = rs_budget r"
    by simp_all
  have "r_s x \<le> r_e x" using x e by simp
  from merge_next_ok [OF a(1) ok A this e(2) C] a(2) show ?thesis by simp
qed

lemma get_range_last:
  assumes "range_list r = A @ M @ C" and "M \<noteq> []"
  shows "get_range r (length (A @ M) - 1) = last M"
  using assms by (cases M rule: rev_cases) (simp_all add: get_range_def nth_append)

lemma add_same:
  assumes ok: "rs_ok r" and se: "s \<le> e" "e < 2 ^ 64" and L: "range_list r = A @ C"
    and A: "\<forall>a\<in>set A. r_s a \<le> s" and C: "\<forall>c\<in>set C. e < r_s c"
    and f: "find_range r s = last_pos A" "find_range r e = last_pos A"
  shows "\<exists>rc r'. rangeset_add_range mem s e r = Some (rc, r') \<and> added mem s e r rc r'"
proof (cases "apart r (last_pos A) s")
  case True
  then have gap: "\<forall>a\<in>set A. r_e a + 1 < s"
    using apart_last [of r A "[]" C s] ok L se by simp
  show ?thesis
  proof (cases "alloc_range mem r")
    case None
    have "s \<notin> rs_set r"
      using gap C se L by (fastforce simp: rs_set_def ranges_set_def)
    then have "\<not> {s..e} \<subseteq> rs_set r" using se by auto
    with None True f se show ?thesis
      by (auto simp: rangeset_add_range_def added_def alloc_range_def split: if_splits)
  next
    case (Some r1)
    obtain i r2 where ins: "insert_range (last_pos A) \<lparr>r_s = s, r_e = e\<rparr> r1 = (i, r2)" by fastforce
    have "rangeset_add_range mem s e r = Some (OK, merge_next i r2)"
      using Some True f se ins by (simp add: rangeset_add_range_def Let_def)
    with add_new_range [OF ok L gap C se Some ins] show ?thesis by blast
  qed
next
  case False
  then obtain A' z where A': "A = A' @ [z]"
    by (cases A rule: rev_cases) (auto simp: apart_def last_pos_def)
  have L': "range_list r = A' @ z # C" using L A' by simp
  have "\<not> (\<forall>a\<in>set A. r_e a + 1 < s)"
    using False apart_last [of r A "[]" C s] ok L se by simp
  moreover have "\<forall>a\<in>set A'. r_e a + 1 < r_s z" "r_s z \<le> s"
    using ok L' A A' by (auto simp: rs_ok_def)
  ultimately have z: "r_s z \<le> s" "s \<le> r_e z + 1" using A' by fastforce+
  define t where "t = (if r_e (get_range r (length A')) < e then upd_range (length A') (\<lambda>z. z\<lparr>r_e := e\<rparr>) r else r)"
  have "last_pos A = Some (length A')" by (simp add: A' last_pos_def)
  then have "rangeset_add_range mem s e r = Some (OK, merge_next (length A') t)"
    using False f se by (simp add: rangeset_add_range_def Let_def t_def)
  with add_extend [OF ok L' z C se t_def] show ?thesis by blast
qed

text \<open>A query that begins and ends in front of different ranges.\<close>

definition across :: "rangeset \<Rightarrow> nat \<Rightarrow> nat \<Rightarrow> range list \<Rightarrow> range list \<Rightarrow> range list \<Rightarrow> bool" where
  "across r s e A M C \<longleftrightarrow>
     rs_ok r \<and> s \<le> e \<and> e < 2 ^ 64 \<and> range_list r = A @ M @ C \<and> M \<noteq> []
     \<and> (\<forall>a\<in>set A. r_s a \<le> s) \<and> (\<forall>m\<in>set M. s < r_s m \<and> r_s m \<le> e) \<and> (\<forall>c\<in>set C. e < r_s c)
     \<and> find_range r s = last_pos A \<and> find_range r e = Some (length (A @ M) - 1) \<and> find_range r s \<noteq> find_range r e"

lemma acrossI:
  assumes "rs_ok r" "s \<le> e" "e < 2 ^ 64" "range_list r = A @ M @ C" "M \<noteq> []" "\<forall>a\<in>set A. r_s a \<le> s"
    "\<forall>m\<in>set M. s < r_s m \<and> r_s m \<le> e" "\<forall>c\<in>set C. e < r_s c"
    "find_range r s = last_pos A" "find_range r e = last_pos (A @ M)"
  shows "across r s e A M C"
proof -
  have "last_pos A \<noteq> last_pos (A @ M)" using assms(5) by (simp add: last_pos_append_eq)
  with assms show ?thesis by (simp add: across_def) (simp add: last_pos_def)
qed

lemma across_bounds:
  assumes "across r s e A M C"
  shows "ranges_ok A" "ranges_ok M" "ranges_ok C" "\<forall>a\<in>set A. \<forall>m\<in>set M. r_e a + 1 < r_s m"
    "\<forall>m\<in>set M. \<forall>c\<in>set C. r_e m + 1 < r_s c"
  using assms by (auto simp: across_def rs_ok_def)

lemma across_span:
  assumes "across r s e A M C" and x: "x = max (r_e (last M)) e"
  shows "s \<le> x" "x < 2 ^ 64" "\<forall>m\<in>set M. r_e m \<le> x" "\<forall>c\<in>set C. x < r_s c"
    "{s..x} = {s..e} \<union> ranges_set M"
proof -
  have c: "s \<le> e" "e < 2 ^ 64" "M \<noteq> []" "\<forall>m\<in>set M. s < r_s m \<and> r_s m \<le> e" "\<forall>c\<in>set C. e < r_s c"
    using assms(1) by (auto simp: across_def)
  define n where "n = last M"
  obtain N where N: "M = N @ [n]" using c(3) n_def by (metis append_butlast_last_id)
  note b = across_bounds [OF assms(1)]
  have nb: "r_s n \<le> r_e n" "r_e n < 2 ^ 64" using b(2) N by simp_all
  show "s \<le> x" "x < 2 ^ 64" "\<forall>m\<in>set M. r_e m \<le> x" "\<forall>c\<in>set C. x < r_s c"
    using nb c b(2) N b(5) last_covers [of N n] by (auto simp: x n_def [symmetric])
  show "{s..x} = {s..e} \<union> ranges_set M"
    unfolding x n_def [symmetric] using span_eq [of N n s e] b(2) c N by simp
qed

lemma add_across_apart:
  assumes acr: "across r s e A M C" and ap: "apart r (last_pos A) s"
  shows "\<exists>r'. rangeset_add_range mem s e r = Some (OK, r') \<and> added mem s e r OK r'"
proof -
  define x where "x = max (r_e (last M)) e"
  note b = across_bounds [OF acr] and xb = across_span [OF acr x_def]
  have L: "range_list r = A @ M @ C" and ok: "rs_ok r" and se: "s \<le> e" "e < 2 ^ 64" and M0: "M \<noteq> []"
    and f: "find_range r s = last_pos A" "find_range r e = Some (length (A @ M) - 1)"
      "last_pos A \<noteq> Some (length (A @ M) - 1)"
    using acr by (auto simp: across_def)
  have gap: "\<forall>a\<in>set A. r_e a + 1 < s" using apart_last [OF ok L] se ap by simp
  obtain m M' where mM: "M = m # M'" using M0 by (cases M) auto
  define r1 where "r1 = upd_range (length A) (\<lambda>z. z\<lparr>r_s := s\<rparr>) r"
  have r1: "range_list r1 = A @ m\<lparr>r_s := s\<rparr> # M' @ C"
    using L mM by (simp add: r1_def upd_range_at)
  have "get_range r1 (length (A @ M) - 1) = last (m\<lparr>r_s := s\<rparr> # M')"
    using get_range_last [of r1 A "m\<lparr>r_s := s\<rparr> # M'" C] r1 mM by simp
  then have ye: "r_e (get_range r1 (length (A @ M) - 1)) = r_e (last M)" by (simp add: mM)
  define r2 where "r2 = upd_range (length A) (\<lambda>z. z\<lparr>r_e := x\<rparr>) r1"
  have r2: "range_list r2 = A @ \<lparr>r_s = s, r_e = x\<rparr> # M' @ C"
    using r1 by (cases m) (simp add: r2_def upd_range_at)
  have x1: "(case last_pos A of None \<Rightarrow> first_range r
      | Some i \<Rightarrow> if apart r (last_pos A) s then next_range r i else Some i) = Some (length A)"
    using ap L mM by (cases A rule: rev_cases) (simp_all add: last_pos_def first_range_def next_range_def)
  have "rangeset_add_range mem s e r = Some (OK, merge_next (length A) (absorb (length A) r2))"
    using f(3) se ap ye unfolding rangeset_add_range_def Let_def f(1,2) x1
    by (simp add: r1_def [symmetric] r2_def x_def max_def)
  moreover have "rs_ok (merge_next (length A) (absorb (length A) r2))
    \<and> rs_set (merge_next (length A) (absorb (length A) r2)) = ranges_set A \<union> {s..x} \<union> ranges_set C
    \<and> rs_budget (merge_next (length A) (absorb (length A) r2)) = rs_budget r2"
    using add_span [OF b(1,3) _ r2, of s] gap xb mM by simp
  moreover have "rs_budget r2 = rs_budget r" by (simp add: r2_def r1_def)
  ultimately show ?thesis
    using xb(5) L by (auto simp: added_def rs_set_def)
qed

lemma add_across_joined:
  assumes acr: "across r s e A M C" and ap: "\<not> apart r (last_pos A) s"
  shows "\<exists>r'. rangeset_add_range mem s e r = Some (OK, r') \<and> added mem s e r OK r'"
proof -
  define x where "x = max (r_e (last M)) e"
  note b = across_bounds [OF acr] and xb = across_span [OF acr x_def]
  have L: "range_list r = A @ M @ C" and ok: "rs_ok r" and se: "s \<le> e" "e < 2 ^ 64" and M0: "M \<noteq> []"
    and A: "\<forall>a\<in>set A. r_s a \<le> s"
    and f: "find_range r s = last_pos A" "find_range r e = Some (length (A @ M) - 1)"
      "last_pos A \<noteq> Some (length (A @ M) - 1)"
    using acr by (auto simp: across_def)
  obtain B z where B: "A = B @ [z]"
    using ap by (cases A rule: rev_cases) (auto simp: apart_def last_pos_def)
  have L': "range_list r = B @ z # M @ C" using L B by simp
  have zM: "\<forall>m\<in>set M. r_e z + 1 < r_s m" using b(4) B by simp
  have zb: "\<forall>a\<in>set B. r_e a + 1 < r_s z" "r_s z \<le> s" "r_s z \<le> r_e z"
    using b(1) A B by auto
  have "r_e (last M) \<le> x" "r_s (last M) \<le> r_e (last M)" "r_e z + 1 < r_s (last M)"
    using M0 xb(3) b(2) zM ranges_ok_bounds by auto
  then have zx: "r_e z < x" by linarith
  have "\<not> (\<forall>a\<in>set A. r_e a + 1 < s)" using ap apart_last [OF ok L] se by simp
  then have "s \<le> r_e z + 1" using zb B by fastforce
  then have zset: "{r_s z..x} = {r_s z..r_e z} \<union> {s..x}" using zb xb(1) zx by auto
  define r2 where "r2 = upd_range (length B) (\<lambda>z. z\<lparr>r_e := x\<rparr>) r"
  have r2: "range_list r2 = B @ z\<lparr>r_e := x\<rparr> # M @ C"
    using L' by (simp add: r2_def upd_range_at)
  have ye: "r_e (get_range r (length (A @ M) - 1)) = r_e (last M)"
    using get_range_last [OF L M0] by simp
  have "rangeset_add_range mem s e r = Some (OK, merge_next (length B) (absorb (length B) r2))"
    using f(3) se ap ye B unfolding rangeset_add_range_def Let_def f(1,2)
    by (simp add: r2_def x_def max_def last_pos_def)
  moreover have "rs_ok (merge_next (length B) (absorb (length B) r2))
    \<and> rs_set (merge_next (length B) (absorb (length B) r2)) = ranges_set B \<union> {r_s z..x} \<union> ranges_set C
    \<and> rs_budget (merge_next (length B) (absorb (length B) r2)) = rs_budget r2"
    using add_span [OF _ b(3) _ r2, of s] b(1) zb xb B by simp
  moreover have "rs_budget r2 = rs_budget r" by (simp add: r2_def)
  ultimately show ?thesis
    using xb(5) zset L' by (auto simp: added_def rs_set_def)
qed

lemma rangeset_add_range_added:
  assumes "rs_ok r" and "s \<le> e" and "e < 2 ^ 64"
  shows "\<exists>rc r'. rangeset_add_range mem s e r = Some (rc, r') \<and> added mem s e r rc r'"
proof -
  obtain A M C where c: "range_list r = A @ M @ C" "\<forall>a\<in>set A. r_s a \<le> s"
    "\<forall>m\<in>set M. s < r_s m \<and> r_s m \<le> e" "\<forall>c\<in>set C. e < r_s c"
    "find_range r s = last_pos A" "find_range r e = last_pos (A @ M)"
    using cut_twice [OF assms(1,2)] by metis
  show ?thesis
  proof (cases "M = []")
    case True
    with c show ?thesis using add_same [OF assms, of A C mem] by simp
  next
    case False
    then have "across r s e A M C" using assms c by (intro acrossI)
    then show ?thesis using add_across_apart add_across_joined by blast
  qed
qed

section \<open>Removing\<close>

lemma remove_until_ok:
  assumes "range_list r = A @ N @ B"
  shows "range_list (remove_until (length A) (length A + length N) r) = A @ B
    \<and> rs_budget (remove_until (length A) (length A + length N) r) = rs_budget r"
  using assms
proof (induction N arbitrary: r)
  case Nil
  then show ?case by (simp add: remove_until.simps)
next
  case (Cons n N)
  let ?r = "destroy_range (length A) r"
  have d: "range_list ?r = A @ N @ B" and b: "rs_budget ?r = rs_budget r"
    using Cons.prems destroy_range_at(1) [of r A n "N @ B"] by (simp_all add: rs_budget_destroy)
  have "remove_until (length A) (length A + length (n # N)) r = remove_until (length A) (length A + length N) ?r"
    by (subst remove_until.simps) simp
  with Cons.IH [OF d] b show ?case by simp
qed

text \<open>
  The numbers that a removal across several ranges adds: those between the end of the last
  range that begins before \<open>s\<close> and \<open>s\<close>.
\<close>

definition stretch :: "nat \<Rightarrow> nat \<Rightarrow> rangeset \<Rightarrow> nat set" where
  "stretch s e r =
     (case find_range r s of
        None \<Rightarrow> {}
      | Some i \<Rightarrow> if find_range r e = Some i then {} else {r_e (get_range r i)<..<s})"

definition removed :: "bool \<Rightarrow> nat \<Rightarrow> nat \<Rightarrow> rangeset \<Rightarrow> rc \<Rightarrow> rangeset \<Rightarrow> bool" where
  "removed mem s e r rc r' \<longleftrightarrow>
     rc = OK \<and> rs_ok r' \<and> rs_set r' = rs_set r - {s..e} \<union> stretch s e r \<and> rs_budget r' = rs_budget r
     \<or> rc = Inl ENOMEM \<and> r' = r \<and> (nr_ranges r = 0 \<or> \<not> mem)"

lemma ranges_set_before: "ranges_ok A \<Longrightarrow> \<forall>a\<in>set A. r_e a < s \<Longrightarrow> ranges_set A \<inter> {s..e} = {}"
  by (fastforce simp: ranges_set_def)

lemma ranges_set_behind: "\<forall>c\<in>set C. e < r_s c \<Longrightarrow> ranges_set C \<inter> {s..e} = {}"
  by (fastforce simp: ranges_set_def)

lemma ranges_set_within: "\<forall>m\<in>set M. s \<le> r_s m \<and> r_e m \<le> e \<Longrightarrow> ranges_set M \<subseteq> {s..e}"
  by (fastforce simp: ranges_set_def)

text \<open>Both bounds fall behind the start of the same range \<open>z\<close>.\<close>

definition within :: "rangeset \<Rightarrow> nat \<Rightarrow> nat \<Rightarrow> range list \<Rightarrow> range \<Rightarrow> range list \<Rightarrow> bool" where
  "within r s e A z C \<longleftrightarrow>
     rs_ok r \<and> s \<le> e \<and> e < 2 ^ 64 \<and> range_list r = A @ z # C \<and> r_s z \<le> s \<and> (\<forall>c\<in>set C. e < r_s c)
     \<and> find_range r s = Some (length A) \<and> find_range r e = Some (length A)"

lemma within_facts:
  assumes "within r s e A z C"
  shows "ranges_ok A" "ranges_ok C" "r_s z \<le> r_e z" "r_e z < 2 ^ 64" "\<forall>a\<in>set A. r_e a + 1 < r_s z"
    "\<forall>a\<in>set A. \<forall>c\<in>set C. r_e a + 1 < r_s c" "\<forall>c\<in>set C. r_e z + 1 < r_s c"
    "get_range r (length A) = z" "stretch s e r = {}"
    "rs_set r - {s..e} = ranges_set A \<union> ({r_s z..r_e z} - {s..e}) \<union> ranges_set C"
proof -
  have L: "range_list r = A @ z # C" and ok: "rs_ok r" and C: "\<forall>c\<in>set C. e < r_s c" and z: "r_s z \<le> s"
    using assms by (simp_all add: within_def)
  show b: "ranges_ok A" "ranges_ok C" "r_s z \<le> r_e z" "r_e z < 2 ^ 64" "\<forall>a\<in>set A. r_e a + 1 < r_s z"
    "\<forall>a\<in>set A. \<forall>c\<in>set C. r_e a + 1 < r_s c" "\<forall>c\<in>set C. r_e z + 1 < r_s c"
    using ok L by (auto simp: rs_ok_def)
  show "get_range r (length A) = z" by (rule get_range_at [OF L])
  show "stretch s e r = {}" using assms by (simp add: within_def stretch_def)
  have "\<forall>a\<in>set A. r_e a < s" using b(5) z by fastforce
  then have "ranges_set A \<inter> {s..e} = {}" "ranges_set C \<inter> {s..e} = {}"
    using b(1) C by (simp_all add: ranges_set_before ranges_set_behind)
  then show "rs_set r - {s..e} = ranges_set A \<union> ({r_s z..r_e z} - {s..e}) \<union> ranges_set C"
    using L by (auto simp: rs_set_def)
qed

lemma remove_inner:
  assumes w: "within r s e A z C" and z: "r_s z < s" "e < r_e z"
  shows "\<exists>rc r'. rangeset_remove_range mem s e r = Some (rc, r') \<and> removed mem s e r rc r'"
proof (cases "alloc_range mem r")
  case None
  with w z within_facts(8) [OF w] show ?thesis
    by (auto simp: within_def rangeset_remove_range_def removed_def alloc_range_def Let_def split: if_splits)
next
  case (Some r1)
  note b = within_facts [OF w]
  have L: "range_list r = A @ z # C" and se: "s \<le> e" using w by (simp_all add: within_def)
  define r2 where "r2 = upd_range (length A) (\<lambda>z. z\<lparr>r_e := wrap64 (s + 2 ^ 64 - 1)\<rparr>) r1"
  define r3 where "r3 = snd (insert_range (Some (length A)) \<lparr>r_s = wrap64 (e + 1), r_e = r_e z\<rparr> r2)"
  have r1: "range_list r1 = A @ z # C" "nr_ranges r1 = s64 (nr_ranges r - 1)"
    using Some L by (auto simp: alloc_range_def split: if_splits)
  have "wrap64 (s + 2 ^ 64 - 1) = s - 1" "wrap64 (e + 1) = e + 1"
    using z se b(4) by (intro wrap64_pred wrap64_less; simp)+
  then have r3: "range_list r3 = A @ z\<lparr>r_e := s - 1\<rparr> # \<lparr>r_s = e + 1, r_e = r_e z\<rparr> # C"
    "nr_ranges r3 = nr_ranges r1"
    using r1 by (simp_all add: r3_def r2_def insert_range_def Let_def upd_range_def)
  have "rs_budget r3 = s64 (nr_ranges r - 1 + int (length (range_list r3)))"
    unfolding rs_budget_def r3(2) r1(2) by (rule s64_s64_add)
  moreover have "int (length (range_list r3)) = int (length (range_list r)) + 1" using r3(1) L by simp
  ultimately have "rs_budget r3 = rs_budget r" by (simp add: rs_budget_def)
  moreover have "rs_ok r3"
    using z se b(1-7) r3 by (fastforce simp: rs_ok_def)
  moreover have "{r_s z..r_e z} - {s..e} = {r_s z..s - 1} \<union> {e + 1..r_e z}"
    using z se by auto
  then have "rs_set r3 = rs_set r - {s..e}"
    unfolding b(10) by (auto simp: rs_set_def r3(1))
  ultimately have "removed mem s e r OK r3" using b(9) by (simp add: removed_def)
  moreover have "rangeset_remove_range mem s e r = Some (OK, r3)"
    using z w b(8) Some by (simp add: within_def rangeset_remove_range_def Let_def r3_def r2_def)
  ultimately show ?thesis by blast
qed

lemma set_of: "range_list r = A @ z # C \<Longrightarrow> rs_set r = ranges_set A \<union> {r_s z..r_e z} \<union> ranges_set C"
  by (auto simp: rs_set_def)

lemma remove_same:
  assumes w: "within r s e A z C"
  shows "\<exists>rc r'. rangeset_remove_range mem s e r = Some (rc, r') \<and> removed mem s e r rc r'"
proof -
  note b = within_facts [OF w]
  have L: "range_list r = A @ z # C" and se: "s \<le> e" and ok: "rs_ok r" and zs: "r_s z \<le> s"
    using w by (simp_all add: within_def)
  have run: "rangeset_remove_range mem s e r =
    (if r_e z < s then Some (OK, r)
     else if r_s z < s \<and> e < r_e z then rangeset_remove_range mem s e r
     else if r_s z = s \<and> r_e z \<le> e then Some (OK, destroy_range (length A) r)
     else if r_s z = s then Some (OK, upd_range (length A) (\<lambda>z. z\<lparr>r_s := wrap64 (e + 1)\<rparr>) r)
     else Some (OK, upd_range (length A) (\<lambda>z. z\<lparr>r_e := wrap64 (s + 2 ^ 64 - 1)\<rparr>) r))"
    using w b(8) zs by (auto simp: within_def rangeset_remove_range_def Let_def)
  consider (outside) "r_e z < s" | (inner) "r_s z < s" "e < r_e z" | (whole) "r_s z = s" "r_e z \<le> e"
    | (head_cut) "r_s z = s" "e < r_e z" | (tail_cut) "r_s z < s" "s \<le> r_e z" "r_e z \<le> e"
    using zs by linarith
  then show ?thesis
  proof cases
    case outside
    then have "rs_set r - {s..e} = rs_set r" unfolding b(10) using L by (auto simp: rs_set_def)
    then show ?thesis using run outside ok b(9) by (simp add: removed_def)
  next
    case inner
    with remove_inner [OF w] show ?thesis by blast
  next
    case whole
    then have "rs_budget (destroy_range (length A) r) = rs_budget r"
      "rs_set (destroy_range (length A) r) = rs_set r - {s..e}" "rs_ok (destroy_range (length A) r)"
      unfolding b(10) using destroy_range_at(1) [OF L] L b(1,2,6) by (auto simp: rs_budget_destroy rs_set_def rs_ok_def)
    then show ?thesis using run whole b(3,9) by (simp add: removed_def)
  next
    case head_cut
    let ?r = "upd_range (length A) (\<lambda>z. z\<lparr>r_s := wrap64 (e + 1)\<rparr>) r"
    have "wrap64 (e + 1) = e + 1" using head_cut b(4) by (intro wrap64_less) simp
    then have r: "range_list ?r = A @ z\<lparr>r_s := e + 1\<rparr> # C" using upd_range_at(1) [OF L] by simp
    have "{r_s z..r_e z} - {s..e} = {e + 1..r_e z}" using head_cut se by auto
    then have "rs_set ?r = rs_set r - {s..e}" unfolding b(10) set_of [OF r] by simp
    moreover have "rs_ok ?r" using r b(1-7) head_cut se by (fastforce simp: rs_ok_def)
    ultimately show ?thesis using run head_cut b(3,9) by (simp add: removed_def)
  next
    case tail_cut
    let ?r = "upd_range (length A) (\<lambda>z. z\<lparr>r_e := wrap64 (s + 2 ^ 64 - 1)\<rparr>) r"
    have "wrap64 (s + 2 ^ 64 - 1) = s - 1" using tail_cut b(4) by (intro wrap64_pred) simp_all
    then have r: "range_list ?r = A @ z\<lparr>r_e := s - 1\<rparr> # C" using upd_range_at(1) [OF L] by simp
    have "{r_s z..r_e z} - {s..e} = {r_s z..s - 1}" using tail_cut by auto
    then have "rs_set ?r = rs_set r - {s..e}" unfolding b(10) set_of [OF r] by simp
    moreover have "rs_ok ?r" using r b(1-7) tail_cut by (fastforce simp: rs_ok_def)
    ultimately show ?thesis using run tail_cut b(9) by (simp add: removed_def)
  qed
qed

text \<open>The end of a removal across several ranges, once the front is cut.\<close>

lemma remove_tail:
  assumes L: "range_list r = B @ N @ n # C" and ok: "ranges_ok B" "ranges_ok (n # C)"
    and B: "\<forall>b\<in>set B. r_e b + 1 \<le> s" and se: "s \<le> e" "e < 2 ^ 64 - 1" "s \<le> r_s n" "r_s n \<le> e"
    and C: "\<forall>c\<in>set C. e < r_s c"
    and r2: "r2 = upd_range (length B) (\<lambda>z. z\<lparr>r_s := wrap64 (e + 1)\<rparr>)
                    (remove_until (length B) (length B + length N) r)"
    and r3: "r3 = (if r_s (get_range r2 (length B)) > r_e (get_range r2 (length B))
                   then destroy_range (length B) r2 else r2)"
  shows "rs_ok r3 \<and> rs_set r3 = ranges_set B \<union> (ranges_set (n # C) - {s..e}) \<and> rs_budget r3 = rs_budget r"
proof -
  let ?u = "remove_until (length B) (length B + length N) r"
  have u: "range_list ?u = B @ n # C" "rs_budget ?u = rs_budget r"
    using remove_until_ok [of r B N "n # C"] L by simp_all
  have "wrap64 (e + 1) = e + 1" using se by (intro wrap64_less) simp
  then have l2: "range_list r2 = B @ n\<lparr>r_s := e + 1\<rparr> # C" and b2: "rs_budget r2 = rs_budget r"
    using upd_range_at(1) [OF u(1)] u(2) by (simp_all add: r2)
  have g: "get_range r2 (length B) = n\<lparr>r_s := e + 1\<rparr>" by (rule get_range_at [OF l2])
  have nn: "{r_s n..r_e n} - {s..e} = {e + 1..r_e n}" using se by auto
  have CC: "ranges_set C - {s..e} = ranges_set C" using ranges_set_behind [OF C, of s] by blast
  have BC: "\<forall>b\<in>set B. \<forall>c\<in>set C. r_e b + 1 < r_s c" using B C se by fastforce
  show ?thesis
  proof (cases "e + 1 > r_e n")
    case True
    then have r3: "r3 = destroy_range (length B) r2" by (simp add: r3 g)
    have l3: "range_list r3 = B @ C" unfolding r3 by (rule destroy_range_at(1) [OF l2])
    have "rs_budget r3 = rs_budget r" unfolding r3 using l2 b2 by (simp add: rs_budget_destroy)
    then show ?thesis
      using l3 ok BC CC nn True by (auto simp: rs_ok_def rs_set_def Un_Diff)
  next
    case False
    then have r3: "r3 = r2" by (simp add: r3 g)
    have "\<forall>b\<in>set B. r_e b + 1 < e + 1" using B se by fastforce
    then show ?thesis
      unfolding r3 using l2 b2 ok BC CC nn False by (auto simp: rs_ok_def rs_set_def Un_Diff)
  qed
qed

text \<open>Everything in front of the last range of \<open>M\<close>, kept as \<open>B\<close> and removed as \<open>N\<close>.\<close>

lemma remove_step:
  assumes acr: "across r s e A M C" and e: "e < 2 ^ 64 - 1" and M: "M = K @ [n]"
    and L: "range_list r1 = B @ N @ n # C" and B: "ranges_ok B" "\<forall>b\<in>set B. r_e b + 1 \<le> s"
    and len: "length B + length N = length A + length K"
    and r': "r' = (let r2 = upd_range (length B) (\<lambda>z. z\<lparr>r_s := wrap64 (e + 1)\<rparr>)
                         (remove_until (length B) (length (A @ M) - 1) r1)
                   in if r_s (get_range r2 (length B)) > r_e (get_range r2 (length B))
                      then destroy_range (length B) r2 else r2)"
  shows "rs_ok r' \<and> rs_set r' = ranges_set B \<union> (ranges_set (n # C) - {s..e}) \<and> rs_budget r' = rs_budget r1"
proof -
  have j: "length (A @ M) - 1 = length B + length N" using M len by simp
  have n: "s \<le> e" "s \<le> r_s n" "r_s n \<le> e" "\<forall>c\<in>set C. e < r_s c"
    using acr M by (auto simp: across_def)
  have "ranges_ok (n # C)" using across_bounds [OF acr] M by simp
  from remove_tail [OF L B(1) this B(2) n(1) e n(2-4) refl refl] show ?thesis
    unfolding r' j Let_def .
qed

lemma across_rest:
  assumes acr: "across r s e A M C" and M: "M = K @ [n]"
  shows "rs_set r - {s..e} = (ranges_set A - {s..e}) \<union> (ranges_set (n # C) - {s..e})"
proof -
  have "\<forall>k\<in>set K. s \<le> r_s k \<and> r_e k \<le> e"
    using acr M across_bounds(2) [OF acr] by (fastforce simp: across_def)
  then have "ranges_set K \<subseteq> {s..e}" by (rule ranges_set_within)
  then show ?thesis using acr M by (auto simp: across_def rs_set_def)
qed

lemma remove_across_cut:
  assumes acr: "across r s e A M C" and e: "e < 2 ^ 64 - 1" and M: "M = K @ [n]"
    and A: "A = B @ [z]" "r_s z < s"
  shows "\<exists>r'. rangeset_remove_range mem s e r = Some (OK, r') \<and> removed mem s e r OK r'"
proof -
  note b = across_bounds [OF acr]
  define r1 where "r1 = upd_range (length B) (\<lambda>z. z\<lparr>r_e := wrap64 (s + 2 ^ 64 - 1)\<rparr>) r"
  define r' where "r' = (let r2 = upd_range (length A) (\<lambda>z. z\<lparr>r_s := wrap64 (e + 1)\<rparr>)
                         (remove_until (length A) (length (A @ M) - 1) r1)
                   in if r_s (get_range r2 (length A)) > r_e (get_range r2 (length A))
                      then destroy_range (length A) r2 else r2)"
  let ?z = "z\<lparr>r_e := s - 1\<rparr>"
  have se: "s \<le> e" "e < 2 ^ 64" and f: "find_range r s = Some (length B)"
      "find_range r e = Some (length (A @ M) - 1)" "length B \<noteq> length (A @ M) - 1"
    and L: "range_list r = B @ z # K @ n # C"
    using acr A M by (auto simp: across_def last_pos_def)
  have g: "get_range r (length B) = z" by (rule get_range_at [OF L])
  have "wrap64 (s + 2 ^ 64 - 1) = s - 1" using A se by (intro wrap64_pred) simp_all
  then have l1: "range_list r1 = (B @ [?z]) @ K @ n # C"
    using upd_range_at(1) [OF L] by (simp add: r1_def)
  have len: "length A = length (B @ [?z])" using A by simp
  have zb: "\<forall>b\<in>set B. r_e b + 1 < r_s z" "ranges_ok B" "r_s z \<le> r_e z" "r_e z < r_s n" "r_s n \<le> e"
    using b(1,4) A M acr by (auto simp: across_def dest: Suc_lessD)
  have okB: "ranges_ok (B @ [?z])" "\<forall>b\<in>set (B @ [?z]). r_e b + 1 \<le> s"
    using zb A se by fastforce+
  have "rangeset_remove_range mem s e r = Some (OK, r')"
    using f se A(2) g L by (simp add: rangeset_remove_range_def Let_def next_range_def r'_def r1_def A(1))
  moreover have "rs_ok r' \<and> rs_set r' = ranges_set (B @ [?z]) \<union> (ranges_set (n # C) - {s..e}) \<and> rs_budget r' = rs_budget r1"
    by (rule remove_step [OF acr e M l1 okB _ r'_def [unfolded len]]) (simp add: A)
  moreover have "stretch s e r = {r_e z<..<s}" using f g by (simp add: stretch_def)
  moreover have "ranges_set B \<inter> {s..e} = {}" using zb A by (intro ranges_set_before) fastforce+
  then have "ranges_set (B @ [?z]) = (ranges_set A - {s..e}) \<union> {r_e z<..<s}"
    using A zb by auto
  moreover have "rs_budget r1 = rs_budget r" by (simp add: r1_def)
  ultimately show ?thesis using across_rest [OF acr M] by (auto simp: removed_def)
qed

lemma remove_across_start:
  assumes acr: "across r s e A M C" and e: "e < 2 ^ 64 - 1" and M: "M = K @ [n]"
    and A: "A = [] \<or> (\<exists>B z. A = B @ [z] \<and> r_s z = s)"
  shows "\<exists>r'. rangeset_remove_range mem s e r = Some (OK, r') \<and> removed mem s e r OK r'"
proof -
  note b = across_bounds [OF acr]
  obtain B N where BN: "A = B @ N" "length N \<le> 1" "\<forall>z\<in>set N. r_s z = s" "N = [] \<longrightarrow> B = []"
    using A by (metis append_Nil empty_iff empty_set le_numeral_extra(3) length_0_conv length_Cons
        list.set(2) singletonD One_nat_def list.size(3) not_Cons_self2 order_refl zero_le)
  define r' where "r' = (let r2 = upd_range (length B) (\<lambda>z. z\<lparr>r_s := wrap64 (e + 1)\<rparr>)
                         (remove_until (length B) (length (A @ M) - 1) r)
                   in if r_s (get_range r2 (length B)) > r_e (get_range r2 (length B))
                      then destroy_range (length B) r2 else r2)"
  have L: "range_list r = B @ (N @ K) @ n # C" and se: "s \<le> e"
    and f: "find_range r s = last_pos A" "find_range r e = Some (length (A @ M) - 1)"
      "last_pos A \<noteq> Some (length (A @ M) - 1)"
    and Mb: "\<forall>m\<in>set M. s < r_s m \<and> r_s m \<le> e"
    using acr BN M by (auto simp: across_def)
  have ne: "range_list r \<noteq> []" using L by simp
  have i: "(case last_pos A of None \<Rightarrow> first_range r | Some i \<Rightarrow> Some i) = Some (length B)"
    using BN ne by (cases N) (auto simp: last_pos_def first_range_def)
  have g: "\<not> r_s (get_range r (length B)) < s"
    using L BN Mb M by (cases N; cases K) (auto simp: get_range_def nth_append)
  have Bb: "ranges_ok B" "\<forall>b\<in>set B. r_e b + 1 < s" using b(1) BN by (cases N; auto)+
  have "rangeset_remove_range mem s e r = Some (OK, r')"
    using f se g unfolding rangeset_remove_range_def Let_def i f(1,2) by (simp add: r'_def Let_def)
  moreover have "rs_ok r' \<and> rs_set r' = ranges_set B \<union> (ranges_set (n # C) - {s..e}) \<and> rs_budget r' = rs_budget r"
    using Bb BN by (intro remove_step [OF acr e M L _ _ _ r'_def]) auto
  moreover have "stretch s e r = {}"
    using f(1) L BN b(1) by (cases N) (auto simp: stretch_def last_pos_def get_range_def nth_append)
  moreover have "ranges_set A - {s..e} = ranges_set B"
  proof -
    have "ranges_set B \<inter> {s..e} = {}" using Bb by (intro ranges_set_before) fastforce+
    moreover have "r_e z + 1 < r_s n" "r_s n \<le> e" if "z \<in> set N" for z
      using that b(4) BN M Mb by simp_all
    then have "ranges_set N \<subseteq> {s..e}"
      using BN(3) by (intro ranges_set_within) fastforce
    ultimately show ?thesis using BN(1) by auto
  qed
  ultimately show ?thesis using across_rest [OF acr M] by (auto simp: removed_def)
qed

lemma rangeset_remove_range_removed:
  assumes "rs_ok r" and "s \<le> e" and "e < 2 ^ 64 - 1"
  shows "\<exists>rc r'. rangeset_remove_range mem s e r = Some (rc, r') \<and> removed mem s e r rc r'"
proof -
  obtain A M C where c: "range_list r = A @ M @ C" "\<forall>a\<in>set A. r_s a \<le> s"
    "\<forall>m\<in>set M. s < r_s m \<and> r_s m \<le> e" "\<forall>c\<in>set C. e < r_s c"
    "find_range r s = last_pos A" "find_range r e = last_pos (A @ M)"
    using cut_twice [OF assms(1,2)] by metis
  have e: "e < 2 ^ 64" using assms(3) by simp
  consider (clear) "M = []" "A = []" | (same) B z where "M = []" "A = B @ [z]" | (across) K n where "M = K @ [n]"
    by (metis rev_exhaust)
  then show ?thesis
  proof cases
    case clear
    then have "rs_set r \<inter> {s..e} = {}" "stretch s e r = {}"
      using c ranges_set_behind [of C e s] by (auto simp: rs_set_def stretch_def last_pos_def)
    then have "rs_set r - {s..e} = rs_set r" by auto
    with clear c assms \<open>stretch s e r = {}\<close> show ?thesis
      by (simp add: rangeset_remove_range_def last_pos_def removed_def)
  next
    case same
    with c assms e have "within r s e B z C" by (simp add: within_def last_pos_def)
    then show ?thesis by (rule remove_same)
  next
    case across
    with c assms e have acr: "across r s e A M C" by (intro acrossI) auto
    consider "A = [] \<or> (\<exists>B z. A = B @ [z] \<and> r_s z = s)" | B z where "A = B @ [z]" "r_s z < s"
      using c(2) by (cases A rule: rev_cases) fastforce+
    then show ?thesis
      using remove_across_start [OF acr assms(3) across] remove_across_cut [OF acr assms(3) across]
      by cases blast+
  qed
qed

end
