(* ===== verification/Rangeset_Props.thy ===== *)
theory Rangeset_Props
  imports Rangeset_Inv
begin

text \<open>
  What rangesets guarantee: every operation is the set operation it is named after, up to
  the two cases in which removing a range adds numbers to the set. The capability macros are
  proved against the contract of an interval set, which the rangeset operations meet.
\<close>

section \<open>The contract of an interval set\<close>

locale interval_set =
  fixes set_of :: "'r \<Rightarrow> nat set" and inv :: "'r \<Rightarrow> bool"
    and add :: "bool \<Rightarrow> nat \<Rightarrow> nat \<Rightarrow> 'r \<Rightarrow> (rc \<times> 'r) option"
    and contains :: "nat \<Rightarrow> nat \<Rightarrow> 'r \<Rightarrow> bool option"
  assumes add_set: "inv r \<Longrightarrow> s \<le> e \<Longrightarrow> e < 2 ^ 64 \<Longrightarrow>
      \<exists>rc r'. add mem s e r = Some (rc, r') \<and> inv r'
        \<and> set_of r' = (if rc = OK then set_of r \<union> {s..e} else set_of r)"
    and contains_set: "inv r \<Longrightarrow> s \<le> e \<Longrightarrow> contains s e r = Some ({s..e} \<subseteq> set_of r)"
begin

lemma added_contained:
  assumes "inv r" and "s \<le> a" and "a \<le> b" and "b \<le> e" and "e < 2 ^ 64"
    and "add mem s e r = Some (OK, r')"
  shows "inv r'" and "contains a b r' = Some True"
proof -
  have "s \<le> e" using assms by simp
  from add_set [OF assms(1) this assms(5), of mem] assms(6)
  have r': "inv r'" "set_of r' = set_of r \<union> {s..e}" by simp_all
  then show "inv r'" by simp
  have "{a..b} \<subseteq> {s..e}" using assms by simp
  then have "{a..b} \<subseteq> set_of r'" unfolding r'(2) by (rule le_supI2)
  with contains_set [OF r'(1) assms(3)] show "contains a b r' = Some True" by simp
qed

lemma contained_kept:
  assumes "inv r" and "s \<le> e" and "e < 2 ^ 64" and "a \<le> b" and "contains a b r = Some True"
    and "add mem s e r = Some (rc, r')"
  shows "contains a b r' = Some True"
proof -
  from add_set [OF assms(1-3), of mem] assms(6)
  have r': "inv r'" "set_of r \<subseteq> set_of r'" by (auto split: if_splits)
  have "{a..b} \<subseteq> set_of r" using contains_set [OF assms(1,4)] assms(5) by simp
  then have "{a..b} \<subseteq> set_of r'" using r'(2) by (rule subset_trans)
  with contains_set [OF r'(1) assms(4)] show ?thesis by simp
qed

end

section \<open>Queries\<close>

lemma rangeset_contains_range_eq:
  assumes "rs_ok r" and "s \<le> e"
  shows "rangeset_contains_range s e r = Some ({s..e} \<subseteq> rs_set r)"
proof -
  obtain A B where AB: "range_list r = A @ B" "\<forall>a\<in>set A. r_s a \<le> s" "\<forall>b\<in>set B. s < r_s b"
    using cut_at assms(1) unfolding rs_ok_def by metis
  have f: "find_range r s = last_pos A" by (rule find_range_split [OF AB])
  have B: "s \<notin> ranges_set B" using AB(3) by (fastforce simp: ranges_set_def)
  show ?thesis
  proof (cases A rule: rev_cases)
    case Nil
    then have "s \<notin> rs_set r" using AB B by (simp add: rs_set_def)
    then have "\<not> {s..e} \<subseteq> rs_set r" using assms(2) by auto
    with Nil f assms(2) show ?thesis by (simp add: rangeset_contains_range_def last_pos_def)
  next
    case (snoc A' z)
    have L: "range_list r = A' @ z # B" using AB snoc by simp
    have set_r: "rs_set r = ranges_set A' \<union> {r_s z..r_e z} \<union> ranges_set B" by (rule set_of [OF L])
    have ok: "ranges_ok (A' @ z # B)" using assms(1) L by (simp add: rs_ok_def)
    have behind: "w \<in> rs_set r \<longleftrightarrow> w \<in> ranges_set B" if "r_s z \<le> w" "r_e z < w" for w
      using that ok set_r by (fastforce simp: ranges_set_def)
    have zs: "r_s z \<le> s" using AB snoc by simp
    have "{s..e} \<subseteq> rs_set r \<longleftrightarrow> e \<le> r_e z"
    proof
      assume sub: "{s..e} \<subseteq> rs_set r"
      have se: "s \<le> r_e z"
        using sub assms(2) behind [of s] B zs by force
      have "r_e z + 1 \<notin> ranges_set B" using ok by (fastforce simp: ranges_set_def)
      then have out: "r_e z + 1 \<notin> rs_set r" using behind [of "r_e z + 1"] zs se by simp
      show "e \<le> r_e z"
      proof (rule ccontr)
        assume "\<not> e \<le> r_e z"
        then have "r_e z + 1 \<in> {s..e}" using se by simp
        with sub out show False by blast
      qed
    next
      assume "e \<le> r_e z"
      then have "{s..e} \<subseteq> {r_s z..r_e z}" using zs by auto
      then show "{s..e} \<subseteq> rs_set r" using set_r by blast
    qed
    moreover have "get_range r (length A') = z" by (rule get_range_at [OF L])
    ultimately show ?thesis
      using f snoc assms(2) by (simp add: rangeset_contains_range_def last_pos_def)
  qed
qed

lemma rangeset_overlaps_range_eq:
  assumes "rs_ok r" and "s \<le> e"
  shows "rangeset_overlaps_range s e r = Some ({s..e} \<inter> rs_set r \<noteq> {})"
proof -
  obtain A B where AB: "range_list r = A @ B" "\<forall>a\<in>set A. r_s a \<le> e" "\<forall>b\<in>set B. e < r_s b"
    using cut_at assms(1) unfolding rs_ok_def by metis
  have f: "find_range r e = last_pos A" by (rule find_range_split [OF AB])
  have B: "ranges_set B \<inter> {s..e} = {}" by (rule ranges_set_behind [OF AB(3)])
  show ?thesis
  proof (cases A rule: rev_cases)
    case Nil
    with B f assms(2) AB show ?thesis
      by (auto simp: rangeset_overlaps_range_def last_pos_def rs_set_def)
  next
    case (snoc A' z)
    have L: "range_list r = A' @ z # B" using AB snoc by simp
    have ok: "ranges_ok (A' @ z # B)" using assms(1) L by (simp add: rs_ok_def)
    have "{s..e} \<inter> rs_set r \<noteq> {} \<longleftrightarrow> s \<le> r_e z"
    proof
      assume "{s..e} \<inter> rs_set r \<noteq> {}"
      then obtain w where w: "w \<in> {s..e}" "w \<in> rs_set r" by blast
      then have "w \<in> ranges_set (A' @ [z])" using B set_of [OF L] by auto
      then obtain x where "x \<in> set (A' @ [z])" "w \<in> {r_s x..r_e x}"
        unfolding ranges_set_def by blast
      with w have "x \<in> set (A' @ [z])" "s \<le> r_e x" by auto
      then show "s \<le> r_e z" using ok by fastforce
    next
      assume "s \<le> r_e z"
      then have "max s (r_s z) \<in> {s..e} \<inter> rs_set r"
        using set_of [OF L] AB(2) snoc assms(2) ok by auto
      then show "{s..e} \<inter> rs_set r \<noteq> {}" by blast
    qed
    moreover have "get_range r (length A') = z" by (rule get_range_at [OF L])
    ultimately show ?thesis
      using f snoc assms(2) by (simp add: rangeset_overlaps_range_def last_pos_def)
  qed
qed

interpretation rs: interval_set rs_set rs_ok rangeset_add_range rangeset_contains_range
proof
  fix r s e mem
  assume "rs_ok r" "s \<le> e" "(e :: nat) < 2 ^ 64"
  from rangeset_add_range_added [OF this, of mem] \<open>rs_ok r\<close>
  show "\<exists>rc r'. rangeset_add_range mem s e r = Some (rc, r') \<and> rs_ok r'
      \<and> rs_set r' = (if rc = OK then rs_set r \<union> {s..e} else rs_set r)"
    by (auto simp: added_def)
next
  fix r s e
  assume "rs_ok r" "s \<le> (e :: nat)"
  then show "rangeset_contains_range s e r = Some ({s..e} \<subseteq> rs_set r)"
    by (rule rangeset_contains_range_eq)
qed

section \<open>Properties\<close>

definition demo_rs :: rangeset where
  "demo_rs = \<lparr>range_list = [\<lparr>r_s = 0, r_e = 1\<rparr>, \<lparr>r_s = 5, r_e = 6\<rparr>], nr_ranges = -1, rs_domain = None\<rparr>"

lemma demo_rs_ok: "rs_ok demo_rs"
  by (simp add: rs_ok_def demo_rs_def)

text \<open>
  C3. Adding the range from \<open>s\<close> to \<open>e\<close> to an ordered rangeset always returns. On success the
  list is ordered again and stands for the union; otherwise the result is -ENOMEM, nothing
  has changed, the allocation was refused, and the range was not in the set yet. The number
  of ranges in use plus those left to allocate stays the same.
\<close>

theorem rangeset_add_range_union:
  assumes "rs_ok r" and "s \<le> e" and "e < 2 ^ 64"
  shows "\<exists>rc r'. rangeset_add_range mem s e r = Some (rc, r')
    \<and> (rc = OK \<and> rs_ok r' \<and> rs_set r' = rs_set r \<union> {s..e} \<and> rs_budget r' = rs_budget r
       \<or> rc = Inl ENOMEM \<and> r' = r \<and> (nr_ranges r = 0 \<or> \<not> mem) \<and> \<not> {s..e} \<subseteq> rs_set r)"
  using rangeset_add_range_added [OF assms] by (simp add: added_def)

theorem rangeset_add_range_union_witness:
  "\<exists>rc r'. rangeset_add_range True 2 4 demo_rs = Some (rc, r') \<and> rc = OK \<and> rs_set r' = rs_set demo_rs \<union> {2..4}"
  using rangeset_add_range_union [OF demo_rs_ok, of 2 4 True] by (auto simp: demo_rs_def)

text \<open>
  C13. Removing the range from \<open>s\<close> to \<open>e\<close>, when \<open>e\<close> is not the largest 64-bit number, leaves an
  ordered rangeset that stands for the difference, plus the numbers of \<open>stretch\<close>: when \<open>s\<close>
  and \<open>e\<close> fall behind different ranges, everything between the end of the range in front of
  \<open>s\<close> and \<open>s\<close> is added. So the result is the difference exactly when that range ends at or
  behind \<open>s - 1\<close>. A failed split changes nothing.
\<close>

theorem rangeset_remove_range_difference:
  assumes "rs_ok r" and "s \<le> e" and "e < 2 ^ 64 - 1"
  shows "\<exists>rc r'. rangeset_remove_range mem s e r = Some (rc, r')
    \<and> (rc = OK \<and> rs_ok r' \<and> rs_set r' = rs_set r - {s..e} \<union> stretch s e r \<and> rs_budget r' = rs_budget r
       \<or> rc = Inl ENOMEM \<and> r' = r \<and> (nr_ranges r = 0 \<or> \<not> mem))"
  using rangeset_remove_range_removed [OF assms] by (simp add: removed_def)

theorem rangeset_remove_range_difference_witness:
  "\<exists>rc r'. rangeset_remove_range True 1 5 demo_rs = Some (rc, r') \<and> rc = OK \<and> rs_set r' = rs_set demo_rs - {1..5}"
  using rangeset_remove_range_difference [OF demo_rs_ok, of 1 5 True]
  by (auto simp: demo_rs_def stretch_def find_range_def get_range_def)



text \<open>
  C26. The two queries decide containment and overlap: a range is reported as contained when
  all its numbers are in the set, and as overlapping when one of them is. A query with its
  bounds in the wrong order fails the assertion.
\<close>

theorem rangeset_queries:
  assumes "rs_ok r"
  shows "rangeset_contains_range s e r = (if s \<le> e then Some ({s..e} \<subseteq> rs_set r) else None)
    \<and> rangeset_overlaps_range s e r = (if s \<le> e then Some ({s..e} \<inter> rs_set r \<noteq> {}) else None)"
  using rangeset_contains_range_eq [OF assms] rangeset_overlaps_range_eq [OF assms]
  by (simp add: rangeset_contains_range_def rangeset_overlaps_range_def)

theorem rangeset_queries_witness:
  "rangeset_contains_range 5 6 demo_rs = Some True \<and> rangeset_overlaps_range 2 4 demo_rs = Some False"
  using rangeset_queries [OF demo_rs_ok, of 5 6] rangeset_queries [OF demo_rs_ok, of 2 4]
  by (auto simp: demo_rs_def rs_set_def)

lemma report_ranges_collect:
  "report_ranges L s e (\<lambda>a b c. (0, c @ [(a, b)])) c =
    (0, c @ map (\<lambda>x. (max (r_s x) s, min (r_e x) e)) (filter (\<lambda>x. s \<le> r_e x) (takeWhile (\<lambda>x. r_s x \<le> e) L)))"
  by (induction L arbitrary: c) auto

text \<open>
  C28. Reporting the ranges between \<open>s\<close> and \<open>e\<close> to a callback that accepts them all calls it
  on a list of non-empty ranges in ascending order whose numbers are exactly those of the set
  between \<open>s\<close> and \<open>e\<close>.
\<close>

theorem rangeset_report_ranges_exact:
  assumes "rs_ok r" and "s \<le> e"
  shows "\<exists>out. rangeset_report_ranges s e (\<lambda>a b c. (0, c @ [(a, b)])) r [] = (0, out)
    \<and> (\<Union>(a, b)\<in>set out. {a..b}) = rs_set r \<inter> {s..e}
    \<and> (\<forall>(a, b)\<in>set out. a \<le> b) \<and> sorted_wrt (\<lambda>(a, b) (c, d). b + 1 < c) out"
proof -
  let ?T = "takeWhile (\<lambda>x. r_s x \<le> e) (range_list r)"
  let ?F = "filter (\<lambda>x. s \<le> r_e x) ?T"
  let ?out = "map (\<lambda>x. (max (r_s x) s, min (r_e x) e)) ?F"
  obtain A B where AB: "range_list r = A @ B" "\<forall>a\<in>set A. r_s a \<le> e" "\<forall>b\<in>set B. e < r_s b"
    using cut_at assms(1) unfolding rs_ok_def by metis
  have T: "?T = A"
    using AB by (cases B) (simp_all add: takeWhile_append2 takeWhile_eq_all_conv)
  have ok: "ranges_ok A" using assms(1) AB by (simp add: rs_ok_def)
  have "rs_set r \<inter> {s..e} = ranges_set A \<inter> {s..e}"
    using AB(1) ranges_set_behind [OF AB(3), of s] by (auto simp: rs_set_def)
  also have "\<dots> = (\<Union>(a, b)\<in>set ?out. {a..b})"
    unfolding T ranges_set_def by (auto; force)
  finally have cover: "(\<Union>(a, b)\<in>set ?out. {a..b}) = rs_set r \<inter> {s..e}" by simp
  have nonempty: "\<forall>(a, b)\<in>set ?out. a \<le> b"
    unfolding T using AB(2) assms(2) ranges_ok_bounds [OF ok] by auto
  have "sorted_wrt (\<lambda>x y. r_e x + 1 < r_s y) ?F"
    unfolding T using ok by (simp add: ranges_ok_def sorted_wrt_filter)
  then have "sorted_wrt (\<lambda>(a, b) (c, d). b + 1 < c) ?out"
    unfolding sorted_wrt_map by (rule sorted_wrt_mono_rel [rotated]) auto
  with cover nonempty show ?thesis
    by (simp add: rangeset_report_ranges_def report_ranges_collect)
qed

theorem rangeset_report_ranges_exact_witness:
  "rs_ok demo_rs \<and> (\<exists>out. rangeset_report_ranges 1 5 (\<lambda>a b c. (0, c @ [(a, b)])) demo_rs [] = (0, out)
    \<and> (\<Union>(a, b)\<in>set out. {a..b}) = rs_set demo_rs \<inter> {1..5})"
  using rangeset_report_ranges_exact [OF demo_rs_ok, of 1 5] demo_rs_ok by auto

text \<open>
  C27. Granting a domain access to a range of I/O memory makes every access inside the range
  permitted, keeps every access that was permitted, and leaves the interrupt capabilities
  alone.
\<close>

theorem iomem_permit_then_permitted:
  assumes "rs_ok (iomem_caps d)" and "s \<le> e" and "e < 2 ^ 64"
    and "iomem_permit_access mem s e d = Some (OK, d')"
  shows "(\<forall>a b. s \<le> a \<and> a \<le> b \<and> b \<le> e \<longrightarrow> iomem_access_permitted a b d' = Some True)
    \<and> (\<forall>a b. a \<le> b \<and> iomem_access_permitted a b d = Some True \<longrightarrow> iomem_access_permitted a b d' = Some True)
    \<and> rs_ok (iomem_caps d') \<and> irq_caps d' = irq_caps d"
proof -
  obtain r' where r': "rangeset_add_range mem s e (iomem_caps d) = Some (OK, r')" "d' = d\<lparr>iomem_caps := r'\<rparr>"
    using assms(4) by (auto simp: iomem_permit_access_def)
  have "iomem_access_permitted a b d' = Some True" if "s \<le> a" "a \<le> b" "b \<le> e" for a b
    using rs.added_contained(2) [OF assms(1) that assms(3) r'(1)] r'(2) by (simp add: iomem_access_permitted_def)
  moreover have "iomem_access_permitted a b d' = Some True"
    if "a \<le> b" "iomem_access_permitted a b d = Some True" for a b
    using rs.contained_kept [OF assms(1-3) that(1) _ r'(1)] that(2) r'(2) by (simp add: iomem_access_permitted_def)
  moreover have "rs_ok r'"
    using rs.added_contained(1) [OF assms(1) _ _ _ assms(3) r'(1), of s s] assms(2) by simp
  ultimately show ?thesis using r'(2) by simp
qed

definition demo_caps :: io_caps where
  "demo_caps = \<lparr>iomem_caps = demo_rs, irq_caps = demo_rs\<rparr>"

theorem iomem_permit_then_permitted_witness:
  "\<exists>d'. iomem_permit_access True 2 4 demo_caps = Some (OK, d') \<and> iomem_access_permitted 3 4 d' = Some True"
proof -
  obtain rc r' where "rangeset_add_range True 2 4 demo_rs = Some (rc, r')" "rc = OK"
    using rangeset_add_range_added [OF demo_rs_ok, of 2 4 True] by (auto simp: added_def demo_rs_def)
  then have eq: "iomem_permit_access True 2 4 demo_caps = Some (OK, demo_caps\<lparr>iomem_caps := r'\<rparr>)"
    by (simp add: iomem_permit_access_def demo_caps_def)
  have "rs_ok (iomem_caps demo_caps)" by (simp add: demo_caps_def demo_rs_ok)
  from iomem_permit_then_permitted [OF this _ _ eq] eq show ?thesis by auto
qed

lemma domain_destroy_loop_frees:
  assumes "distinct as" and "\<forall>a\<in>set as. Option.bind (rs_at st a) rs_domain = Some d"
  shows "\<exists>st'. domain_destroy_loop d as st = Some st' \<and> rs_at st' = (\<lambda>a. if a \<in> set as then None else rs_at st a)
    \<and> dom_rangesets st' = (dom_rangesets st)(d := [])"
  using assms
proof (induction as arbitrary: st)
  case Nil
  then show ?case by (simp add: fun_eq_iff)
next
  case (Cons a as)
  let ?st1 = "st\<lparr>rs_at := (rs_at st)(a := map_option (\<lambda>r. r\<lparr>rs_domain := None\<rparr>) (rs_at st a)),
                 dom_rangesets := (dom_rangesets st)(d := as)\<rparr>"
  let ?st2 = "rangeset_destroy (Some a) ?st1"
  obtain r where r: "rs_at st a = Some r" using Cons.prems by (cases "rs_at st a") auto
  have s2: "rs_at ?st2 = (rs_at st)(a := None)" "dom_rangesets ?st2 = (dom_rangesets st)(d := as)"
    using r by (simp_all add: rangeset_destroy_def)
  have "\<forall>b\<in>set as. Option.bind (rs_at ?st2 b) rs_domain = Some d"
    using Cons.prems by (auto simp: s2)
  moreover have "distinct as" using Cons.prems by simp
  ultimately obtain st' where st': "domain_destroy_loop d as ?st2 = Some st'"
    "rs_at st' = (\<lambda>b. if b \<in> set as then None else rs_at ?st2 b)"
    "dom_rangesets st' = (dom_rangesets ?st2)(d := [])" using Cons.IH by blast
  have "domain_destroy_loop d (a # as) st = Some st'"
    using Cons.prems st'(1) by (simp add: Let_def)
  then show ?case
    using st'(2,3) unfolding s2 by (auto simp: fun_eq_iff)
qed

text \<open>
  Destroying the rangesets of a domain ends: it frees every rangeset on the domain's
  list, empties the list, and touches no other rangeset and no other domain's list, provided
  that the sets on the list are distinct and belong to the domain (which the code asserts).
\<close>

theorem rangeset_domain_destroy_frees:
  assumes "distinct (dom_rangesets st d)"
    and "\<forall>a\<in>set (dom_rangesets st d). Option.bind (rs_at st a) rs_domain = Some d"
  shows "\<exists>st'. rangeset_domain_destroy d st = Some st'
    \<and> rs_at st' = (\<lambda>a. if a \<in> set (dom_rangesets st d) then None else rs_at st a)
    \<and> dom_rangesets st' = (dom_rangesets st)(d := [])"
  using domain_destroy_loop_frees [OF assms] by (simp add: rangeset_domain_destroy_def)

text \<open>Two rangesets created for domain 7, and one without a domain.\<close>

definition demo_store :: rs_store where
  "demo_store =
     (let empty = rangeset_domain_initialise 7 \<lparr>rs_at = (\<lambda>_. None), dom_rangesets = (\<lambda>_. [])\<rparr>;
          s1 = snd (rangeset_new (Some 1) (Some 7) empty);
          s2 = snd (rangeset_new (Some 2) (Some 7) s1)
      in snd (rangeset_new (Some 3) None s2))"

theorem rangeset_domain_destroy_frees_witness:
  "\<exists>st'. rangeset_domain_destroy 7 demo_store = Some st' \<and> rs_at st' 1 = None \<and> rs_at st' 2 = None
    \<and> rs_at st' 3 \<noteq> None"
proof -
  have "dom_rangesets demo_store 7 = [2, 1]" "Option.bind (rs_at demo_store 1) rs_domain = Some 7"
    "Option.bind (rs_at demo_store 2) rs_domain = Some 7" and three: "rs_at demo_store 3 \<noteq> None"
    by (simp_all add: demo_store_def rangeset_new_def rangeset_domain_initialise_def Let_def)
  then obtain st' where "rangeset_domain_destroy 7 demo_store = Some st'"
    "rs_at st' = (\<lambda>a. if a \<in> {1, 2} then None else rs_at demo_store a)"
    using rangeset_domain_destroy_frees [of demo_store 7] by (auto simp: insert_commute)
  with three show ?thesis by simp
qed

text \<open>
  Swapping two rangesets exchanges the sets they stand for and nothing else; swapping
  twice restores the store. The counters of the ranges left to allocate are not exchanged.
\<close>

theorem rangeset_swap_exchanges:
  assumes "rs_at st a = Some ra" and "rs_at st b = Some rb"
  shows "Option.bind (rs_at (rangeset_swap a b st) a) (\<lambda>r. Some (rs_set r, nr_ranges r)) = Some (rs_set rb, nr_ranges ra)
    \<and> Option.bind (rs_at (rangeset_swap a b st) b) (\<lambda>r. Some (rs_set r, nr_ranges r)) = Some (rs_set ra, nr_ranges rb)
    \<and> rangeset_swap a b (rangeset_swap a b st) = st"
  using assms by (auto simp: rangeset_swap_def rs_set_def Let_def fun_eq_iff)

theorem rangeset_swap_exchanges_witness:
  "rangeset_swap 1 2 (rangeset_swap 1 2 demo_store) = demo_store"
  using rangeset_swap_exchanges [of demo_store 1 _ 2]
  by (simp add: demo_store_def rangeset_new_def rangeset_domain_initialise_def Let_def)

end
