(* ===== verification/Timer.thy ===== *)
theory Timer
  imports Sched_Types
begin

text \<open>
  The timers of common/timer.c: per CPU an array heap ordered by expiry, an overflow list
  for the timers that do not fit, and the list of inactive timers. A \<^verbatim>\<open>struct timer\<close> is a
  number that indexes the map of timers; a heap is a function from slots (1 is the top) to
  timers together with its size and limit, which C keeps in the two halves of slot 0. The
  members of the union in \<^verbatim>\<open>struct timer\<close> are the field \<open>heap_offset\<close> and the two lists; the
  handler functions are a parameter. The locks are not modelled: an operation is one step.
\<close>

section \<open>Data\<close>

datatype timer_status =
    TIMER_STATUS_invalid | TIMER_STATUS_inactive | TIMER_STATUS_killed
  | TIMER_STATUS_in_heap | TIMER_STATUS_in_list

record timer =
  expires :: int
  heap_offset :: nat
  t_cpu :: nat
  status :: timer_status

record timers =
  heap :: "nat \<Rightarrow> nat"
  heap_size :: nat
  heap_limit :: nat
  t_list :: "nat list"
  t_running :: "nat option"
  t_inactive :: "nat list"

text \<open>
  \<open>t_softirqs\<close> are the CPUs with a pending TIMER_SOFTIRQ; \<open>timer_deadline\<close> is the per-CPU
  deadline the hardware is programmed with; \<open>t_fault\<close> says that a BUG or an assertion was hit
  or a null pointer followed.
\<close>

record tstate =
  tm :: "nat \<Rightarrow> timer"
  ts :: "nat \<Rightarrow> timers"
  timer_deadline :: "nat \<Rightarrow> int"
  t_softirqs :: "nat set"
  t_fault :: bool

definition upd_tm :: "nat \<Rightarrow> (timer \<Rightarrow> timer) \<Rightarrow> tstate \<Rightarrow> tstate" where
  "upd_tm t f s = s\<lparr>tm := (tm s)(t := f (tm s t))\<rparr>"

definition upd_ts :: "nat \<Rightarrow> (timers \<Rightarrow> timers) \<Rightarrow> tstate \<Rightarrow> tstate" where
  "upd_ts c f s = s\<lparr>ts := (ts s)(c := f (ts s c))\<rparr>"

definition t_bug :: "tstate \<Rightarrow> tstate" where
  "t_bug s = s\<lparr>t_fault := True\<rparr>"

definition raise_timer :: "nat \<Rightarrow> tstate \<Rightarrow> tstate" where
  "raise_timer c s = s\<lparr>t_softirqs := insert c (t_softirqs s)\<rparr>"

section \<open>Heap operations\<close>

text \<open>
  The heap operations work on the slots and the timers. \<open>slot pos t\<close> is the pair of stores
  \<^verbatim>\<open>heap[pos] = t; heap[pos]->heap_offset = pos\<close>.
\<close>

type_synonym slots = "(nat \<Rightarrow> nat) \<times> (nat \<Rightarrow> timer)"

definition slot :: "nat \<Rightarrow> nat \<Rightarrow> slots \<Rightarrow> slots" where
  "slot pos t hs = ((fst hs)(pos := t), (snd hs)(t := (snd hs t)\<lparr>heap_offset := pos\<rparr>))"

definition expiry :: "slots \<Rightarrow> nat \<Rightarrow> int" where
  "expiry hs pos = expires (snd hs (fst hs pos))"

text \<open>Slot 0 holds the size and the limit; the loop is never started there.\<close>

function sink :: "nat \<Rightarrow> nat \<Rightarrow> nat \<Rightarrow> slots \<Rightarrow> nat \<times> slots" where
  "sink sz t pos hs =
     (let nxt = 2 * pos
      in if pos = 0 \<or> sz < nxt then (pos, hs)
         else
           let nxt' = (if nxt + 1 \<le> sz \<and> expiry hs (nxt + 1) < expiry hs nxt then nxt + 1 else nxt)
           in if expiry hs nxt' > expires (snd hs t) then (pos, hs)
              else sink sz t nxt' (slot pos (fst hs nxt') hs))"
  by pat_completeness auto
termination
  by (relation "measure (\<lambda>(sz, t, pos, hs). sz - pos)") (auto split: if_splits)

definition down_heap :: "nat \<Rightarrow> nat \<Rightarrow> slots \<Rightarrow> slots" where
  "down_heap sz pos hs =
     (let t = fst hs pos; (pos', hs') = sink sz t pos hs in slot pos' t hs')"

fun float_up :: "nat \<Rightarrow> nat \<Rightarrow> slots \<Rightarrow> nat \<times> slots" where
  "float_up t pos hs =
     (if pos > 1 \<and> expires (snd hs t) < expiry hs (pos div 2)
      then float_up t (pos div 2) (slot pos (fst hs (pos div 2)) hs)
      else (pos, hs))"

definition up_heap :: "nat \<Rightarrow> slots \<Rightarrow> slots" where
  "up_heap pos hs =
     (let t = fst hs pos; (pos', hs') = float_up t pos hs in slot pos' t hs')"

declare sink.simps [simp del] float_up.simps [simp del]

text \<open>Reading and storing the heap of a CPU; the size is stored as an unsigned 16-bit number.\<close>

definition slots_of :: "nat \<Rightarrow> tstate \<Rightarrow> slots" where
  "slots_of c s = (heap (ts s c), tm s)"

definition set_slots :: "nat \<Rightarrow> nat \<Rightarrow> slots \<Rightarrow> tstate \<Rightarrow> tstate" where
  "set_slots c sz hs s =
     (upd_ts c (\<lambda>x. x\<lparr>heap := fst hs, heap_size := sz mod 2 ^ 16\<rparr>) s)\<lparr>tm := snd hs\<rparr>"

definition remove_from_heap :: "nat \<Rightarrow> nat \<Rightarrow> tstate \<Rightarrow> bool \<times> tstate" where
  "remove_from_heap c t s =
     (let sz = heap_size (ts s c); pos = heap_offset (tm s t); hs = slots_of c s
      in if pos = sz then (pos = 1, set_slots c (sz - 1) hs s)
         else
           let hs1 = slot pos (fst hs sz) hs; sz1 = sz - 1;
               hs2 = (if pos > 1 \<and> expiry hs1 pos < expiry hs1 (pos div 2)
                      then up_heap pos hs1 else down_heap sz1 pos hs1)
           in (pos = 1, set_slots c sz1 hs2 s))"

definition add_to_heap :: "nat \<Rightarrow> nat \<Rightarrow> tstate \<Rightarrow> bool \<times> tstate" where
  "add_to_heap c t s =
     (let sz = heap_size (ts s c)
      in if sz = heap_limit (ts s c) then (False, s)
         else
           let s1 = set_slots c (sz + 1) (up_heap (sz + 1) (slot (sz + 1) t (slots_of c s))) s
           in (heap_offset (tm s1 t) = 1, s1))"

section \<open>Linked list operations\<close>

text \<open>A timer that is not on the list sends the search through the null pointer at its end.\<close>

definition remove_from_list :: "nat \<Rightarrow> nat \<Rightarrow> tstate \<Rightarrow> bool \<times> tstate" where
  "remove_from_list c t s =
     (let l = t_list (ts s c)
      in if t \<in> set l
         then (hd l = t, upd_ts c (\<lambda>x. x\<lparr>t_list := remove1 t l\<rparr>) s)
         else (False, t_bug s))"

definition add_to_list :: "nat \<Rightarrow> nat \<Rightarrow> tstate \<Rightarrow> bool \<times> tstate" where
  "add_to_list c t s =
     (let l = insert_before (\<lambda>x. expires (tm s t) < expires (tm s x)) t (t_list (ts s c))
      in (hd l = t, upd_ts c (\<lambda>x. x\<lparr>t_list := l\<rparr>) s))"

section \<open>Timer operations\<close>

definition set_status :: "nat \<Rightarrow> timer_status \<Rightarrow> tstate \<Rightarrow> tstate" where
  "set_status t st s = upd_tm t (\<lambda>x. x\<lparr>status := st\<rparr>) s"

definition remove_entry :: "nat \<Rightarrow> tstate \<Rightarrow> bool \<times> tstate" where
  "remove_entry t s =
     (let c = t_cpu (tm s t);
          (r, s1) = (case status (tm s t) of
                       TIMER_STATUS_in_heap \<Rightarrow> remove_from_heap c t s
                     | TIMER_STATUS_in_list \<Rightarrow> remove_from_list c t s
                     | _ \<Rightarrow> (False, t_bug s))
      in (r, set_status t TIMER_STATUS_invalid s1))"

definition add_entry :: "nat \<Rightarrow> tstate \<Rightarrow> bool \<times> tstate" where
  "add_entry t s =
     (let c = t_cpu (tm s t);
          s0 = (if status (tm s t) = TIMER_STATUS_invalid then s else t_bug s);
          s1 = upd_tm t (\<lambda>x. x\<lparr>heap_offset := 0, status := TIMER_STATUS_in_heap\<rparr>) s0;
          (r, s2) = add_to_heap c t s1
      in if heap_offset (tm s2 t) \<noteq> 0 then (r, s2)
         else add_to_list c t (set_status t TIMER_STATUS_in_list s2))"

definition activate_timer :: "nat \<Rightarrow> tstate \<Rightarrow> tstate" where
  "activate_timer t s =
     (let s0 = (if status (tm s t) = TIMER_STATUS_inactive then s else t_bug s);
          s1 = upd_ts (t_cpu (tm s t)) (\<lambda>x. x\<lparr>t_inactive := remove1 t (t_inactive x)\<rparr>)
                 (set_status t TIMER_STATUS_invalid s0);
          (r, s2) = add_entry t s1
      in if r then raise_timer (t_cpu (tm s2 t)) s2 else s2)"

definition deactivate_timer :: "nat \<Rightarrow> tstate \<Rightarrow> tstate" where
  "deactivate_timer t s =
     (let (r, s1) = remove_entry t s;
          s2 = (if r then raise_timer (t_cpu (tm s1 t)) s1 else s1)
      in upd_ts (t_cpu (tm s2 t)) (\<lambda>x. x\<lparr>t_inactive := t # t_inactive x\<rparr>)
           (set_status t TIMER_STATUS_inactive s2))"

text \<open>timer_lock fails for a killed timer only.\<close>

definition timer_lock :: "nat \<Rightarrow> tstate \<Rightarrow> bool" where
  "timer_lock t s \<longleftrightarrow> t_cpu (tm s t) \<noteq> TIMER_CPU_status_killed"

definition active_timer :: "nat \<Rightarrow> tstate \<Rightarrow> bool" where
  "active_timer t s \<longleftrightarrow> status (tm s t) \<in> {TIMER_STATUS_in_heap, TIMER_STATUS_in_list}"

text \<open>The assertions of active_timer: any status but \<^verbatim>\<open>TIMER_STATUS_invalid\<close>.\<close>

definition active_timer_assert :: "nat \<Rightarrow> tstate \<Rightarrow> tstate" where
  "active_timer_assert t s = (if status (tm s t) = TIMER_STATUS_invalid then t_bug s else s)"

definition init_timer :: "nat \<Rightarrow> nat \<Rightarrow> tstate \<Rightarrow> tstate" where
  "init_timer t cpu s =
     (let s1 = upd_tm t (\<lambda>_. \<lparr>expires = 0, heap_offset = 0, t_cpu = cpu mod 2 ^ 16,
                               status = TIMER_STATUS_inactive\<rparr>) s
      in if \<not> timer_lock t s1 then t_bug s1
         else upd_ts cpu (\<lambda>x. x\<lparr>t_inactive := t # t_inactive x\<rparr>) s1)"

definition deactivate_if_active :: "nat \<Rightarrow> tstate \<Rightarrow> tstate" where
  "deactivate_if_active t s =
     (let s1 = active_timer_assert t s in if active_timer t s1 then deactivate_timer t s1 else s1)"

definition set_timer :: "nat \<Rightarrow> int \<Rightarrow> tstate \<Rightarrow> tstate" where
  "set_timer t e s =
     (if \<not> timer_lock t s then s
      else activate_timer t (upd_tm t (\<lambda>x. x\<lparr>expires := e\<rparr>) (deactivate_if_active t s)))"

definition stop_timer :: "nat \<Rightarrow> tstate \<Rightarrow> tstate" where
  "stop_timer t s = (if \<not> timer_lock t s then s else deactivate_if_active t s)"

definition timer_expires_before :: "nat \<Rightarrow> int \<Rightarrow> tstate \<Rightarrow> bool" where
  "timer_expires_before t e s \<longleftrightarrow> timer_lock t s \<and> active_timer t s \<and> expires (tm s t) \<le> e"

definition migrate_timer :: "nat \<Rightarrow> nat \<Rightarrow> tstate \<Rightarrow> tstate" where
  "migrate_timer t new_cpu s =
     (let old_cpu = t_cpu (tm s t)
      in if old_cpu = new_cpu \<or> old_cpu = TIMER_CPU_status_killed then s
         else
           let active = active_timer t s;
               s1 = deactivate_if_active t s;
               s2 = upd_ts old_cpu (\<lambda>x. x\<lparr>t_inactive := remove1 t (t_inactive x)\<rparr>) s1;
               s3 = upd_tm t (\<lambda>x. x\<lparr>t_cpu := new_cpu mod 2 ^ 16\<rparr>) s2;
               s4 = upd_ts new_cpu (\<lambda>x. x\<lparr>t_inactive := t # t_inactive x\<rparr>) s3
           in if active then activate_timer t s4 else s4)"

text \<open>
  \<open>me\<close> is the calling CPU. The final wait, until no CPU is running the handler any more, is
  for the other CPUs and leaves the state alone.
\<close>

definition kill_timer :: "nat \<Rightarrow> nat \<Rightarrow> tstate \<Rightarrow> tstate" where
  "kill_timer me t s =
     (let s0 = (if t_running (ts s me) = Some t then t_bug s else s)
      in if \<not> timer_lock t s0 then s0
         else
           let s1 = deactivate_if_active t s0;
               s2 = upd_ts (t_cpu (tm s1 t)) (\<lambda>x. x\<lparr>t_inactive := remove1 t (t_inactive x)\<rparr>) s1
           in upd_tm t (\<lambda>x. x\<lparr>status := TIMER_STATUS_killed, t_cpu := TIMER_CPU_status_killed\<rparr>) s2)"

section \<open>The timer softirq\<close>

definition execute_timer :: "(nat \<Rightarrow> tstate \<Rightarrow> tstate) \<Rightarrow> nat \<Rightarrow> nat \<Rightarrow> tstate \<Rightarrow> tstate" where
  "execute_timer fn c t s =
     (let s1 = upd_ts c (\<lambda>x. x\<lparr>t_inactive := t # t_inactive x, t_running := Some t\<rparr>)
                 (set_status t TIMER_STATUS_inactive s)
      in upd_ts c (\<lambda>x. x\<lparr>t_running := None\<rparr>) (fn t s1))"

text \<open>A handler may set its timer again, so the two loops need not end.\<close>

partial_function (option) run_heap ::
  "(nat \<Rightarrow> tstate \<Rightarrow> tstate) \<Rightarrow> nat \<Rightarrow> int \<Rightarrow> tstate \<Rightarrow> tstate option" where
  "run_heap fn c now s =
     (let t = heap (ts s c) 1
      in if heap_size (ts s c) \<noteq> 0 \<and> expires (tm s t) < now
         then run_heap fn c now (execute_timer fn c t (snd (remove_from_heap c t s)))
         else Some s)"

partial_function (option) run_list ::
  "(nat \<Rightarrow> tstate \<Rightarrow> tstate) \<Rightarrow> nat \<Rightarrow> int \<Rightarrow> tstate \<Rightarrow> tstate option" where
  "run_list fn c now s =
     (case t_list (ts s c) of
        [] \<Rightarrow> Some s
      | t # l \<Rightarrow>
          if expires (tm s t) < now
          then run_list fn c now (execute_timer fn c t (upd_ts c (\<lambda>x. x\<lparr>t_list := l\<rparr>) s))
          else Some s)"

text \<open>
  Growing the heap when the list is in use: the slots are copied, the limit goes from
  \<^verbatim>\<open>2^n - 1\<close> to \<^verbatim>\<open>2^(n+4) - 1\<close> and is stored as a 16-bit number.
\<close>

definition grow_heap :: "bool \<Rightarrow> nat \<Rightarrow> tstate \<Rightarrow> tstate" where
  "grow_heap mem c s =
     (if t_list (ts s c) \<noteq> [] \<and> mem
      then upd_ts c (\<lambda>x. x\<lparr>heap_limit := ((heap_limit x + 1) * 16 - 1) mod 2 ^ 16\<rparr>) s
      else s)"

definition list_to_heap :: "nat \<Rightarrow> tstate \<Rightarrow> tstate" where
  "list_to_heap c s =
     fold (\<lambda>t s. snd (add_entry t (set_status t TIMER_STATUS_invalid s))) (t_list (ts s c))
       (upd_ts c (\<lambda>x. x\<lparr>t_list := []\<rparr>) s)"

definition earliest :: "nat \<Rightarrow> tstate \<Rightarrow> int" where
  "earliest c s =
     (let d = (if heap_size (ts s c) \<noteq> 0 then expires (tm s (heap (ts s c) 1)) else STIME_MAX)
      in case t_list (ts s c) of
           [] \<Rightarrow> d
         | t # _ \<Rightarrow> if expires (tm s t) < d then expires (tm s t) else d)"

text \<open>
  \<open>mem\<close> says whether the larger heap can be allocated, \<open>slop\<close> is the boot parameter
  timer_slop, \<open>now\<close> and \<open>now2\<close> are the two readings of the clock, and \<open>reprogram\<close> is the
  architecture's answer to reprogram_timer.
\<close>

definition timer_softirq_action ::
  "(nat \<Rightarrow> tstate \<Rightarrow> tstate) \<Rightarrow> bool \<Rightarrow> int \<Rightarrow> (int \<Rightarrow> bool) \<Rightarrow> nat \<Rightarrow> int \<Rightarrow> int \<Rightarrow> tstate \<Rightarrow> tstate option" where
  "timer_softirq_action fn mem slop reprogram c now now2 s =
     (case run_heap fn c now (grow_heap mem c s) of
        None \<Rightarrow> None
      | Some s1 \<Rightarrow>
          case run_list fn c now s1 of
            None \<Rightarrow> None
          | Some s2 \<Rightarrow>
              let s3 = list_to_heap c s2;
                  deadline = earliest c s3;
                  d = (if deadline = STIME_MAX then 0 else max deadline (s64 (now2 + slop)));
                  s4 = s3\<lparr>timer_deadline := (timer_deadline s3)(c := d)\<rparr>
              in Some (if reprogram d then s4 else raise_timer c s4))"

text \<open>The period is unsigned, so the arithmetic is unsigned and the result is read as signed.\<close>

definition align_timer :: "int \<Rightarrow> int \<Rightarrow> int" where
  "align_timer firsttick period =
     (if period = 0 then firsttick
      else s64 (u64 (firsttick + (period - 1) - u64 (firsttick - 1) mod period)))"

section \<open>CPU removal and start-up\<close>

partial_function (option) move_active :: "nat \<Rightarrow> nat \<Rightarrow> bool \<Rightarrow> tstate \<Rightarrow> (bool \<times> tstate) option" where
  "move_active old_cpu new_cpu notify s =
     (let x = ts s old_cpu
      in if heap_size x = 0 \<and> t_list x = [] then Some (notify, s)
         else
           let t = (if heap_size x \<noteq> 0 then heap x 1 else hd (t_list x));
               (_, s1) = remove_entry t s;
               (r, s2) = add_entry t (upd_tm t (\<lambda>y. y\<lparr>t_cpu := new_cpu mod 2 ^ 16\<rparr>) s1)
           in move_active old_cpu new_cpu (notify \<or> r) s2)"

text \<open>The inactive timers are taken from the front and put in front, one by one.\<close>

definition move_inactive :: "nat \<Rightarrow> nat \<Rightarrow> tstate \<Rightarrow> tstate" where
  "move_inactive old_cpu new_cpu s =
     fold (\<lambda>t s. upd_ts new_cpu (\<lambda>x. x\<lparr>t_inactive := t # t_inactive x\<rparr>)
                   (upd_tm t (\<lambda>y. y\<lparr>t_cpu := new_cpu mod 2 ^ 16\<rparr>)
                     (upd_ts old_cpu (\<lambda>x. x\<lparr>t_inactive := remove1 t (t_inactive x)\<rparr>) s)))
       (t_inactive (ts s old_cpu)) s"

text \<open>\<open>new_cpu\<close> is the CPU that \<^verbatim>\<open>cpumask_any(&cpu_online_map)\<close> picks.\<close>

definition migrate_timers_from_cpu :: "nat set \<Rightarrow> nat \<Rightarrow> nat \<Rightarrow> tstate \<Rightarrow> tstate option" where
  "migrate_timers_from_cpu online new_cpu old_cpu s =
     (let s0 = (if old_cpu \<notin> online \<and> new_cpu \<in> online then s else t_bug s)
      in case move_active old_cpu new_cpu False s0 of
           None \<Rightarrow> None
         | Some (notify, s1) \<Rightarrow>
             let s2 = move_inactive old_cpu new_cpu s1
             in Some (if notify then raise_timer new_cpu s2 else s2))"

text \<open>Every CPU starts with the dummy heap, whose size and limit are 0.\<close>

definition timer_cpu_callback :: "nat set \<Rightarrow> nat \<Rightarrow> cpu_action \<Rightarrow> nat \<Rightarrow> tstate \<Rightarrow> tstate option" where
  "timer_cpu_callback online any action cpu s =
     (case action of
        CPU_UP_PREPARE \<Rightarrow>
          Some (upd_ts cpu (\<lambda>x. x\<lparr>t_inactive := [], heap := (\<lambda>_. 0), heap_size := 0, heap_limit := 0\<rparr>) s)
      | CPU_UP_CANCELED \<Rightarrow> migrate_timers_from_cpu online any cpu s
      | CPU_DEAD \<Rightarrow> migrate_timers_from_cpu online any cpu s
      | _ \<Rightarrow> Some s)"

end
