(* ===== verification/Timer_Heap.thy ===== *)
theory Timer_Heap
  imports Timer
begin

text \<open>
  The array heap of common/timer.c: sinking and floating an element restore the heap order,
  keep the offsets stored in the timers right, and permute the slots.
\<close>

section \<open>Heap order\<close>

text \<open>
  A heap of size \<open>sz\<close>: no slot expires before its parent, and every timer knows its slot
  (so no timer is in two slots).
\<close>

definition heap_ok :: "nat \<Rightarrow> slots \<Rightarrow> bool" where
  "heap_ok sz hs \<longleftrightarrow>
     (\<forall>i\<in>{1..sz}. heap_offset (snd hs (fst hs i)) = i)
     \<and> (\<forall>i\<in>{2..sz}. expiry hs (i div 2) \<le> expiry hs i)"

definition in_heap :: "nat \<Rightarrow> slots \<Rightarrow> nat set" where
  "in_heap sz hs = fst hs ` {1..sz}"

text \<open>Two timer maps that differ in the offsets of the timers in \<open>X\<close> only.\<close>

definition moved :: "nat set \<Rightarrow> (nat \<Rightarrow> timer) \<Rightarrow> (nat \<Rightarrow> timer) \<Rightarrow> bool" where
  "moved X f g \<longleftrightarrow>
     (\<forall>x. (g x)\<lparr>heap_offset := 0\<rparr> = (f x)\<lparr>heap_offset := 0\<rparr>) \<and> (\<forall>x. x \<notin> X \<longrightarrow> g x = f x)"

lemma moved_refl [simp]: "moved X f f"
  by (simp add: moved_def)

lemma moved_trans: "moved X f g \<Longrightarrow> moved X g h \<Longrightarrow> moved X f h"
  by (auto simp: moved_def)

lemma moved_mono: "moved X f g \<Longrightarrow> X \<subseteq> Y \<Longrightarrow> moved Y f g"
  by (auto simp: moved_def)

lemma moved_fields:
  assumes "moved X f g"
  shows "expires (g x) = expires (f x)" "status (g x) = status (f x)" "t_cpu (g x) = t_cpu (f x)"
proof -
  have "(g x)\<lparr>heap_offset := 0\<rparr> = (f x)\<lparr>heap_offset := 0\<rparr>"
    using assms by (simp add: moved_def)
  then show "expires (g x) = expires (f x)" "status (g x) = status (f x)" "t_cpu (g x) = t_cpu (f x)"
    by (cases "f x"; cases "g x"; simp)+
qed

lemma moved_slot: "t \<in> X \<Longrightarrow> moved X (snd hs) (snd (slot pos t hs))"
  by (auto simp: moved_def slot_def)

lemma slot_simps [simp]:
  "fst (slot pos t hs) = (fst hs)(pos := t)"
  "expires (snd (slot pos t hs) x) = expires (snd hs x)"
  "heap_offset (snd (slot pos t hs) x) = (if x = t then pos else heap_offset (snd hs x))"
  by (simp_all add: slot_def)

text \<open>The root of a heap expires first.\<close>

lemma heap_ok_root:
  assumes "heap_ok sz hs" and "1 \<le> i" and "i \<le> sz"
  shows "expiry hs 1 \<le> expiry hs i"
  using assms(2,3)
proof (induction i rule: less_induct)
  case (less i)
  show ?case
  proof (cases "i = 1")
    case False
    with less.prems have "i div 2 < i" "1 \<le> i div 2" "i div 2 \<le> sz" "i \<in> {2..sz}" by auto
    with less.IH have "expiry hs 1 \<le> expiry hs (i div 2)" by blast
    also have "\<dots> \<le> expiry hs i"
      using assms(1) \<open>i \<in> {2..sz}\<close> unfolding heap_ok_def by blast
    finally show ?thesis .
  qed simp
qed

lemma heap_ok_inj: "heap_ok sz hs \<Longrightarrow> inj_on (fst hs) {1..sz}"
  unfolding heap_ok_def by (metis inj_onI)

section \<open>The hole\<close>

text \<open>
  While an element \<open>t\<close> travels, its slot \<open>pos\<close> holds a stale entry: \<open>filled\<close> is the heap with
  the element written back.
\<close>

definition filled :: "nat \<Rightarrow> nat \<Rightarrow> slots \<Rightarrow> nat \<Rightarrow> nat" where
  "filled t pos hs = (fst hs)(pos := t)"

abbreviation expf :: "nat \<Rightarrow> nat \<Rightarrow> slots \<Rightarrow> nat \<Rightarrow> int" where
  "expf t pos hs i \<equiv> expires (snd hs (filled t pos hs i))"

definition hole :: "nat \<Rightarrow> nat \<Rightarrow> nat \<Rightarrow> slots \<Rightarrow> bool" where
  "hole sz t pos hs \<longleftrightarrow> pos \<in> {1..sz} \<and> inj_on (filled t pos hs) {1..sz}
     \<and> (\<forall>i\<in>{1..sz} - {pos}. heap_offset (snd hs (fst hs i)) = i)"

text \<open>Moving the entry of another slot into the hole moves the hole to that slot.\<close>

lemma filled_move:
  assumes "q \<noteq> pos"
  shows "filled t q (slot pos (fst hs q) hs) = filled t pos hs \<circ> (id(pos := q, q := pos))"
  using assms by (auto simp: filled_def fun_eq_iff)

lemma hole_move:
  assumes "hole sz t pos hs" and "q \<in> {1..sz}" and "q \<noteq> pos"
  shows "hole sz t q (slot pos (fst hs q) hs)"
    and "filled t q (slot pos (fst hs q) hs) ` {1..sz} = filled t pos hs ` {1..sz}"
    and "moved (filled t pos hs ` {1..sz}) (snd hs) (snd (slot pos (fst hs q) hs))"
proof -
  let ?w = "id(pos := q, q := pos)"
  from assms(1) have pos: "pos \<in> {1..sz}" and inj: "inj_on (filled t pos hs) {1..sz}"
    and off: "\<forall>i\<in>{1..sz} - {pos}. heap_offset (snd hs (fst hs i)) = i"
    by (simp_all add: hole_def)
  have w: "?w ` {1..sz} = {1..sz}" "inj_on ?w {1..sz}"
    using pos assms(2) by (auto simp: inj_on_def image_iff split: if_splits)
  show img: "filled t q (slot pos (fst hs q) hs) ` {1..sz} = filled t pos hs ` {1..sz}"
    unfolding filled_move [OF assms(3)] using w(1) by (metis image_comp)
  have "inj_on (filled t q (slot pos (fst hs q) hs)) {1..sz}"
    unfolding filled_move [OF assms(3)] using w inj by (intro comp_inj_on) simp_all
  moreover have "heap_offset (snd (slot pos (fst hs q) hs) (fst (slot pos (fst hs q) hs) i)) = i"
    if i: "i \<in> {1..sz} - {q}" for i
  proof (cases "i = pos")
    case False
    have "filled t pos hs i \<noteq> filled t pos hs q"
      using inj i assms(2) by (auto dest: inj_onD)
    with False assms(3) have "fst hs i \<noteq> fst hs q" by (simp add: filled_def)
    with False i off show ?thesis by simp
  qed simp
  ultimately show "hole sz t q (slot pos (fst hs q) hs)"
    using assms(2) by (simp add: hole_def)
  have "fst hs q \<in> filled t pos hs ` {1..sz}"
    using assms(2,3) by (auto simp: filled_def)
  then show "moved (filled t pos hs ` {1..sz}) (snd hs) (snd (slot pos (fst hs q) hs))"
    by (rule moved_slot)
qed

text \<open>Writing the element back into the hole of an ordered heap makes a heap.\<close>

lemma hole_close:
  assumes "hole sz t pos hs" and "\<forall>i\<in>{2..sz}. expf t pos hs (i div 2) \<le> expf t pos hs i"
  shows "heap_ok sz (slot pos t hs)" and "in_heap sz (slot pos t hs) = filled t pos hs ` {1..sz}"
    and "moved (filled t pos hs ` {1..sz}) (snd hs) (snd (slot pos t hs))"
proof -
  from assms(1) have pos: "pos \<in> {1..sz}" and inj: "inj_on (filled t pos hs) {1..sz}"
    and off: "\<forall>i\<in>{1..sz} - {pos}. heap_offset (snd hs (fst hs i)) = i"
    by (simp_all add: hole_def)
  have "heap_offset (snd (slot pos t hs) (fst (slot pos t hs) i)) = i" if i: "i \<in> {1..sz}" for i
  proof (cases "i = pos")
    case False
    have "filled t pos hs i \<noteq> filled t pos hs pos"
      using inj i pos False by (auto dest: inj_onD)
    with False have "fst hs i \<noteq> t" by (simp add: filled_def)
    with False i off show ?thesis by simp
  qed simp
  moreover have "expiry (slot pos t hs) i = expf t pos hs i" for i
    by (simp add: expiry_def filled_def)
  ultimately show "heap_ok sz (slot pos t hs)"
    using assms(2) by (simp add: heap_ok_def)
  show "in_heap sz (slot pos t hs) = filled t pos hs ` {1..sz}"
    by (simp add: in_heap_def filled_def)
  have "t \<in> filled t pos hs ` {1..sz}"
    using pos by (force simp: filled_def)
  then show "moved (filled t pos hs ` {1..sz}) (snd hs) (snd (slot pos t hs))"
    by (rule moved_slot)
qed

section \<open>Sinking\<close>

text \<open>
  The order while an element sinks: everything is in order but the edges below the hole,
  whose children do not expire before its parent.
\<close>

definition sinking :: "nat \<Rightarrow> nat \<Rightarrow> nat \<Rightarrow> slots \<Rightarrow> bool" where
  "sinking sz t pos hs \<longleftrightarrow>
     (\<forall>i\<in>{2..sz}. i div 2 \<noteq> pos \<longrightarrow> expf t pos hs (i div 2) \<le> expf t pos hs i)
     \<and> (\<forall>i\<in>{2..sz}. i div 2 = pos \<and> 2 \<le> pos \<longrightarrow> expf t pos hs (pos div 2) \<le> expf t pos hs i)"

lemma expf_move:
  assumes "q \<noteq> pos"
  shows "expf t q (slot pos (fst hs q) hs) i = expf t pos hs ((id(pos := q, q := pos)) i)"
  by (simp only: filled_move [OF assms] slot_simps o_apply)

lemma sinking_move:
  assumes s: "sinking sz t pos hs" and pos: "1 \<le> pos"
    and q: "q \<in> {2 * pos, 2 * pos + 1}" "q \<le> sz"
    and least: "\<forall>i\<in>{2..sz}. i div 2 = pos \<longrightarrow> expf t pos hs q \<le> expf t pos hs i"
    and lt: "expf t pos hs q \<le> expires (snd hs t)"
  shows "sinking sz t q (slot pos (fst hs q) hs)"
proof -
  have qp: "q \<noteq> pos" "q div 2 = pos" "q \<in> {2..sz}" using q pos by auto
  let ?e = "expf t pos hs" and ?w = "id(pos := q, q := pos)"
  have t: "?e pos = expires (snd hs t)" by (simp add: filled_def)
  have "?e (?w (i div 2)) \<le> ?e (?w i)" if i: "i \<in> {2..sz}" "i div 2 \<noteq> q" for i
  proof -
    consider "i = q" | "i = pos" | "i \<noteq> q" "i \<noteq> pos" by blast
    then show ?thesis
    proof cases
      case 1
      then show ?thesis using qp lt t by simp
    next
      case 2
      then have "i div 2 \<noteq> pos" using pos by simp
      with 2 i qp s show ?thesis by (simp add: sinking_def)
    next
      case 3
      show ?thesis
      proof (cases "i div 2 = pos")
        case True
        with 3 qp least i show ?thesis by simp
      next
        case False
        then have "?e (i div 2) \<le> ?e i" using s i(1) unfolding sinking_def by blast
        with 3 False i(2) show ?thesis by simp
      qed
    qed
  qed
  moreover have "?e (?w (q div 2)) \<le> ?e (?w i)" if i: "i \<in> {2..sz}" "i div 2 = q" for i
  proof -
    have "i \<noteq> q" "i \<noteq> pos" "i div 2 \<noteq> pos" using i qp pos by auto
    moreover from this s i have "?e (i div 2) \<le> ?e i" unfolding sinking_def by blast
    ultimately show ?thesis using i qp by simp
  qed
  ultimately show ?thesis
    unfolding sinking_def expf_move [OF qp(1)] by blast
qed

lemma expf_other: "i \<noteq> pos \<Longrightarrow> expf t pos hs i = expiry hs i"
  by (simp add: filled_def expiry_def)

lemma expf_hole: "expf t pos hs pos = expires (snd hs t)"
  by (simp add: filled_def)

text \<open>The sinking element may stay where it is no larger than its children.\<close>

lemma sinking_stop:
  assumes "sinking sz t pos hs" and "\<And>i. i \<in> {2..sz} \<Longrightarrow> i div 2 = pos \<Longrightarrow> expires (snd hs t) \<le> expiry hs i"
    and "i \<in> {2..sz}"
  shows "expf t pos hs (i div 2) \<le> expf t pos hs i"
proof (cases "i div 2 = pos")
  case True
  then have "i \<noteq> pos" using assms(3) by auto
  with True assms(2,3) show ?thesis by (simp add: expf_other expf_hole del: One_nat_def)
next
  case False
  with assms(1,3) show ?thesis by (simp add: sinking_def)
qed

text \<open>Otherwise it changes places with the smaller child.\<close>

lemma sinking_go:
  assumes "sinking sz t pos hs" and "1 \<le> pos" and "q \<in> {2 * pos, 2 * pos + 1}" "q \<le> sz"
    and "\<And>i. i \<in> {2..sz} \<Longrightarrow> i div 2 = pos \<Longrightarrow> expiry hs q \<le> expiry hs i" and "expiry hs q \<le> expires (snd hs t)"
  shows "sinking sz t q (slot pos (fst hs q) hs)"
proof (rule sinking_move [OF assms(1-4)])
  have q: "expf t pos hs q = expiry hs q" using assms(2,3) by (intro expf_other) auto
  show "\<forall>i\<in>{2..sz}. i div 2 = pos \<longrightarrow> expf t pos hs q \<le> expf t pos hs i"
  proof (intro ballI impI)
    fix i assume i: "i \<in> {2..sz}" "i div 2 = pos"
    then have "expf t pos hs i = expiry hs i" by (intro expf_other) auto
    with assms(5) [OF i] q show "expf t pos hs q \<le> expf t pos hs i" by simp
  qed
  show "expf t pos hs q \<le> expires (snd hs t)" using assms(6) q by simp
qed

lemma sink_result:
  assumes "hole sz t pos hs" and "sinking sz t pos hs" and "sink sz t pos hs = (p, hs')"
  shows "hole sz t p hs' \<and> (\<forall>i\<in>{2..sz}. expf t p hs' (i div 2) \<le> expf t p hs' i)
    \<and> filled t p hs' ` {1..sz} = filled t pos hs ` {1..sz}
    \<and> moved (filled t pos hs ` {1..sz}) (snd hs) (snd hs')"
  using assms
proof (induction sz t pos hs rule: sink.induct)
  case (1 sz t pos hs)
  let ?nxt = "2 * pos"
  let ?q = "if ?nxt + 1 \<le> sz \<and> expiry hs (?nxt + 1) < expiry hs ?nxt then ?nxt + 1 else ?nxt"
  from "1.prems"(1) have pos: "1 \<le> pos" "pos \<le> sz" by (simp_all add: hole_def)
  have least: "expiry hs ?q \<le> expiry hs i" if "i \<in> {2..sz}" "i div 2 = pos" for i
  proof -
    have "i = ?nxt \<or> i = ?nxt + 1" using that(2) by auto
    then show ?thesis using that(1) by auto
  qed
  show ?case
  proof (cases "sz < ?nxt \<or> expiry hs ?q > expires (snd hs t)")
    case True
    then have "sink sz t pos hs = (pos, hs)"
      using pos by (subst sink.simps) (auto simp only: Let_def if_True if_False simp_thms, simp)
    moreover have "expires (snd hs t) \<le> expiry hs i" if "i \<in> {2..sz}" "i div 2 = pos" for i
      using True least [OF that] that by auto
    ultimately show ?thesis using "1.prems" sinking_stop [OF "1.prems"(2)] by auto
  next
    case False
    let ?hs = "slot pos (fst hs ?q) hs"
    have go: "\<not> (pos = 0 \<or> sz < ?nxt)" "\<not> expiry hs ?q > expires (snd hs t)" using False pos by auto
    have q: "?q \<in> {?nxt, ?nxt + 1}" "?q \<le> sz" "?q \<noteq> pos" "?q \<in> {1..sz}" using go pos by auto
    have rec: "sink sz t ?q ?hs = (p, hs')"
      using "1.prems"(3) go by (subst (asm) sink.simps) (simp only: Let_def if_True if_False simp_thms)
    note mv = hole_move [OF "1.prems"(1) q(4,3)]
    have sk: "sinking sz t ?q ?hs"
      using go(2) by (intro sinking_go [OF "1.prems"(2) pos(1) q(1,2) least]) auto
    note ih = "1.IH" [OF refl go(1) refl go(2) mv(1) sk rec, unfolded mv(2)]
    then have "moved (filled t pos hs ` {1..sz}) (snd ?hs) (snd hs')" by blast
    with mv(3) have "moved (filled t pos hs ` {1..sz}) (snd hs) (snd hs')" by (rule moved_trans)
    with ih show ?thesis by simp
  qed
qed

lemma down_heap_result:
  assumes "hole sz t pos hs" and "sinking sz t pos hs" and "fst hs pos = t"
  shows "heap_ok sz (down_heap sz pos hs)" and "in_heap sz (down_heap sz pos hs) = in_heap sz hs"
    and "moved (in_heap sz hs) (snd hs) (snd (down_heap sz pos hs))"
proof -
  obtain p hs' where s: "sink sz t pos hs = (p, hs')" by (cases "sink sz t pos hs")
  from sink_result [OF assms(1,2) s] have h: "hole sz t p hs'"
    "\<forall>i\<in>{2..sz}. expf t p hs' (i div 2) \<le> expf t p hs' i"
    and img: "filled t p hs' ` {1..sz} = filled t pos hs ` {1..sz}"
    and mv: "moved (filled t pos hs ` {1..sz}) (snd hs) (snd hs')" by auto
  have f: "filled t pos hs ` {1..sz} = in_heap sz hs"
    using assms(3) by (simp add: filled_def in_heap_def fun_upd_idem)
  have d: "down_heap sz pos hs = slot p t hs'"
    by (simp add: down_heap_def assms(3) s)
  note c = hole_close [OF h]
  show "heap_ok sz (down_heap sz pos hs)" using c(1) by (simp only: d)
  show "in_heap sz (down_heap sz pos hs) = in_heap sz hs" using c(2) by (simp only: d img f)
  show "moved (in_heap sz hs) (snd hs) (snd (down_heap sz pos hs))"
    using c(3) mv unfolding d img f by (metis moved_trans)
qed

section \<open>Floating\<close>

text \<open>
  The order while an element floats: everything is in order but the edge above the hole,
  whose parent does not expire after the hole's children.
\<close>

definition floating :: "nat \<Rightarrow> nat \<Rightarrow> nat \<Rightarrow> slots \<Rightarrow> bool" where
  "floating sz t pos hs \<longleftrightarrow>
     (\<forall>i\<in>{2..sz}. i \<noteq> pos \<longrightarrow> expf t pos hs (i div 2) \<le> expf t pos hs i)
     \<and> (\<forall>i\<in>{2..sz}. i div 2 = pos \<and> 2 \<le> pos \<longrightarrow> expf t pos hs (pos div 2) \<le> expf t pos hs i)"

lemma floating_move:
  assumes f: "floating sz t pos hs" and pos: "2 \<le> pos" "pos \<le> sz"
    and lt: "expires (snd hs t) < expiry hs (pos div 2)"
  shows "floating sz t (pos div 2) (slot pos (fst hs (pos div 2)) hs)"
proof -
  let ?q = "pos div 2"
  have qp: "?q \<noteq> pos" "?q < pos" "?q \<in> {1..sz}" using pos by auto
  let ?e = "expf t pos hs" and ?w = "id(pos := ?q, ?q := pos)"
  have t: "?e pos = expires (snd hs t)" "?e ?q = expiry hs ?q"
    using qp by (simp_all add: filled_def expiry_def)
  have ord: "?e (i div 2) \<le> ?e i" if "i \<in> {2..sz}" "i \<noteq> pos" for i
    using f that by (simp add: floating_def)
  have kid: "?e ?q \<le> ?e i" if "i \<in> {2..sz}" "i div 2 = pos" for i
    using f that pos by (simp add: floating_def)
  have "?e (?w (i div 2)) \<le> ?e (?w i)" if i: "i \<in> {2..sz}" "i \<noteq> ?q" for i
  proof -
    consider "i = pos" | "i \<noteq> pos" "i div 2 = pos" | "i \<noteq> pos" "i div 2 = ?q"
      | "i \<noteq> pos" "i div 2 \<noteq> pos" "i div 2 \<noteq> ?q" by blast
    then show ?thesis
    proof cases
      case 1
      then show ?thesis using qp lt t by simp
    next
      case 2
      then show ?thesis using qp i kid by auto
    next
      case 3
      with ord [OF i(1)] have "?e ?q \<le> ?e i" by simp
      with 3 show ?thesis using qp i lt t by auto
    next
      case 4
      then show ?thesis using i ord by auto
    qed
  qed
  moreover have "?e (?w (?q div 2)) \<le> ?e (?w i)" if i: "i \<in> {2..sz}" "i div 2 = ?q" "2 \<le> ?q" for i
  proof -
    have "?q div 2 \<noteq> ?q" "?q div 2 \<noteq> pos" "i \<noteq> ?q" using i qp by auto
    moreover have "?e (?q div 2) \<le> ?e ?q" using ord [of ?q] qp i by auto
    moreover have "?e ?q \<le> ?e i" if "i \<noteq> pos" using ord [of i] i that by auto
    ultimately show ?thesis by (cases "i = pos") auto
  qed
  ultimately show ?thesis
    unfolding floating_def expf_move [OF qp(1)] by blast
qed

lemma float_up_result:
  assumes "hole sz t pos hs" and "floating sz t pos hs" and "float_up t pos hs = (p, hs')"
  shows "hole sz t p hs' \<and> (\<forall>i\<in>{2..sz}. expf t p hs' (i div 2) \<le> expf t p hs' i)
    \<and> filled t p hs' ` {1..sz} = filled t pos hs ` {1..sz}
    \<and> moved (filled t pos hs ` {1..sz}) (snd hs) (snd hs')"
  using assms
proof (induction t pos hs rule: float_up.induct)
  case (1 t pos hs)
  let ?q = "pos div 2"
  from "1.prems"(1) have pos: "1 \<le> pos" "pos \<le> sz" by (simp_all add: hole_def)
  show ?case
  proof (cases "pos > 1 \<and> expires (snd hs t) < expiry hs ?q")
    case True
    let ?hs = "slot pos (fst hs ?q) hs"
    have qp: "?q \<noteq> pos" "?q \<in> {1..sz}" using True pos by auto
    have rec: "float_up t ?q ?hs = (p, hs')"
      using "1.prems"(3) True by (subst (asm) float_up.simps) simp
    note mv = hole_move [OF "1.prems"(1) qp(2,1)]
    have "floating sz t ?q ?hs"
      using floating_move [OF "1.prems"(2)] True pos by simp
    note ih = "1.IH" [OF True mv(1) this rec, unfolded mv(2)]
    then have "moved (filled t pos hs ` {1..sz}) (snd ?hs) (snd hs')" by blast
    with mv(3) have "moved (filled t pos hs ` {1..sz}) (snd hs) (snd hs')" by (rule moved_trans)
    with ih show ?thesis by simp
  next
    case False
    then have "(p, hs') = (pos, hs)"
      using "1.prems"(3) unfolding float_up.simps [of t pos hs] if_not_P [OF False] by simp
    moreover have "expf t pos hs (i div 2) \<le> expf t pos hs i" if i: "i \<in> {2..sz}" for i
    proof (cases "i = pos")
      case True
      then have "?q \<noteq> pos" "expiry hs ?q \<le> expires (snd hs t)" using False i by auto
      with True show ?thesis by (simp add: filled_def expiry_def)
    next
      case False
      with "1.prems"(2) i show ?thesis by (simp add: floating_def)
    qed
    ultimately show ?thesis using "1.prems"(1) by simp
  qed
qed

lemma up_heap_result:
  assumes "hole sz t pos hs" and "floating sz t pos hs" and "fst hs pos = t"
  shows "heap_ok sz (up_heap pos hs)" and "in_heap sz (up_heap pos hs) = in_heap sz hs"
    and "moved (in_heap sz hs) (snd hs) (snd (up_heap pos hs))"
proof -
  obtain p hs' where s: "float_up t pos hs = (p, hs')" by (cases "float_up t pos hs")
  from float_up_result [OF assms(1,2) s] have h: "hole sz t p hs'"
    "\<forall>i\<in>{2..sz}. expf t p hs' (i div 2) \<le> expf t p hs' i"
    and img: "filled t p hs' ` {1..sz} = filled t pos hs ` {1..sz}"
    and mv: "moved (filled t pos hs ` {1..sz}) (snd hs) (snd hs')" by auto
  have f: "filled t pos hs ` {1..sz} = in_heap sz hs"
    using assms(3) by (simp add: filled_def in_heap_def fun_upd_idem)
  have d: "up_heap pos hs = slot p t hs'"
    by (simp add: up_heap_def assms(3) s)
  note c = hole_close [OF h]
  show "heap_ok sz (up_heap pos hs)" using c(1) by (simp only: d)
  show "in_heap sz (up_heap pos hs) = in_heap sz hs" using c(2) by (simp only: d img f)
  show "moved (in_heap sz hs) (snd hs) (snd (up_heap pos hs))"
    using c(3) mv unfolding d img f by (metis moved_trans)
qed

section \<open>Adding and removing\<close>

text \<open>A new element at the end of the heap, floated up.\<close>

lemma heap_insert:
  assumes ok: "heap_ok sz hs" and new: "t \<notin> in_heap sz hs"
  defines "hs' \<equiv> up_heap (sz + 1) (slot (sz + 1) t hs)"
  shows "heap_ok (sz + 1) hs'" and "in_heap (sz + 1) hs' = insert t (in_heap sz hs)"
    and "moved (insert t (in_heap sz hs)) (snd hs) (snd hs')"
proof -
  let ?hs = "slot (sz + 1) t hs"
  have fl: "filled t (sz + 1) ?hs = fst ?hs" by (auto simp: filled_def)
  have seg: "{1..sz + 1} = insert (sz + 1) {1..sz}" by auto
  have ne: "fst hs i \<noteq> t" if "i \<in> {1..sz}" for i
    using new that by (auto simp: in_heap_def)
  have "inj_on (fst ?hs) {1..sz + 1}"
  proof (rule inj_onI)
    fix x y
    assume "x \<in> {1..sz + 1}" "y \<in> {1..sz + 1}" "fst ?hs x = fst ?hs y"
    with heap_ok_inj [OF ok] ne show "x = y"
      unfolding seg by (auto dest: inj_onD split: if_splits)
  qed
  moreover have "heap_offset (snd ?hs (fst ?hs i)) = i" if "i \<in> {1..sz + 1} - {sz + 1}" for i
    using that ok ne by (auto simp: heap_ok_def)
  ultimately have hole: "hole (sz + 1) t (sz + 1) ?hs"
    unfolding hole_def fl by simp
  have "expf t (sz + 1) ?hs (i div 2) \<le> expf t (sz + 1) ?hs i"
    if i: "i \<in> {2..sz + 1}" "i \<noteq> sz + 1" for i
  proof -
    have "i \<in> {2..sz}" "i div 2 \<noteq> sz + 1" using i by auto
    with ok i show ?thesis unfolding fl by (simp add: heap_ok_def expiry_def)
  qed
  then have fl': "floating (sz + 1) t (sz + 1) ?hs"
    by (auto simp: floating_def)
  have inh: "in_heap (sz + 1) ?hs = insert t (in_heap sz hs)"
    unfolding in_heap_def seg by (auto simp: image_iff)
  have top: "fst ?hs (sz + 1) = t" by simp
  note r = up_heap_result [OF hole fl' top, unfolded inh]
  show "heap_ok (sz + 1) hs'" "in_heap (sz + 1) hs' = insert t (in_heap sz hs)"
    unfolding hs'_def by (rule r(1), rule r(2))
  have "moved (insert t (in_heap sz hs)) (snd hs) (snd ?hs)" by (rule moved_slot) simp
  from this r(3) show "moved (insert t (in_heap sz hs)) (snd hs) (snd hs')"
    unfolding hs'_def by (rule moved_trans)
qed

text \<open>The last element replaces the removed one and travels up or down.\<close>

lemma heap_delete_last:
  assumes "heap_ok sz hs" and "1 \<le> sz"
  shows "heap_ok (sz - 1) hs" and "in_heap (sz - 1) hs = in_heap sz hs - {fst hs sz}"
proof -
  show "heap_ok (sz - 1) hs" using assms(1) by (auto simp: heap_ok_def)
  have "{1..sz} = insert sz {1..sz - 1}" using assms(2) by auto
  moreover have "fst hs i \<noteq> fst hs sz" if "i \<in> {1..sz - 1}" for i
    using heap_ok_inj [OF assms(1)] that by (auto dest!: inj_onD)
  ultimately show "in_heap (sz - 1) hs = in_heap sz hs - {fst hs sz}"
    unfolding in_heap_def by auto
qed

lemma heap_replace_hole:
  assumes ok: "heap_ok sz hs" and p: "1 \<le> pos" "pos < sz"
  defines "u \<equiv> fst hs sz" and "hs1 \<equiv> slot pos (fst hs sz) hs"
  shows "hole (sz - 1) u pos hs1" and "in_heap (sz - 1) hs1 = in_heap sz hs - {fst hs pos}"
proof -
  have inj: "inj_on (fst hs) {1..sz}" by (rule heap_ok_inj [OF ok])
  have fl: "filled u pos hs1 = fst hs1" by (auto simp: filled_def hs1_def u_def)
  have ne: "fst hs i \<noteq> u" if "i \<in> {1..sz - 1}" for i
    using inj that p unfolding u_def by (auto dest!: inj_onD)
  have "inj_on (fst hs1) {1..sz - 1}"
  proof (rule inj_onI)
    fix x y
    assume xy: "x \<in> {1..sz - 1}" "y \<in> {1..sz - 1}" "fst hs1 x = fst hs1 y"
    then have "x \<in> {1..sz}" "y \<in> {1..sz}" by auto
    with xy ne inj show "x = y"
      by (auto simp: hs1_def u_def dest: inj_onD split: if_splits)
  qed
  moreover have "heap_offset (snd hs1 (fst hs1 i)) = i" if "i \<in> {1..sz - 1} - {pos}" for i
    using that ok ne [of i] by (auto simp: hs1_def u_def heap_ok_def)
  ultimately show "hole (sz - 1) u pos hs1"
    using p by (auto simp: hole_def fl)
  show "in_heap (sz - 1) hs1 = in_heap sz hs - {fst hs pos}"
  proof (rule set_eqI)
    fix x
    have "x \<in> in_heap (sz - 1) hs1 \<longleftrightarrow> x = u \<or> (\<exists>i\<in>{1..sz - 1}. i \<noteq> pos \<and> x = fst hs i)"
      using p by (auto simp: in_heap_def hs1_def u_def image_iff)
    also have "\<dots> \<longleftrightarrow> (\<exists>i\<in>{1..sz}. i \<noteq> pos \<and> x = fst hs i)"
    proof -
      have "{1..sz} = insert sz {1..sz - 1}" using p by auto
      then show ?thesis using p unfolding u_def by auto
    qed
    also have "\<dots> \<longleftrightarrow> x \<in> in_heap sz hs - {fst hs pos}"
      using inj p by (auto simp: in_heap_def dest: inj_onD)
    finally show "x \<in> in_heap (sz - 1) hs1 \<longleftrightarrow> x \<in> in_heap sz hs - {fst hs pos}" .
  qed
qed

text \<open>After the last element has replaced the one at \<open>pos\<close>, only the order at \<open>pos\<close> is in doubt.\<close>

lemma replaced_order:
  assumes ok: "heap_ok sz hs" and p: "1 \<le> pos" "pos < sz" and i: "i \<in> {2..sz - 1}"
  defines "hs1 \<equiv> slot pos (fst hs sz) hs"
  shows "i \<noteq> pos \<Longrightarrow> i div 2 \<noteq> pos \<Longrightarrow> expiry hs1 (i div 2) \<le> expiry hs1 i"
    and "i div 2 = pos \<Longrightarrow> 2 \<le> pos \<Longrightarrow> expiry hs1 (pos div 2) \<le> expiry hs1 i"
proof -
  have e: "j \<noteq> pos \<Longrightarrow> expiry hs1 j = expiry hs j" for j by (simp add: hs1_def expiry_def)
  have ord: "expiry hs (j div 2) \<le> expiry hs j" if "j \<in> {2..sz}" for j
    using ok that by (simp add: heap_ok_def)
  have sz: "i \<in> {2..sz}" using i by auto
  show "expiry hs1 (i div 2) \<le> expiry hs1 i" if "i \<noteq> pos" "i div 2 \<noteq> pos"
    using ord [OF sz] that by (simp add: e)
  show "expiry hs1 (pos div 2) \<le> expiry hs1 i" if "i div 2 = pos" "2 \<le> pos"
  proof -
    have "pos \<in> {2..sz}" using that p by auto
    from ord [OF this] ord [OF sz] that have "expiry hs (pos div 2) \<le> expiry hs i" by (metis order_trans)
    moreover have "pos div 2 \<noteq> pos" "i \<noteq> pos" using that by auto
    ultimately show ?thesis by (simp add: e)
  qed
qed

lemma heap_delete:
  assumes ok: "heap_ok sz hs" and p: "1 \<le> pos" "pos < sz"
  defines "hs1 \<equiv> slot pos (fst hs sz) hs"
  defines "hs2 \<equiv> (if pos > 1 \<and> expiry hs1 pos < expiry hs1 (pos div 2)
                  then up_heap pos hs1 else down_heap (sz - 1) pos hs1)"
  shows "heap_ok (sz - 1) hs2" and "in_heap (sz - 1) hs2 = in_heap sz hs - {fst hs pos}"
    and "moved (in_heap sz hs) (snd hs) (snd hs2)"
proof -
  let ?u = "fst hs sz"
  note h = heap_replace_hole [OF ok p, folded hs1_def]
  have top: "fst hs1 pos = ?u" by (simp add: hs1_def)
  have e: "expf ?u pos hs1 i = expiry hs1 i" for i by (simp add: filled_def hs1_def expiry_def)
  note rest = replaced_order(1) [OF ok p, folded hs1_def] and gp = replaced_order(2) [OF ok p, folded hs1_def]
  have "heap_ok (sz - 1) hs2 \<and> in_heap (sz - 1) hs2 = in_heap (sz - 1) hs1
    \<and> moved (in_heap (sz - 1) hs1) (snd hs1) (snd hs2)"
  proof (cases "pos > 1 \<and> expiry hs1 pos < expiry hs1 (pos div 2)")
    case True
    have "expiry hs1 (i div 2) \<le> expiry hs1 i" if "i \<in> {2..sz - 1}" "i \<noteq> pos" for i
      using rest [OF that] gp [OF that(1)] True by (cases "i div 2 = pos") auto
    with gp have "floating (sz - 1) ?u pos hs1" unfolding floating_def e by blast
    from up_heap_result [OF h(1) this top] True show ?thesis by (simp add: hs2_def)
  next
    case False
    have "expiry hs1 (i div 2) \<le> expiry hs1 i" if "i \<in> {2..sz - 1}" "i div 2 \<noteq> pos" for i
      using rest [OF that(1) _ that(2)] False that by (cases "i = pos") auto
    with gp have "sinking (sz - 1) ?u pos hs1" unfolding sinking_def e by blast
    from down_heap_result [OF h(1) this top] False show ?thesis by (auto simp: hs2_def)
  qed
  then have r: "heap_ok (sz - 1) hs2" "in_heap (sz - 1) hs2 = in_heap (sz - 1) hs1"
    "moved (in_heap (sz - 1) hs1) (snd hs1) (snd hs2)" by blast+
  show "heap_ok (sz - 1) hs2" by (rule r(1))
  show "in_heap (sz - 1) hs2 = in_heap sz hs - {fst hs pos}" by (simp only: r(2) h(2))
  have "?u \<in> in_heap sz hs" using p by (auto simp: in_heap_def)
  then have "moved (in_heap sz hs) (snd hs) (snd hs1)"
    unfolding hs1_def by (rule moved_slot)
  moreover have "moved (in_heap sz hs) (snd hs1) (snd hs2)"
    using r(3) by (rule moved_mono) (simp only: h(2) Diff_subset)
  ultimately show "moved (in_heap sz hs) (snd hs) (snd hs2)" by (rule moved_trans)
qed

end
