(* ===== verification/Timer_Inv.thy ===== *)
theory Timer_Inv
  imports Timer_Heap
begin

text \<open>
  The invariant of the timer queues and its preservation by every operation of
  common/timer.c, together with the effect of each operation on the timers: an operation on
  a timer changes that timer only, whatever it does to the heap and the lists.
\<close>

section \<open>Stores\<close>

lemma upd_tm_simps [simp]:
  "tm (upd_tm t f s) = (tm s)(t := f (tm s t))" "ts (upd_tm t f s) = ts s"
  "timer_deadline (upd_tm t f s) = timer_deadline s" "t_softirqs (upd_tm t f s) = t_softirqs s"
  "t_fault (upd_tm t f s) = t_fault s"
  by (simp_all add: upd_tm_def)

lemma upd_ts_simps [simp]:
  "tm (upd_ts c g s) = tm s" "ts (upd_ts c g s) = (ts s)(c := g (ts s c))"
  "timer_deadline (upd_ts c g s) = timer_deadline s" "t_softirqs (upd_ts c g s) = t_softirqs s"
  "t_fault (upd_ts c g s) = t_fault s"
  by (simp_all add: upd_ts_def)

lemma raise_timer_simps [simp]:
  "tm (raise_timer c s) = tm s" "ts (raise_timer c s) = ts s"
  "timer_deadline (raise_timer c s) = timer_deadline s"
  "t_softirqs (raise_timer c s) = insert c (t_softirqs s)" "t_fault (raise_timer c s) = t_fault s"
  by (simp_all add: raise_timer_def)

lemma set_slots_simps [simp]:
  "tm (set_slots c sz hs s) = snd hs"
  "ts (set_slots c sz hs s) = (ts s)(c := (ts s c)\<lparr>heap := fst hs, heap_size := sz mod 2 ^ 16\<rparr>)"
  "timer_deadline (set_slots c sz hs s) = timer_deadline s"
  "t_softirqs (set_slots c sz hs s) = t_softirqs s" "t_fault (set_slots c sz hs s) = t_fault s"
  by (simp_all add: set_slots_def)

section \<open>The invariant\<close>

definition heap_set :: "tstate \<Rightarrow> nat \<Rightarrow> nat set" where
  "heap_set s c = in_heap (heap_size (ts s c)) (slots_of c s)"

text \<open>The limits that growing from the empty dummy heap can reach.\<close>

definition limit_ok :: "nat \<Rightarrow> bool" where
  "limit_ok l \<longleftrightarrow> l \<in> {0, 15, 255, 4095, 65535}"

lemma limit_ok_less: "limit_ok l \<Longrightarrow> l < 65536"
  by (auto simp: limit_ok_def)

definition queues_ok :: "tstate \<Rightarrow> bool" where
  "queues_ok s \<longleftrightarrow>
     (\<forall>c. heap_ok (heap_size (ts s c)) (slots_of c s)
        \<and> heap_size (ts s c) \<le> heap_limit (ts s c) \<and> limit_ok (heap_limit (ts s c))
        \<and> distinct (t_list (ts s c)) \<and> distinct (t_inactive (ts s c))
        \<and> sorted_wrt (\<lambda>a b. expires (tm s a) \<le> expires (tm s b)) (t_list (ts s c)))"

text \<open>A timer is in the structure its status names, on its CPU, and nowhere else.\<close>

definition placed :: "tstate \<Rightarrow> bool" where
  "placed s \<longleftrightarrow>
     (\<forall>c t. (t \<in> heap_set s c \<longleftrightarrow> status (tm s t) = TIMER_STATUS_in_heap \<and> t_cpu (tm s t) = c)
        \<and> (t \<in> set (t_list (ts s c)) \<longleftrightarrow> status (tm s t) = TIMER_STATUS_in_list \<and> t_cpu (tm s t) = c)
        \<and> (t \<in> set (t_inactive (ts s c)) \<longleftrightarrow> status (tm s t) = TIMER_STATUS_inactive \<and> t_cpu (tm s t) = c))"

definition cpus_ok :: "tstate \<Rightarrow> bool" where
  "cpus_ok s \<longleftrightarrow>
     (\<forall>t. (status (tm s t) \<in> {TIMER_STATUS_inactive, TIMER_STATUS_in_heap, TIMER_STATUS_in_list}
             \<longrightarrow> t_cpu (tm s t) < TIMER_CPU_status_killed)
        \<and> (status (tm s t) = TIMER_STATUS_killed \<longrightarrow> t_cpu (tm s t) = TIMER_CPU_status_killed))"

definition timers_ok :: "tstate \<Rightarrow> bool" where
  "timers_ok s \<longleftrightarrow> queues_ok s \<and> placed s \<and> cpus_ok s"

text \<open>
  A timer without its position: which structure holds an active timer, and in which slot,
  is the business of this module alone.
\<close>

definition core :: "tstate \<Rightarrow> nat \<Rightarrow> timer" where
  "core s t = (tm s t)\<lparr>heap_offset := 0,
     status := (if status (tm s t) = TIMER_STATUS_in_list then TIMER_STATUS_in_heap
                else status (tm s t))\<rparr>"

text \<open>
  \<open>timer_step t f s s'\<close>: the step keeps the invariant, raises no fault, and changes the timer
  \<open>t\<close> by \<open>f\<close> and no other.
\<close>

definition timer_step :: "nat \<Rightarrow> (timer \<Rightarrow> timer) \<Rightarrow> tstate \<Rightarrow> tstate \<Rightarrow> bool" where
  "timer_step t f s s' \<longleftrightarrow>
     timers_ok s' \<and> core s' = (core s)(t := f (core s t)) \<and> t_fault s' = t_fault s
     \<and> timer_deadline s' = timer_deadline s \<and> t_softirqs s \<subseteq> t_softirqs s'
     \<and> (\<forall>c. t_running (ts s' c) = t_running (ts s c))"

lemma core_fields [simp]:
  "expires (core s t) = expires (tm s t)" "t_cpu (core s t) = t_cpu (tm s t)"
  "status (core s t) = TIMER_STATUS_in_heap \<longleftrightarrow> active_timer t s"
  "status (core s t) = TIMER_STATUS_inactive \<longleftrightarrow> status (tm s t) = TIMER_STATUS_inactive"
  "status (core s t) = TIMER_STATUS_killed \<longleftrightarrow> status (tm s t) = TIMER_STATUS_killed"
  "status (core s t) = TIMER_STATUS_invalid \<longleftrightarrow> status (tm s t) = TIMER_STATUS_invalid"
  by (simp_all add: core_def active_timer_def)

lemma timer_step_trans:
  assumes "timer_step t f s s'" and "timer_step t g s' s''"
  shows "timer_step t (g \<circ> f) s s''"
  using assms by (auto simp: timer_step_def)

lemma timer_step_cong:
  assumes "timer_step t f s s'" and "f (core s t) = g (core s t)"
  shows "timer_step t g s s'"
  using assms by (simp add: timer_step_def)

lemma timer_step_ok: "timer_step t f s s' \<Longrightarrow> timers_ok s'"
  by (simp add: timer_step_def)

lemma timer_step_core: "timer_step t f s s' \<Longrightarrow> core s' x = (if x = t then f (core s t) else core s x)"
  by (simp add: timer_step_def)

lemma moved_core:
  assumes "moved X (tm s) (tm s')"
  shows "core s' = core s"
proof
  fix x
  have "(tm s' x)\<lparr>heap_offset := 0\<rparr> = (tm s x)\<lparr>heap_offset := 0\<rparr>"
    using assms by (simp add: moved_def)
  then have "((tm s' x)\<lparr>heap_offset := 0\<rparr>)\<lparr>status := a\<rparr> = ((tm s x)\<lparr>heap_offset := 0\<rparr>)\<lparr>status := a\<rparr>" for a
    by simp
  with moved_fields(2) [OF assms] show "core s' x = core s x"
    by (simp add: core_def)
qed

text \<open>A heap does not see what happens to timers outside it.\<close>

lemma heap_ok_cong:
  assumes "heap_ok sz (h, f)"
    and "\<And>x. x \<in> in_heap sz (h, f) \<Longrightarrow> heap_offset (g x) = heap_offset (f x) \<and> expires (g x) = expires (f x)"
  shows "heap_ok sz (h, g)"
proof -
  have "heap_offset (g (h i)) = heap_offset (f (h i)) \<and> expires (g (h i)) = expires (f (h i))"
    if "i \<in> {1..sz}" for i
    using assms(2) [of "h i"] that by (auto simp: in_heap_def)
  moreover have "i div 2 \<in> {1..sz}" if "i \<in> {2..sz}" for i using that by auto
  ultimately show ?thesis using assms(1) by (auto simp: heap_ok_def expiry_def)
qed

lemma in_heap_fst: "in_heap sz (h, f) = in_heap sz (h, g)"
  by (simp add: in_heap_def)

lemma sorted_list_cong:
  assumes "sorted_wrt (\<lambda>a b. expires (f a) \<le> expires (f b)) l"
    and "\<And>x. x \<in> set l \<Longrightarrow> expires (g x) = expires (f x)"
  shows "sorted_wrt (\<lambda>a b. expires (g a) \<le> expires (g b)) l"
  by (rule sorted_wrt_mono_rel [OF _ assms(1)]) (simp add: assms(2))

lemma timers_okD:
  assumes "timers_ok s"
  shows "heap_ok (heap_size (ts s c)) (slots_of c s)"
    and "heap_size (ts s c) \<le> heap_limit (ts s c)" and "limit_ok (heap_limit (ts s c))"
    and "distinct (t_list (ts s c))" and "distinct (t_inactive (ts s c))"
    and "sorted_wrt (\<lambda>a b. expires (tm s a) \<le> expires (tm s b)) (t_list (ts s c))"
    and "t \<in> heap_set s c \<longleftrightarrow> status (tm s t) = TIMER_STATUS_in_heap \<and> t_cpu (tm s t) = c"
    and "t \<in> set (t_list (ts s c)) \<longleftrightarrow> status (tm s t) = TIMER_STATUS_in_list \<and> t_cpu (tm s t) = c"
    and "t \<in> set (t_inactive (ts s c)) \<longleftrightarrow> status (tm s t) = TIMER_STATUS_inactive \<and> t_cpu (tm s t) = c"
    and "heap_limit (ts s c) < 65536"
  using assms by (simp_all add: timers_ok_def queues_ok_def placed_def limit_ok_less)

lemma timer_lock_ok:
  assumes "timers_ok s" and "status (tm s t) \<noteq> TIMER_STATUS_invalid"
  shows "timer_lock t s \<longleftrightarrow> status (tm s t) \<noteq> TIMER_STATUS_killed"
proof -
  have "cpus_ok s" using assms(1) by (simp add: timers_ok_def)
  then show ?thesis
    using assms(2) unfolding cpus_ok_def timer_lock_def
    by (cases "status (tm s t)") (auto dest: spec [of _ t])
qed

section \<open>Leaving and entering the queues\<close>

text \<open>The position of a timer in its heap.\<close>

lemma in_heap_pos:
  assumes "timers_ok s" and "status (tm s t) = TIMER_STATUS_in_heap" and "t_cpu (tm s t) = c"
  shows "heap_offset (tm s t) \<in> {1..heap_size (ts s c)}" and "heap (ts s c) (heap_offset (tm s t)) = t"
proof -
  have "t \<in> heap_set s c" using timers_okD(7) [OF assms(1)] assms(2,3) by simp
  then obtain i where i: "i \<in> {1..heap_size (ts s c)}" "heap (ts s c) i = t"
    by (auto simp: heap_set_def in_heap_def slots_of_def)
  with timers_okD(1) [OF assms(1), of c] have "heap_offset (tm s t) = i"
    by (auto simp: heap_ok_def slots_of_def)
  with i show "heap_offset (tm s t) \<in> {1..heap_size (ts s c)}"
    "heap (ts s c) (heap_offset (tm s t)) = t" by simp_all
qed

lemma remove_from_heap_result:
  assumes ok: "timers_ok s" and st: "status (tm s t) = TIMER_STATUS_in_heap"
    and c: "t_cpu (tm s t) = c"
  shows "\<exists>hs. snd (remove_from_heap c t s) = set_slots c (heap_size (ts s c) - 1) hs s
    \<and> heap_ok (heap_size (ts s c) - 1) hs \<and> in_heap (heap_size (ts s c) - 1) hs = heap_set s c - {t}
    \<and> moved (heap_set s c) (tm s) (snd hs)"
proof -
  let ?sz = "heap_size (ts s c)" and ?pos = "heap_offset (tm s t)" and ?hs = "slots_of c s"
  note pos = in_heap_pos [OF ok st c]
  have hok: "heap_ok ?sz ?hs" by (rule timers_okD(1) [OF ok])
  have top: "fst ?hs ?pos = t" using pos(2) by (simp add: slots_of_def)
  show ?thesis
  proof (cases "?pos = ?sz")
    case True
    then have r: "snd (remove_from_heap c t s) = set_slots c (?sz - 1) ?hs s"
      by (simp add: remove_from_heap_def Let_def)
    from pos have "1 \<le> ?sz" by simp
    from heap_delete_last [OF hok this] top True
    have h: "heap_ok (?sz - 1) ?hs" "in_heap (?sz - 1) ?hs = heap_set s c - {t}"
      by (simp_all add: heap_set_def)
    show ?thesis by (intro exI conjI, rule r, rule h(1), rule h(2)) (simp add: slots_of_def)
  next
    case False
    with pos have p: "1 \<le> ?pos" "?pos < ?sz" by auto
    let ?h1 = "slot ?pos (fst ?hs ?sz) ?hs"
    let ?h2 = "if ?pos > 1 \<and> expiry ?h1 ?pos < expiry ?h1 (?pos div 2)
               then up_heap ?pos ?h1 else down_heap (?sz - 1) ?pos ?h1"
    have r: "snd (remove_from_heap c t s) = set_slots c (?sz - 1) ?h2 s"
      unfolding remove_from_heap_def Let_def if_not_P [OF False] snd_conv ..
    have tms: "snd ?hs = tm s" by (simp add: slots_of_def)
    note d = heap_delete [OF hok p, unfolded top, folded heap_set_def, unfolded tms]
    show ?thesis by (intro exI conjI, rule r, rule d(1), rule d(2), rule d(3))
  qed
qed

text \<open>The queues of a CPU whose timers a step leaves alone.\<close>

lemma far_queues_ok:
  assumes ok: "timers_ok s" and ts: "ts s' c' = ts s c'"
    and far: "\<And>x. t_cpu (tm s x) = c' \<Longrightarrow> expires (tm s' x) = expires (tm s x) \<and> heap_offset (tm s' x) = heap_offset (tm s x)"
  shows "heap_ok (heap_size (ts s' c')) (slots_of c' s')"
    and "sorted_wrt (\<lambda>a b. expires (tm s' a) \<le> expires (tm s' b)) (t_list (ts s' c'))"
    and "heap_set s' c' = heap_set s c'"
proof -
  note old = timers_okD [OF ok]
  have hs: "slots_of c' s' = (heap (ts s c'), tm s')" using ts by (simp add: slots_of_def)
  show "heap_ok (heap_size (ts s' c')) (slots_of c' s')"
    unfolding hs ts
  proof (rule heap_ok_cong)
    show "heap_ok (heap_size (ts s c')) (heap (ts s c'), tm s)"
      using old(1) [of c'] by (simp add: slots_of_def)
    fix x assume "x \<in> in_heap (heap_size (ts s c')) (heap (ts s c'), tm s)"
    then have "x \<in> heap_set s c'" by (simp add: heap_set_def slots_of_def)
    then show "heap_offset (tm s' x) = heap_offset (tm s x) \<and> expires (tm s' x) = expires (tm s x)"
      using old(7) far by blast
  qed
  show "sorted_wrt (\<lambda>a b. expires (tm s' a) \<le> expires (tm s' b)) (t_list (ts s' c'))"
    unfolding ts using old(8) far by (intro sorted_list_cong [OF old(6)]) blast
  show "heap_set s' c' = heap_set s c'"
    unfolding heap_set_def hs ts by (simp add: slots_of_def in_heap_def)
qed

text \<open>
  The obligations of a step that changes the queues of the CPU \<open>c\<close> and the timer \<open>t\<close> bound to
  it, and of the other timers at most the offsets of those on \<open>c\<close>.
\<close>

lemma timers_ok_change:
  assumes ok: "timers_ok s"
    and ts: "\<And>c'. c' \<noteq> c \<Longrightarrow> ts s' c' = ts s c'"
    and far: "\<And>x. x \<noteq> t \<Longrightarrow> expires (tm s' x) = expires (tm s x)
      \<and> status (tm s' x) = status (tm s x) \<and> t_cpu (tm s' x) = t_cpu (tm s x)"
    and off: "\<And>x. x \<noteq> t \<Longrightarrow> t_cpu (tm s x) \<noteq> c \<Longrightarrow> heap_offset (tm s' x) = heap_offset (tm s x)"
    and c: "t_cpu (tm s t) = c" "t_cpu (tm s' t) = c" "c < TIMER_CPU_status_killed"
      "status (tm s' t) \<noteq> TIMER_STATUS_killed"
    and hp: "heap_ok (heap_size (ts s' c)) (slots_of c s')"
      "heap_size (ts s' c) \<le> heap_limit (ts s' c)" "limit_ok (heap_limit (ts s' c))"
      "heap_set s' c = {x. status (tm s' x) = TIMER_STATUS_in_heap \<and> t_cpu (tm s' x) = c}"
    and li: "distinct (t_list (ts s' c))"
      "sorted_wrt (\<lambda>a b. expires (tm s' a) \<le> expires (tm s' b)) (t_list (ts s' c))"
      "set (t_list (ts s' c)) = {x. status (tm s' x) = TIMER_STATUS_in_list \<and> t_cpu (tm s' x) = c}"
    and ia: "distinct (t_inactive (ts s' c))"
      "set (t_inactive (ts s' c)) = {x. status (tm s' x) = TIMER_STATUS_inactive \<and> t_cpu (tm s' x) = c}"
  shows "timers_ok s'"
proof -
  note old = timers_okD [OF ok]
  have q: "heap_ok (heap_size (ts s' c')) (slots_of c' s')"
    "sorted_wrt (\<lambda>a b. expires (tm s' a) \<le> expires (tm s' b)) (t_list (ts s' c'))"
    "heap_set s' c' = heap_set s c'" if "c' \<noteq> c" for c'
    using that far off c(1) far_queues_ok [OF ok, of s' c'] ts by metis+
  have "queues_ok s'"
    unfolding queues_ok_def
  proof
    fix c'
    show "heap_ok (heap_size (ts s' c')) (slots_of c' s')
        \<and> heap_size (ts s' c') \<le> heap_limit (ts s' c') \<and> limit_ok (heap_limit (ts s' c'))
        \<and> distinct (t_list (ts s' c')) \<and> distinct (t_inactive (ts s' c'))
        \<and> sorted_wrt (\<lambda>a b. expires (tm s' a) \<le> expires (tm s' b)) (t_list (ts s' c'))"
      using hp(1-3) li(1,2) ia(1) q(1,2) [of c'] ts [of c'] old(2-5) [of c'] by (cases "c' = c") simp_all
  qed
  moreover have "placed s'"
    unfolding placed_def
  proof (intro allI)
    fix c' x
    show "(x \<in> heap_set s' c' \<longleftrightarrow> status (tm s' x) = TIMER_STATUS_in_heap \<and> t_cpu (tm s' x) = c')
        \<and> (x \<in> set (t_list (ts s' c')) \<longleftrightarrow> status (tm s' x) = TIMER_STATUS_in_list \<and> t_cpu (tm s' x) = c')
        \<and> (x \<in> set (t_inactive (ts s' c')) \<longleftrightarrow> status (tm s' x) = TIMER_STATUS_inactive \<and> t_cpu (tm s' x) = c')"
    proof (cases "c' = c")
      case True
      then show ?thesis using hp(4) li(3) ia(2) by simp
    next
      case False
      then show ?thesis
        unfolding ts [OF False] q(3) [OF False] using old(7-9) [of x c'] far [of x] c(1,2) False by (cases "x = t") auto
    qed
  qed
  moreover have "cpus_ok s'"
    unfolding cpus_ok_def
  proof
    fix x
    have "cpus_ok s" using ok by (simp add: timers_ok_def)
    then show "(status (tm s' x) \<in> {TIMER_STATUS_inactive, TIMER_STATUS_in_heap, TIMER_STATUS_in_list}
             \<longrightarrow> t_cpu (tm s' x) < TIMER_CPU_status_killed)
        \<and> (status (tm s' x) = TIMER_STATUS_killed \<longrightarrow> t_cpu (tm s' x) = TIMER_CPU_status_killed)"
      using far [of x] c unfolding cpus_ok_def by (cases "x = t") auto
  qed
  ultimately show ?thesis by (simp add: timers_ok_def)
qed

lemma timers_ok_cpu:
  assumes "timers_ok s" and "status (tm s t) \<in> {TIMER_STATUS_inactive, TIMER_STATUS_in_heap, TIMER_STATUS_in_list}"
  shows "t_cpu (tm s t) < TIMER_CPU_status_killed"
  using assms unfolding timers_ok_def cpus_ok_def by blast

lemma core_update:
  assumes "\<And>x. x \<noteq> t \<Longrightarrow> (tm s' x)\<lparr>heap_offset := 0\<rparr> = (tm s x)\<lparr>heap_offset := 0\<rparr>"
    and "core s' t = f (core s t)"
  shows "core s' = (core s)(t := f (core s t))"
proof
  fix x
  show "core s' x = ((core s)(t := f (core s t))) x"
  proof (cases "x = t")
    case False
    then have e: "(tm s' x)\<lparr>heap_offset := 0\<rparr> = (tm s x)\<lparr>heap_offset := 0\<rparr>" by (rule assms(1))
    then have "status (tm s' x) = status (tm s x)" by (cases "tm s x"; cases "tm s' x") simp
    moreover have "((tm s' x)\<lparr>heap_offset := 0\<rparr>)\<lparr>status := a\<rparr> = ((tm s x)\<lparr>heap_offset := 0\<rparr>)\<lparr>status := a\<rparr>" for a
      using e by simp
    ultimately show ?thesis using False by (simp add: core_def)
  qed (simp add: assms(2))
qed

text \<open>
  A step that takes the timer \<open>t\<close> off the heap of its CPU, or puts it there: its status changes to
  \<open>a\<close>, and the offsets of the timers in the heap may change.
\<close>

lemma heap_step:
  assumes ok: "timers_ok s" and c: "t_cpu (tm s t) = c" "c < TIMER_CPU_status_killed"
    and st: "status (tm s t) \<in> {TIMER_STATUS_invalid, TIMER_STATUS_in_heap}" "a \<in> {TIMER_STATUS_invalid, TIMER_STATUS_in_heap}"
    and mv: "moved (insert t (heap_set s c)) ((tm s)(t := (tm s t)\<lparr>status := a\<rparr>)) (tm s')"
    and ts: "ts s' = (ts s)(c := (ts s c)\<lparr>heap := h, heap_size := n\<rparr>)"
    and hok: "heap_ok n (h, tm s')" "n \<le> heap_limit (ts s c)"
    and inh: "h ` {1..n} = heap_set s c - {t} \<union> (if a = TIMER_STATUS_in_heap then {t} else {})"
    and rest: "t_fault s' = t_fault s" "timer_deadline s' = timer_deadline s" "t_softirqs s' = t_softirqs s"
  shows "timer_step t (\<lambda>x. x\<lparr>status := a\<rparr>) s s'" and "heap_set s' c = heap_set s c - {t} \<union> (if a = TIMER_STATUS_in_heap then {t} else {})"
proof -
  note old = timers_okD [OF ok]
  have f: "expires (tm s' x) = expires (tm s x)" "t_cpu (tm s' x) = t_cpu (tm s x)"
    "status (tm s' x) = (if x = t then a else status (tm s x))" for x
    using moved_fields [OF mv, of x] by simp_all
  show hset: "heap_set s' c = heap_set s c - {t} \<union> (if a = TIMER_STATUS_in_heap then {t} else {})"
    using inh by (simp add: heap_set_def in_heap_def slots_of_def ts)
  have "timers_ok s'"
  proof (rule timers_ok_change [OF ok, of c _ t])
    show "heap_offset (tm s' x) = heap_offset (tm s x)" if "x \<noteq> t" "t_cpu (tm s x) \<noteq> c" for x
      using mv that old(7) [of x c] by (simp add: moved_def)
    show "heap_set s' c = {x. status (tm s' x) = TIMER_STATUS_in_heap \<and> t_cpu (tm s' x) = c}"
      unfolding hset f using old(7) [of _ c] c(1) by auto
    show "sorted_wrt (\<lambda>a b. expires (tm s' a) \<le> expires (tm s' b)) (t_list (ts s' c))"
      unfolding f using old(6) [of c] by (simp add: ts)
    show "set (t_list (ts s' c)) = {x. status (tm s' x) = TIMER_STATUS_in_list \<and> t_cpu (tm s' x) = c}"
      "set (t_inactive (ts s' c)) = {x. status (tm s' x) = TIMER_STATUS_inactive \<and> t_cpu (tm s' x) = c}"
      using old(8,9) [of _ c] st by (auto simp: f ts)
  qed (use old(2-5) [of c] c hok st in \<open>auto simp: ts f slots_of_def\<close>)
  moreover have "core s' = (core s)(t := (core s t)\<lparr>status := a\<rparr>)"
    unfolding moved_core [of _ "s\<lparr>tm := (tm s)(t := (tm s t)\<lparr>status := a\<rparr>)\<rparr>" s', simplified, OF mv]
    using st(2) by (auto simp: core_def fun_eq_iff)
  ultimately show "timer_step t (\<lambda>x. x\<lparr>status := a\<rparr>) s s'" by (simp add: timer_step_def ts rest)
qed

text \<open>Taking a timer off the heap.\<close>

lemma moved_status:
  assumes "moved X f g"
  shows "moved (insert t X) (f(t := (f t)\<lparr>status := a\<rparr>)) (g(t := (g t)\<lparr>status := a\<rparr>))"
proof -
  have "(g t)\<lparr>heap_offset := 0\<rparr> = (f t)\<lparr>heap_offset := 0\<rparr>" using assms by (simp add: moved_def)
  then have "(g t)\<lparr>status := a, heap_offset := 0\<rparr> = (f t)\<lparr>status := a, heap_offset := 0\<rparr>"
    by (cases "f t"; cases "g t") simp
  with assms show ?thesis by (simp add: moved_def)
qed

lemma remove_from_heap_step:
  assumes ok: "timers_ok s" and st: "status (tm s t) = TIMER_STATUS_in_heap"
    and c: "t_cpu (tm s t) = c"
  shows "timer_step t (\<lambda>x. x\<lparr>status := TIMER_STATUS_invalid\<rparr>) s
    (set_status t TIMER_STATUS_invalid (snd (remove_from_heap c t s)))"
proof -
  let ?sz = "heap_size (ts s c)" and ?s' = "set_status t TIMER_STATUS_invalid (snd (remove_from_heap c t s))"
  note old = timers_okD [OF ok]
  obtain hs where r: "snd (remove_from_heap c t s) = set_slots c (?sz - 1) hs s"
    and hok: "heap_ok (?sz - 1) hs" and inh: "in_heap (?sz - 1) hs = heap_set s c - {t}"
    and mv: "moved (heap_set s c) (tm s) (snd hs)"
    using remove_from_heap_result [OF ok st c] by blast
  have sz: "(?sz - 1) mod 65536 = ?sz - 1" using old(2,10) [of c] by simp
  have tm: "tm ?s' = (snd hs)(t := (snd hs t)\<lparr>status := TIMER_STATUS_invalid\<rparr>)"
    and ts: "ts ?s' = (ts s)(c := (ts s c)\<lparr>heap := fst hs, heap_size := ?sz - 1\<rparr>)"
    using sz by (simp_all add: r set_status_def)
  have "heap_ok (?sz - 1) (fst hs, snd hs)" using hok by simp
  then have "heap_ok (?sz - 1) (fst hs, tm ?s')" unfolding tm by (rule heap_ok_cong) (use inh in auto)
  then show ?thesis
    using old(2) [of c] timers_ok_cpu [OF ok, of t] moved_status [OF mv, of t TIMER_STATUS_invalid] inh st c
    by (intro heap_step(1) [OF ok c _ _ _ _ ts]) (auto simp: tm in_heap_def r set_status_def)
qed

text \<open>A change of a timer outside the heap, and of the two lists of its CPU.\<close>

lemma timers_ok_lists:
  assumes ok: "timers_ok s"
    and tm: "tm s' = (tm s)(t := y)"
    and ts: "ts s' = (ts s)(c := (ts s c)\<lparr>t_list := l, t_inactive := ia\<rparr>)"
    and st: "status (tm s t) \<noteq> TIMER_STATUS_in_heap" "status y \<noteq> TIMER_STATUS_in_heap"
      "status y \<noteq> TIMER_STATUS_killed"
    and c: "t_cpu (tm s t) = c" "t_cpu y = c" "c < TIMER_CPU_status_killed"
    and l: "distinct l" "sorted_wrt (\<lambda>a b. expires (tm s' a) \<le> expires (tm s' b)) l"
      "set l = (set (t_list (ts s c)) - {t}) \<union> (if status y = TIMER_STATUS_in_list then {t} else {})"
    and ia: "distinct ia"
      "set ia = (set (t_inactive (ts s c)) - {t}) \<union> (if status y = TIMER_STATUS_inactive then {t} else {})"
  shows "timers_ok s'"
proof (rule timers_ok_change [OF ok, of c _ t])
  note old = timers_okD [OF ok]
  have t: "t \<notin> heap_set s c" using old(7) st(1) by simp
  have sl: "slots_of c s' = (heap (ts s c), tm s')" "heap_size (ts s' c) = heap_size (ts s c)"
    by (simp_all add: slots_of_def ts)
  show "heap_ok (heap_size (ts s' c)) (slots_of c s')"
    unfolding sl tm
    by (rule heap_ok_cong [OF old(1) [of c, unfolded slots_of_def]])
      (use t in \<open>auto simp: heap_set_def slots_of_def\<close>)
  have "heap_set s' c = heap_set s c"
    unfolding heap_set_def sl by (simp add: slots_of_def in_heap_def)
  then show "heap_set s' c = {x. status (tm s' x) = TIMER_STATUS_in_heap \<and> t_cpu (tm s' x) = c}"
    using old(7) [of _ c] st t by (auto simp: tm)
  show "set (t_list (ts s' c)) = {x. status (tm s' x) = TIMER_STATUS_in_list \<and> t_cpu (tm s' x) = c}"
    using l(3) old(8) [of _ c] c(2) by (auto simp: ts tm)
  show "set (t_inactive (ts s' c)) = {x. status (tm s' x) = TIMER_STATUS_inactive \<and> t_cpu (tm s' x) = c}"
    using ia(2) old(9) [of _ c] c(2) by (auto simp: ts tm)
  show "distinct (t_list (ts s' c))" "distinct (t_inactive (ts s' c))"
    "sorted_wrt (\<lambda>a b. expires (tm s' a) \<le> expires (tm s' b)) (t_list (ts s' c))"
    using l(1,2) ia(1) by (simp_all add: ts)
qed (use timers_okD(2,3) [OF ok, of c] c st in \<open>simp_all add: ts tm\<close>)

lemma remove_from_list_step:
  assumes ok: "timers_ok s" and st: "status (tm s t) = TIMER_STATUS_in_list"
    and c: "t_cpu (tm s t) = c"
  shows "timer_step t (\<lambda>x. x\<lparr>status := TIMER_STATUS_invalid\<rparr>) s
    (set_status t TIMER_STATUS_invalid (snd (remove_from_list c t s)))"
proof -
  note old = timers_okD [OF ok]
  let ?s' = "set_status t TIMER_STATUS_invalid (snd (remove_from_list c t s))"
  let ?l = "remove1 t (t_list (ts s c))"
  have mem: "t \<in> set (t_list (ts s c))" using old(8) st c by simp
  have tm: "tm ?s' = (tm s)(t := (tm s t)\<lparr>status := TIMER_STATUS_invalid\<rparr>)"
    and ts: "ts ?s' = (ts s)(c := (ts s c)\<lparr>t_list := ?l, t_inactive := t_inactive (ts s c)\<rparr>)"
    using mem by (simp_all add: remove_from_list_def set_status_def Let_def)
  have ex: "expires (tm ?s' x) = expires (tm s x)" for x by (simp add: tm)
  have "timers_ok ?s'"
  proof (rule timers_ok_lists [OF ok tm ts])
    show "sorted_wrt (\<lambda>a b. expires (tm ?s' a) \<le> expires (tm ?s' b)) ?l"
      unfolding ex by (rule sorted_wrt_remove1 [OF old(6)])
    show "set (t_inactive (ts s c)) = set (t_inactive (ts s c)) - {t} \<union>
      (if status ((tm s t)\<lparr>status := TIMER_STATUS_invalid\<rparr>) = TIMER_STATUS_inactive then {t} else {})"
      using old(9) [of t c] st by auto
  qed (use old(4,5) [of c] timers_ok_cpu [OF ok, of t] st c in \<open>simp_all add: set_remove1_eq\<close>)
  moreover have "core ?s' = (core s)(t := (core s t)\<lparr>status := TIMER_STATUS_invalid\<rparr>)"
    by (rule core_update) (simp_all add: tm core_def)
  moreover have "t_fault ?s' = t_fault s" "timer_deadline ?s' = timer_deadline s" "t_softirqs ?s' = t_softirqs s"
    using mem by (simp_all add: remove_from_list_def set_status_def Let_def)
  ultimately show ?thesis by (simp add: timer_step_def ts)
qed

lemma remove_entry_step:
  assumes "timers_ok s" and "active_timer t s"
  shows "timer_step t (\<lambda>x. x\<lparr>status := TIMER_STATUS_invalid\<rparr>) s (snd (remove_entry t s))"
proof (cases "status (tm s t) = TIMER_STATUS_in_heap")
  case True
  have "snd (remove_entry t s)
    = set_status t TIMER_STATUS_invalid (snd (remove_from_heap (t_cpu (tm s t)) t s))"
    using True by (simp add: remove_entry_def case_prod_beta Let_def)
  then show ?thesis using remove_from_heap_step [OF assms(1) True refl] by simp
next
  case False
  then have st: "status (tm s t) = TIMER_STATUS_in_list"
    using assms(2) by (simp add: active_timer_def)
  then have "snd (remove_entry t s)
    = set_status t TIMER_STATUS_invalid (snd (remove_from_list (t_cpu (tm s t)) t s))"
    by (simp add: remove_entry_def case_prod_beta Let_def)
  then show ?thesis using remove_from_list_step [OF assms(1) st refl] by simp
qed

section \<open>Entering the queues\<close>

lemma add_to_heap_step:
  assumes ok: "timers_ok s" and st: "status (tm s t) = TIMER_STATUS_invalid"
    and c: "t_cpu (tm s t) = c" "c < TIMER_CPU_status_killed"
    and room: "heap_size (ts s c) \<noteq> heap_limit (ts s c)"
  defines "s1 \<equiv> upd_tm t (\<lambda>x. x\<lparr>heap_offset := 0, status := TIMER_STATUS_in_heap\<rparr>) s"
  shows "timer_step t (\<lambda>x. x\<lparr>status := TIMER_STATUS_in_heap\<rparr>) s (snd (add_to_heap c t s1))"
    and "heap_offset (tm (snd (add_to_heap c t s1)) t) \<noteq> 0"
    and "status (tm (snd (add_to_heap c t s1)) t) = TIMER_STATUS_in_heap"
    and "heap_set (snd (add_to_heap c t s1)) c = insert t (heap_set s c)"
    and "t_list (ts (snd (add_to_heap c t s1)) c) = t_list (ts s c)"
proof -
  let ?sz = "heap_size (ts s c)" and ?s' = "snd (add_to_heap c t s1)"
  note old = timers_okD [OF ok]
  have new: "t \<notin> heap_set s c" using old(7) st by simp
  have in0: "in_heap ?sz (slots_of c s1) = heap_set s c"
    by (simp add: heap_set_def in_heap_def slots_of_def s1_def)
  have "heap_ok ?sz (heap (ts s c), tm s1)"
    by (rule heap_ok_cong [OF old(1) [of c, unfolded slots_of_def]])
      (use new in \<open>auto simp: s1_def heap_set_def slots_of_def\<close>)
  then have ok0: "heap_ok ?sz (slots_of c s1)" by (simp add: slots_of_def s1_def)
  define hs where "hs = up_heap (?sz + 1) (slot (?sz + 1) t (slots_of c s1))"
  note ins = heap_insert [OF ok0, of t, unfolded in0, OF new, folded hs_def]
  have sz: "(?sz + 1) mod 65536 = ?sz + 1" "?sz < heap_limit (ts s c)" using old(2,10) [of c] room by simp_all
  have s': "?s' = set_slots c (?sz + 1) hs s1"
    using room by (simp add: add_to_heap_def Let_def hs_def s1_def)
  have tm: "tm ?s' = snd hs" and ts: "ts ?s' = (ts s)(c := (ts s c)\<lparr>heap := fst hs, heap_size := ?sz + 1\<rparr>)"
    unfolding s' using sz by (simp_all add: s1_def)
  have "moved (insert t (heap_set s c)) ((tm s)(t := (tm s t)\<lparr>status := TIMER_STATUS_in_heap\<rparr>)) (tm s1)"
    by (simp add: moved_def s1_def)
  moreover have "snd (slots_of c s1) = tm s1" by (simp add: slots_of_def)
  ultimately have mv: "moved (insert t (heap_set s c)) ((tm s)(t := (tm s t)\<lparr>status := TIMER_STATUS_in_heap\<rparr>)) (tm ?s')"
    unfolding tm using ins(3) moved_trans by metis
  have "heap_ok (?sz + 1) (fst hs, tm ?s')" "fst hs ` {1..?sz + 1} = heap_set s c - {t} \<union> {t}"
    using ins(1,2) new by (simp_all add: tm in_heap_def)
  moreover have "t_fault ?s' = t_fault s" "timer_deadline ?s' = timer_deadline s" "t_softirqs ?s' = t_softirqs s"
    by (simp_all add: s') (simp_all add: s1_def)
  ultimately have step: "timer_step t (\<lambda>x. x\<lparr>status := TIMER_STATUS_in_heap\<rparr>) s ?s'"
    and hset: "heap_set ?s' c = heap_set s c - {t} \<union> {t}"
    using heap_step [OF ok c _ _ mv ts] sz(2) st by simp_all
  show "timer_step t (\<lambda>x. x\<lparr>status := TIMER_STATUS_in_heap\<rparr>) s ?s'" by (rule step)
  show st': "status (tm ?s' t) = TIMER_STATUS_in_heap" using moved_fields(2) [OF mv, of t] by simp
  show "heap_set ?s' c = insert t (heap_set s c)" "t_list (ts ?s' c) = t_list (ts s c)" using hset by (auto simp: ts)
  have "t_cpu (tm ?s' t) = c" using moved_fields(3) [OF mv, of t] c(1) by simp
  with in_heap_pos(1) [OF timer_step_ok [OF step] st'] show "heap_offset (tm ?s' t) \<noteq> 0" by simp
qed

lemma sorted_insert_before_strict:
  fixes f :: "nat \<Rightarrow> int"
  assumes "sorted_wrt (\<lambda>a b. f a \<le> f b) l"
  shows "sorted_wrt (\<lambda>a b. f a \<le> f b) (insert_before (\<lambda>x. f t < f x) t l)"
  using assms
proof (induction l)
  case (Cons y ys)
  show ?case
  proof (cases "f t < f y")
    case True
    with Cons.prems show ?thesis by fastforce
  next
    case False
    with Cons show ?thesis by auto
  qed
qed simp

lemma add_to_list_step:
  assumes ok: "timers_ok s" and st: "status (tm s t) = TIMER_STATUS_invalid"
    and c: "t_cpu (tm s t) = c" "c < TIMER_CPU_status_killed"
  defines "s1 \<equiv> upd_tm t (\<lambda>x. x\<lparr>heap_offset := 0, status := TIMER_STATUS_in_list\<rparr>) s"
  shows "timer_step t (\<lambda>x. x\<lparr>status := TIMER_STATUS_in_heap\<rparr>) s (snd (add_to_list c t s1))"
proof -
  note old = timers_okD [OF ok]
  let ?s' = "snd (add_to_list c t s1)"
  let ?y = "(tm s t)\<lparr>heap_offset := 0, status := TIMER_STATUS_in_list\<rparr>"
  let ?l = "insert_before (\<lambda>x. expires (tm s1 t) < expires (tm s1 x)) t (t_list (ts s c))"
  have tm: "tm ?s' = (tm s)(t := ?y)"
    and ts: "ts ?s' = (ts s)(c := (ts s c)\<lparr>t_list := ?l, t_inactive := t_inactive (ts s c)\<rparr>)"
    by (simp_all add: add_to_list_def Let_def s1_def)
  have ex: "expires (tm ?s' x) = expires (tm s x)" "expires (tm s1 x) = expires (tm s x)" for x
    by (simp_all add: tm) (simp add: s1_def)
  have new: "t \<notin> set (t_list (ts s c))" using old(8) st by simp
  have "timers_ok ?s'"
  proof (rule timers_ok_lists [OF ok tm ts])
    show "sorted_wrt (\<lambda>a b. expires (tm ?s' a) \<le> expires (tm ?s' b)) ?l"
      unfolding ex by (rule sorted_insert_before_strict [OF old(6)])
    show "set (t_inactive (ts s c)) = set (t_inactive (ts s c)) - {t} \<union>
      (if status ?y = TIMER_STATUS_inactive then {t} else {})"
      using old(9) [of t c] st by auto
  qed (use old(4,5) [of c] st c new in auto)
  moreover have "core ?s' = (core s)(t := (core s t)\<lparr>status := TIMER_STATUS_in_heap\<rparr>)"
    by (rule core_update) (simp_all add: tm core_def)
  ultimately show ?thesis
    by (simp add: timer_step_def ts) (simp add: add_to_list_def Let_def s1_def)
qed

text \<open>The two ways add_entry can go.\<close>

lemma add_entry_cases:
  assumes ok: "timers_ok s" and st: "status (tm s t) = TIMER_STATUS_invalid"
    and c: "t_cpu (tm s t) = c" "c < TIMER_CPU_status_killed"
  shows "add_entry t s =
    (if heap_size (ts s c) \<noteq> heap_limit (ts s c)
     then add_to_heap c t (upd_tm t (\<lambda>x. x\<lparr>heap_offset := 0, status := TIMER_STATUS_in_heap\<rparr>) s)
     else add_to_list c t (upd_tm t (\<lambda>x. x\<lparr>heap_offset := 0, status := TIMER_STATUS_in_list\<rparr>) s))"
proof (cases "heap_size (ts s c) = heap_limit (ts s c)")
  case True
  have "set_status t TIMER_STATUS_in_list (upd_tm t (\<lambda>x. x\<lparr>heap_offset := 0, status := TIMER_STATUS_in_heap\<rparr>) s)
    = upd_tm t (\<lambda>x. x\<lparr>heap_offset := 0, status := TIMER_STATUS_in_list\<rparr>) s"
    by (simp add: set_status_def upd_tm_def)
  with True st c show ?thesis by (simp add: add_entry_def Let_def add_to_heap_def)
next
  case False
  from add_to_heap_step(2) [OF ok st c False] False st c show ?thesis
    by (simp add: add_entry_def Let_def case_prod_beta)
qed

lemma add_entry_step:
  assumes "timers_ok s" and "status (tm s t) = TIMER_STATUS_invalid"
    and "t_cpu (tm s t) < TIMER_CPU_status_killed"
  shows "timer_step t (\<lambda>x. x\<lparr>status := TIMER_STATUS_in_heap\<rparr>) s (snd (add_entry t s))"
  using add_to_heap_step(1) [OF assms(1,2) refl assms(3)] add_to_list_step [OF assms(1,2) refl assms(3)]
  unfolding add_entry_cases [OF assms(1,2) refl assms(3)] by simp

text \<open>A timer that expires before every other one of its CPU is reported as the new first one.\<close>

lemma add_entry_first:
  assumes ok: "timers_ok s" and st: "status (tm s t) = TIMER_STATUS_invalid"
    and c: "t_cpu (tm s t) = c" "c < TIMER_CPU_status_killed"
    and first: "\<And>x. x \<noteq> t \<Longrightarrow> active_timer x s \<Longrightarrow> t_cpu (tm s x) = c \<Longrightarrow> expires (tm s t) < expires (tm s x)"
  shows "fst (add_entry t s)"
proof (cases "heap_size (ts s c) = heap_limit (ts s c)")
  case True
  let ?s1 = "upd_tm t (\<lambda>x. x\<lparr>heap_offset := 0, status := TIMER_STATUS_in_list\<rparr>) s"
  have "fst (add_to_list c t ?s1)"
  proof (cases "t_list (ts s c)")
    case (Cons y ys)
    then have "status (tm s y) = TIMER_STATUS_in_list" "t_cpu (tm s y) = c"
      using timers_okD(8) [OF ok, of y c] by simp_all
    moreover from this st have "y \<noteq> t" by auto
    ultimately have "expires (tm s t) < expires (tm s y)"
      using first [of y] by (simp add: active_timer_def)
    with Cons show ?thesis by (simp add: add_to_list_def Let_def)
  qed (simp add: add_to_list_def Let_def)
  with True show ?thesis by (simp add: add_entry_cases [OF ok st c])
next
  case False
  define s' where "s' = snd (add_to_heap c t (upd_tm t (\<lambda>x. x\<lparr>heap_offset := 0, status := TIMER_STATUS_in_heap\<rparr>) s))"
  note a = add_to_heap_step [OF ok st c False, folded s'_def]
  have core: "core s' x = (if x = t then (core s t)\<lparr>status := TIMER_STATUS_in_heap\<rparr> else core s x)" for x
    using a(1) by (rule timer_step_core)
  have ex: "expires (tm s' x) = expires (tm s x)" for x
    using core [of x] core_fields(1) [of s' x] core_fields(1) [of s x] by (auto split: if_splits)
  have hok: "heap_ok (heap_size (ts s' c)) (slots_of c s')"
    by (rule timers_okD(1) [OF timer_step_ok [OF a(1)]])
  have cpu: "t_cpu (tm s' t) = c" using core [of t] core_fields(2) [of s' t] c(1) by simp
  note pos = in_heap_pos [OF timer_step_ok [OF a(1)] a(3) cpu]
  have "heap (ts s' c) 1 = t"
  proof (rule ccontr)
    assume ne: "heap (ts s' c) 1 \<noteq> t"
    have "heap (ts s' c) 1 \<in> heap_set s' c"
      using pos(1) by (auto simp: heap_set_def in_heap_def slots_of_def)
    with ne a(4) have "heap (ts s' c) 1 \<in> heap_set s c" by simp
    then have "expires (tm s t) < expires (tm s (heap (ts s' c) 1))"
      using timers_okD(7) [OF ok] first [OF ne] by (auto simp: active_timer_def)
    moreover have "expires (tm s' (heap (ts s' c) 1)) \<le> expires (tm s' t)"
      using heap_ok_root [OF hok, of "heap_offset (tm s' t)"] pos by (simp add: expiry_def slots_of_def)
    ultimately show False by (simp add: ex)
  qed
  moreover have "heap_offset (tm s' (heap (ts s' c) 1)) = 1"
    using hok pos(1) by (auto simp: heap_ok_def slots_of_def)
  ultimately have "heap_offset (tm s' t) = 1" by simp
  with False show ?thesis
    unfolding add_entry_cases [OF ok st c] by (simp add: add_to_heap_def Let_def s'_def)
qed

section \<open>The operations\<close>

lemma set_status_simps [simp]:
  "tm (set_status t st s) = (tm s)(t := (tm s t)\<lparr>status := st\<rparr>)" "ts (set_status t st s) = ts s"
  "timer_deadline (set_status t st s) = timer_deadline s"
  "t_softirqs (set_status t st s) = t_softirqs s" "t_fault (set_status t st s) = t_fault s"
  by (simp_all add: set_status_def)

lemma core_raise [simp]: "core (raise_timer c s) = core s"
  by (simp add: core_def fun_eq_iff)

lemma timers_ok_raise [simp]: "timers_ok (raise_timer c s) = timers_ok s"
  by (simp add: timers_ok_def queues_ok_def placed_def cpus_ok_def heap_set_def slots_of_def)

lemma timer_step_raise: "timer_step t f s s' \<Longrightarrow> timer_step t f s (raise_timer c s')"
  by (auto simp: timer_step_def)

text \<open>Linking a timer into the list of inactive timers, and unlinking it.\<close>

lemma link_inactive_step:
  assumes ok: "timers_ok s" and st: "status (tm s t) = TIMER_STATUS_invalid"
    and c: "t_cpu (tm s t) = c" "c < TIMER_CPU_status_killed"
  shows "timer_step t (\<lambda>x. x\<lparr>status := TIMER_STATUS_inactive\<rparr>) s
    (upd_ts c (\<lambda>x. x\<lparr>t_inactive := t # t_inactive x\<rparr>) (set_status t TIMER_STATUS_inactive s))"
    (is "timer_step t ?f s ?s'")
proof -
  note old = timers_okD [OF ok]
  let ?y = "(tm s t)\<lparr>status := TIMER_STATUS_inactive\<rparr>"
  have tm: "tm ?s' = (tm s)(t := ?y)"
    and ts: "ts ?s' = (ts s)(c := (ts s c)\<lparr>t_list := t_list (ts s c), t_inactive := t # t_inactive (ts s c)\<rparr>)"
    by (simp_all add: set_status_def)
  have ex: "expires (tm ?s' x) = expires (tm s x)" for x by (simp add: tm)
  have "timers_ok ?s'"
  proof (rule timers_ok_lists [OF ok tm ts])
    show "sorted_wrt (\<lambda>a b. expires (tm ?s' a) \<le> expires (tm ?s' b)) (t_list (ts s c))"
      unfolding ex by (rule old(6))
  qed (use old(4,5) [of c] old(8,9) [of t c] st c in auto)
  moreover have "core ?s' = (core s)(t := ?f (core s t))"
    by (rule core_update) (simp_all add: tm core_def)
  ultimately show ?thesis by (simp add: timer_step_def ts)
qed

lemma unlink_inactive_step:
  assumes ok: "timers_ok s" and st: "status (tm s t) = TIMER_STATUS_inactive"
    and c: "t_cpu (tm s t) = c"
  shows "timer_step t (\<lambda>x. x\<lparr>status := TIMER_STATUS_invalid\<rparr>) s
    (upd_ts c (\<lambda>x. x\<lparr>t_inactive := remove1 t (t_inactive x)\<rparr>) (set_status t TIMER_STATUS_invalid s))"
    (is "timer_step t ?f s ?s'")
proof -
  note old = timers_okD [OF ok]
  let ?y = "(tm s t)\<lparr>status := TIMER_STATUS_invalid\<rparr>"
  have tm: "tm ?s' = (tm s)(t := ?y)"
    and ts: "ts ?s' = (ts s)(c := (ts s c)\<lparr>t_list := t_list (ts s c), t_inactive := remove1 t (t_inactive (ts s c))\<rparr>)"
    by (simp_all add: set_status_def)
  have ex: "expires (tm ?s' x) = expires (tm s x)" for x by (simp add: tm)
  have "timers_ok ?s'"
  proof (rule timers_ok_lists [OF ok tm ts])
    show "sorted_wrt (\<lambda>a b. expires (tm ?s' a) \<le> expires (tm ?s' b)) (t_list (ts s c))"
      unfolding ex by (rule old(6))
  qed (use old(4,5) [of c] old(8) [of t c] timers_ok_cpu [OF ok, of t] st c in \<open>auto simp: set_remove1_eq\<close>)
  moreover have "core ?s' = (core s)(t := ?f (core s t))"
    by (rule core_update) (simp_all add: tm core_def)
  ultimately show ?thesis by (simp add: timer_step_def ts)
qed

lemma set_expires_step:
  assumes ok: "timers_ok s" and st: "status (tm s t) = TIMER_STATUS_inactive"
  shows "timer_step t (\<lambda>x. x\<lparr>expires := e\<rparr>) s (upd_tm t (\<lambda>x. x\<lparr>expires := e\<rparr>) s)" (is "timer_step t ?f s ?s'")
proof -
  note old = timers_okD [OF ok]
  let ?c = "t_cpu (tm s t)"
  have tm: "tm ?s' = (tm s)(t := ?f (tm s t))"
    and ts: "ts ?s' = (ts s)(?c := (ts s ?c)\<lparr>t_list := t_list (ts s ?c), t_inactive := t_inactive (ts s ?c)\<rparr>)"
    by simp_all
  have new: "t \<notin> set (t_list (ts s ?c))" using old(8) st by simp
  have "timers_ok ?s'"
  proof (rule timers_ok_lists [OF ok tm ts])
    show "sorted_wrt (\<lambda>a b. expires (tm ?s' a) \<le> expires (tm ?s' b)) (t_list (ts s ?c))"
      by (rule sorted_list_cong [OF old(6)]) (use new in auto)
  qed (use old(4,5) [of ?c] old(9) [of t ?c] new timers_ok_cpu [OF ok, of t] st in auto)
  moreover have "core ?s' = (core s)(t := ?f (core s t))"
    by (rule core_update) (simp_all add: core_def)
  ultimately show ?thesis by (simp add: timer_step_def)
qed

lemma timer_step_fields:
  assumes "timer_step t f s s'"
  shows "t_cpu (tm s' t) = t_cpu (f (core s t))" "expires (tm s' t) = expires (f (core s t))"
    "status (f (core s t)) \<noteq> TIMER_STATUS_in_heap \<Longrightarrow> status (f (core s t)) \<noteq> TIMER_STATUS_in_list
      \<Longrightarrow> status (tm s' t) = status (f (core s t))"
    "active_timer t s' \<longleftrightarrow> status (f (core s t)) = TIMER_STATUS_in_heap"
proof -
  have e: "core s' t = f (core s t)" using timer_step_core [OF assms] by simp
  show "t_cpu (tm s' t) = t_cpu (f (core s t))" "expires (tm s' t) = expires (f (core s t))"
    "active_timer t s' \<longleftrightarrow> status (f (core s t)) = TIMER_STATUS_in_heap"
    unfolding e [symmetric] by simp_all
  show "status (tm s' t) = status (f (core s t))"
    if "status (f (core s t)) \<noteq> TIMER_STATUS_in_heap" "status (f (core s t)) \<noteq> TIMER_STATUS_in_list"
    using that unfolding e [symmetric] by (auto simp: core_def split: if_splits)
qed

lemma deactivate_timer_step:
  assumes "timers_ok s" and "active_timer t s"
  shows "timer_step t (\<lambda>x. x\<lparr>status := TIMER_STATUS_inactive\<rparr>) s (deactivate_timer t s)"
proof -
  obtain r s1 where r: "remove_entry t s = (r, s1)" by (cases "remove_entry t s")
  let ?s2 = "if r then raise_timer (t_cpu (tm s1 t)) s1 else s1"
  have "timer_step t (\<lambda>x. x\<lparr>status := TIMER_STATUS_invalid\<rparr>) s s1"
    using remove_entry_step [OF assms] by (simp add: r)
  then have s2: "timer_step t (\<lambda>x. x\<lparr>status := TIMER_STATUS_invalid\<rparr>) s ?s2"
    by (simp add: timer_step_raise)
  note f = timer_step_fields [OF s2]
  have cpu: "t_cpu (tm s t) < TIMER_CPU_status_killed"
    using timers_ok_cpu [OF assms(1), of t] assms(2) by (auto simp: active_timer_def)
  have d: "deactivate_timer t s = upd_ts (t_cpu (tm ?s2 t)) (\<lambda>x. x\<lparr>t_inactive := t # t_inactive x\<rparr>)
      (set_status t TIMER_STATUS_inactive ?s2)"
    by (simp only: deactivate_timer_def r prod.case Let_def)
  have "timer_step t (\<lambda>x. x\<lparr>status := TIMER_STATUS_inactive\<rparr>) ?s2 (deactivate_timer t s)"
    unfolding d by (rule link_inactive_step [OF timer_step_ok [OF s2]]) (use f cpu in simp_all)
  from timer_step_trans [OF s2 this] show ?thesis by (rule timer_step_cong) simp
qed

lemma activate_timer_step:
  assumes ok: "timers_ok s" and st: "status (tm s t) = TIMER_STATUS_inactive"
  shows "timer_step t (\<lambda>x. x\<lparr>status := TIMER_STATUS_in_heap\<rparr>) s (activate_timer t s)"
    and "(\<And>x. x \<noteq> t \<Longrightarrow> active_timer x s \<Longrightarrow> t_cpu (tm s x) = t_cpu (tm s t) \<Longrightarrow> expires (tm s t) < expires (tm s x))
      \<Longrightarrow> t_cpu (tm s t) \<in> t_softirqs (activate_timer t s)"
proof -
  let ?s1 = "upd_ts (t_cpu (tm s t)) (\<lambda>x. x\<lparr>t_inactive := remove1 t (t_inactive x)\<rparr>)
                 (set_status t TIMER_STATUS_invalid s)"
  have s1: "timer_step t (\<lambda>x. x\<lparr>status := TIMER_STATUS_invalid\<rparr>) s ?s1"
    by (rule unlink_inactive_step [OF ok st refl])
  note f1 = timer_step_fields [OF s1]
  have cpu: "t_cpu (tm s t) < TIMER_CPU_status_killed"
    using timers_ok_cpu [OF ok, of t] st by simp
  have st1: "status (tm ?s1 t) = TIMER_STATUS_invalid" "t_cpu (tm ?s1 t) = t_cpu (tm s t)"
    using f1 by simp_all
  obtain r s2 where r: "add_entry t ?s1 = (r, s2)" by (cases "add_entry t ?s1")
  have s2: "timer_step t (\<lambda>x. x\<lparr>status := TIMER_STATUS_in_heap\<rparr>) ?s1 s2"
    using add_entry_step [OF timer_step_ok [OF s1] st1(1)] cpu st1(2) by (simp add: r)
  have a: "activate_timer t s = (if r then raise_timer (t_cpu (tm s2 t)) s2 else s2)"
    by (simp only: activate_timer_def st simp_thms if_True Let_def r prod.case)
  have "timer_step t (\<lambda>x. x\<lparr>status := TIMER_STATUS_in_heap\<rparr>) s s2"
    using timer_step_trans [OF s1 s2] by (rule timer_step_cong) simp
  then show "timer_step t (\<lambda>x. x\<lparr>status := TIMER_STATUS_in_heap\<rparr>) s (activate_timer t s)"
    unfolding a by (simp add: timer_step_raise)
  assume first: "\<And>x. x \<noteq> t \<Longrightarrow> active_timer x s \<Longrightarrow> t_cpu (tm s x) = t_cpu (tm s t) \<Longrightarrow> expires (tm s t) < expires (tm s x)"
  have "fst (add_entry t ?s1)"
  proof (rule add_entry_first [OF timer_step_ok [OF s1] st1 cpu])
    fix x assume "x \<noteq> t" "active_timer x ?s1" "t_cpu (tm ?s1 x) = t_cpu (tm s t)"
    with first [of x] show "expires (tm ?s1 t) < expires (tm ?s1 x)"
      by (simp add: active_timer_def set_status_def)
  qed
  moreover have "t_cpu (tm s2 t) = t_cpu (tm s t)"
    using timer_step_fields(1) [OF s2] st1(2) by simp
  ultimately show "t_cpu (tm s t) \<in> t_softirqs (activate_timer t s)"
    by (simp add: a r)
qed

end
