(* ===== verification/Timer_Ops.thy ===== *)
theory Timer_Ops
  imports Timer_Inv
begin

text \<open>
  The interface of the timer module: init_timer, set_timer, stop_timer, migrate_timer and
  kill_timer keep the invariant and change the one timer they are called for in the way
  include/xen/timer.h promises. The promise is the interface \<open>timer_service\<close>, stated over
  the view of a timer its users have, and the module provides it.
\<close>

section \<open>Timers outside every structure\<close>

lemma loose_change:
  assumes ok: "timers_ok s" and st: "status (tm s t) \<in> {TIMER_STATUS_invalid, TIMER_STATUS_killed}"
    and st': "status (g (tm s t)) \<in> {TIMER_STATUS_invalid, TIMER_STATUS_killed}"
      "status (g (tm s t)) = TIMER_STATUS_killed \<Longrightarrow> t_cpu (g (tm s t)) = TIMER_CPU_status_killed"
  shows "timers_ok (upd_tm t g s)"
proof -
  let ?s' = "upd_tm t g s"
  note old = timers_okD [OF ok]
  have out: "t \<notin> heap_set s c" "t \<notin> set (t_list (ts s c))" "t \<notin> set (t_inactive (ts s c))" for c
    using old(7-9) [of t c] st by auto
  have hset: "heap_set ?s' c = heap_set s c" for c
    by (simp add: heap_set_def slots_of_def in_heap_def)
  have "heap_ok (heap_size (ts ?s' c)) (slots_of c ?s')" for c
    using heap_ok_cong [OF old(1) [of c, unfolded slots_of_def], of "tm ?s'"] out(1) [of c]
    by (fastforce simp: slots_of_def heap_set_def)
  moreover have "sorted_wrt (\<lambda>a b. expires (tm ?s' a) \<le> expires (tm ?s' b)) (t_list (ts ?s' c))" for c
    by (simp only: upd_tm_simps, rule sorted_list_cong [OF old(6)]) (use out(2) [of c] in auto)
  ultimately have "queues_ok ?s'" using old(2-5) by (simp add: queues_ok_def)
  moreover have "placed ?s'"
    unfolding placed_def hset using st st'(1) by (auto simp: old(7-9))
  moreover have "cpus_ok ?s'"
    using ok st' unfolding timers_ok_def cpus_ok_def by auto
  ultimately show ?thesis by (simp add: timers_ok_def)
qed

lemma init_timer_step:
  assumes ok: "timers_ok s" and st: "status (tm s t) \<in> {TIMER_STATUS_invalid, TIMER_STATUS_killed}"
    and c: "c < TIMER_CPU_status_killed"
  shows "timer_step t (\<lambda>_. \<lparr>expires = 0, heap_offset = 0, t_cpu = c, status = TIMER_STATUS_inactive\<rparr>)
    s (init_timer t c s)"
proof -
  let ?y = "\<lparr>expires = 0, heap_offset = 0, t_cpu = c, status = TIMER_STATUS_invalid\<rparr>"
  let ?s1 = "upd_tm t (\<lambda>_. ?y) s"
  have c': "c mod 65536 = c" using c by (simp add: TIMER_CPU_status_killed_def)
  have "timers_ok ?s1" by (rule loose_change [OF ok st]) simp_all
  then have l: "timer_step t (\<lambda>x. x\<lparr>status := TIMER_STATUS_inactive\<rparr>) ?s1
    (upd_ts c (\<lambda>x. x\<lparr>t_inactive := t # t_inactive x\<rparr>) (set_status t TIMER_STATUS_inactive ?s1))"
    by (rule link_inactive_step) (use c in simp_all)
  have "init_timer t c s
    = upd_ts c (\<lambda>x. x\<lparr>t_inactive := t # t_inactive x\<rparr>) (set_status t TIMER_STATUS_inactive ?s1)"
    using c c' by (simp add: init_timer_def Let_def timer_lock_def set_status_def upd_tm_def upd_ts_def)
  moreover have "core ?s1 = (core s)(t := ?y)"
    by (rule core_update [where f = "\<lambda>_. ?y"]) (simp_all add: core_def)
  ultimately show ?thesis using l by (simp add: timer_step_def)
qed

section \<open>Setting and stopping\<close>

lemma deactivate_if_active_step:
  assumes ok: "timers_ok s" and st: "status (tm s t) \<noteq> TIMER_STATUS_invalid"
    "status (tm s t) \<noteq> TIMER_STATUS_killed"
  shows "timer_step t (\<lambda>x. x\<lparr>status := TIMER_STATUS_inactive\<rparr>) s (deactivate_if_active t s)"
proof (cases "active_timer t s")
  case True
  with st deactivate_timer_step [OF ok True] show ?thesis
    by (simp add: deactivate_if_active_def Let_def active_timer_assert_def)
next
  case False
  with st have i: "status (tm s t) = TIMER_STATUS_inactive"
    by (cases "status (tm s t)") (simp_all add: active_timer_def)
  have "(core s t)\<lparr>status := TIMER_STATUS_inactive\<rparr> = core s t"
    using i by (simp add: core_def)
  with False i ok show ?thesis
    by (simp add: deactivate_if_active_def Let_def active_timer_assert_def timer_step_def fun_upd_idem)
qed

lemma set_timer_step:
  assumes ok: "timers_ok s" and st: "status (tm s t) \<noteq> TIMER_STATUS_invalid"
    "status (tm s t) \<noteq> TIMER_STATUS_killed"
  shows "timer_step t (\<lambda>x. x\<lparr>expires := e, status := TIMER_STATUS_in_heap\<rparr>) s (set_timer t e s)"
    and "(\<And>x. x \<noteq> t \<Longrightarrow> active_timer x s \<Longrightarrow> t_cpu (tm s x) = t_cpu (tm s t) \<Longrightarrow> e < expires (tm s x))
      \<Longrightarrow> t_cpu (tm s t) \<in> t_softirqs (set_timer t e s)"
proof -
  let ?s1 = "deactivate_if_active t s"
  let ?s2 = "upd_tm t (\<lambda>x. x\<lparr>expires := e\<rparr>) ?s1"
  have s1: "timer_step t (\<lambda>x. x\<lparr>status := TIMER_STATUS_inactive\<rparr>) s ?s1"
    by (rule deactivate_if_active_step [OF assms])
  have s2: "timer_step t (\<lambda>x. x\<lparr>expires := e\<rparr>) ?s1 ?s2"
    using timer_step_fields(3) [OF s1] by (intro set_expires_step [OF timer_step_ok [OF s1]]) simp
  have s12: "timer_step t (\<lambda>x. x\<lparr>expires := e, status := TIMER_STATUS_inactive\<rparr>) s ?s2"
    using timer_step_trans [OF s1 s2] by (rule timer_step_cong) simp
  have i2: "status (tm ?s2 t) = TIMER_STATUS_inactive"
    using timer_step_fields(3) [OF s12] by simp
  note a = activate_timer_step [OF timer_step_ok [OF s12] i2]
  have set: "set_timer t e s = activate_timer t ?s2"
    using timer_lock_ok [OF ok st(1)] st(2) by (simp add: set_timer_def)
  show "timer_step t (\<lambda>x. x\<lparr>expires := e, status := TIMER_STATUS_in_heap\<rparr>) s (set_timer t e s)"
    unfolding set using timer_step_trans [OF s12 a(1)] by (rule timer_step_cong) simp
  assume first: "\<And>x. x \<noteq> t \<Longrightarrow> active_timer x s \<Longrightarrow> t_cpu (tm s x) = t_cpu (tm s t) \<Longrightarrow> e < expires (tm s x)"
  have cpu: "t_cpu (tm ?s2 t) = t_cpu (tm s t)" "expires (tm ?s2 t) = e"
    using timer_step_fields(1,2) [OF s12] by simp_all
  have "t_cpu (tm ?s2 t) \<in> t_softirqs (activate_timer t ?s2)"
  proof (rule a(2))
    fix x assume x: "x \<noteq> t" "active_timer x ?s2" "t_cpu (tm ?s2 x) = t_cpu (tm ?s2 t)"
    have "core ?s2 x = core s x" using timer_step_core [OF s12] x(1) by simp
    then have "active_timer x s" "t_cpu (tm s x) = t_cpu (tm ?s2 x)" "expires (tm ?s2 x) = expires (tm s x)"
      using x(2) by (metis core_fields(1-3))+
    with first [OF x(1)] x(3) cpu show "expires (tm ?s2 t) < expires (tm ?s2 x)" by simp
  qed
  then show "t_cpu (tm s t) \<in> t_softirqs (set_timer t e s)" by (simp only: set cpu)
qed

lemma stop_timer_step:
  assumes "timers_ok s" and "status (tm s t) \<noteq> TIMER_STATUS_invalid"
    "status (tm s t) \<noteq> TIMER_STATUS_killed"
  shows "timer_step t (\<lambda>x. x\<lparr>status := TIMER_STATUS_inactive\<rparr>) s (stop_timer t s)"
  using deactivate_if_active_step [OF assms] timer_lock_ok [OF assms(1,2)] assms(3)
  by (simp add: stop_timer_def)

section \<open>Migrating and killing\<close>

lemma rebind_step:
  assumes ok: "timers_ok s" and st: "status (tm s t) = TIMER_STATUS_inactive"
    and c: "new_cpu < TIMER_CPU_status_killed"
  defines "s' \<equiv> upd_ts new_cpu (\<lambda>x. x\<lparr>t_inactive := t # t_inactive x\<rparr>)
      (upd_tm t (\<lambda>x. x\<lparr>t_cpu := new_cpu mod 2 ^ 16\<rparr>)
        (upd_ts (t_cpu (tm s t)) (\<lambda>x. x\<lparr>t_inactive := remove1 t (t_inactive x)\<rparr>) s))"
  shows "timer_step t (\<lambda>x. x\<lparr>t_cpu := new_cpu\<rparr>) s s'"
proof -
  let ?u = "upd_ts (t_cpu (tm s t)) (\<lambda>x. x\<lparr>t_inactive := remove1 t (t_inactive x)\<rparr>)
                 (set_status t TIMER_STATUS_invalid s)"
  let ?v = "upd_tm t (\<lambda>x. x\<lparr>t_cpu := new_cpu\<rparr>) ?u"
  have c': "new_cpu mod 65536 = new_cpu" using c by (simp add: TIMER_CPU_status_killed_def)
  have u: "timer_step t (\<lambda>x. x\<lparr>status := TIMER_STATUS_invalid\<rparr>) s ?u"
    by (rule unlink_inactive_step [OF ok st refl])
  have "timers_ok ?v" by (rule loose_change [OF timer_step_ok [OF u]]) simp_all
  then have l: "timer_step t (\<lambda>x. x\<lparr>status := TIMER_STATUS_inactive\<rparr>) ?v
    (upd_ts new_cpu (\<lambda>x. x\<lparr>t_inactive := t # t_inactive x\<rparr>) (set_status t TIMER_STATUS_inactive ?v))"
    by (rule link_inactive_step) (use c in simp_all)
  have s': "s' = upd_ts new_cpu (\<lambda>x. x\<lparr>t_inactive := t # t_inactive x\<rparr>) (set_status t TIMER_STATUS_inactive ?v)"
    using st c' by (cases "tm s t") (simp add: s'_def set_status_def upd_tm_def upd_ts_def)
  have "core s' = (core s)(t := (core s t)\<lparr>t_cpu := new_cpu\<rparr>)"
    by (rule core_update) (use st c' in \<open>simp_all add: s'_def core_def\<close>)
  moreover have "timers_ok s'" using timer_step_ok [OF l] by (simp only: s')
  ultimately show ?thesis by (simp add: timer_step_def s'_def)
qed

lemma migrate_timer_step:
  assumes ok: "timers_ok s" and st: "status (tm s t) \<noteq> TIMER_STATUS_invalid"
    "status (tm s t) \<noteq> TIMER_STATUS_killed" and c: "new_cpu < TIMER_CPU_status_killed"
  shows "timer_step t (\<lambda>x. x\<lparr>t_cpu := new_cpu\<rparr>) s (migrate_timer t new_cpu s)"
proof (cases "t_cpu (tm s t) = new_cpu")
  case True
  then have "(core s t)\<lparr>t_cpu := new_cpu\<rparr> = core s t" by (simp add: core_def)
  with True ok show ?thesis by (simp add: migrate_timer_def timer_step_def fun_upd_idem)
next
  case False
  have lock: "t_cpu (tm s t) \<noteq> TIMER_CPU_status_killed"
    using timer_lock_ok [OF ok st(1)] st(2) by (simp add: timer_lock_def)
  let ?s1 = "deactivate_if_active t s"
  let ?s4 = "upd_ts new_cpu (\<lambda>x. x\<lparr>t_inactive := t # t_inactive x\<rparr>)
      (upd_tm t (\<lambda>x. x\<lparr>t_cpu := new_cpu mod 2 ^ 16\<rparr>)
        (upd_ts (t_cpu (tm s t)) (\<lambda>x. x\<lparr>t_inactive := remove1 t (t_inactive x)\<rparr>) ?s1))"
  have s1: "timer_step t (\<lambda>x. x\<lparr>status := TIMER_STATUS_inactive\<rparr>) s ?s1"
    by (rule deactivate_if_active_step [OF ok st])
  have i1: "status (tm ?s1 t) = TIMER_STATUS_inactive" "t_cpu (tm ?s1 t) = t_cpu (tm s t)"
    using timer_step_fields(1,3) [OF s1] by simp_all
  have s14: "timer_step t (\<lambda>x. x\<lparr>t_cpu := new_cpu\<rparr>) ?s1 ?s4"
    using rebind_step [OF timer_step_ok [OF s1] i1(1) c] by (simp only: i1(2))
  have s4: "timer_step t (\<lambda>x. x\<lparr>t_cpu := new_cpu, status := TIMER_STATUS_inactive\<rparr>) s ?s4"
    using timer_step_trans [OF s1 s14] by (rule timer_step_cong) simp
  have m: "migrate_timer t new_cpu s = (if active_timer t s then activate_timer t ?s4 else ?s4)"
    using False lock by (simp add: migrate_timer_def Let_def)
  show ?thesis
  proof (cases "active_timer t s")
    case True
    have i4: "status (tm ?s4 t) = TIMER_STATUS_inactive"
      using timer_step_fields(3) [OF s4] by simp
    have "(core s t)\<lparr>t_cpu := new_cpu, status := TIMER_STATUS_in_heap\<rparr> = (core s t)\<lparr>t_cpu := new_cpu\<rparr>"
      using True by (cases "core s t") (use core_fields(3) [of s t] in simp)
    with timer_step_trans [OF s4 activate_timer_step(1) [OF timer_step_ok [OF s4] i4]] True
    show ?thesis unfolding m if_P [OF True] by (elim timer_step_cong) simp
  next
    case inact: False
    then have "status (tm s t) = TIMER_STATUS_inactive"
      using st by (cases "status (tm s t)") (simp_all add: active_timer_def)
    then have "(core s t)\<lparr>t_cpu := new_cpu, status := TIMER_STATUS_inactive\<rparr> = (core s t)\<lparr>t_cpu := new_cpu\<rparr>"
      by (simp add: core_def)
    with s4 show ?thesis unfolding m if_not_P [OF inact] by (elim timer_step_cong)
  qed
qed

lemma kill_timer_step:
  assumes ok: "timers_ok s" and st: "status (tm s t) \<noteq> TIMER_STATUS_invalid"
    "status (tm s t) \<noteq> TIMER_STATUS_killed" and me: "t_running (ts s me) \<noteq> Some t"
  shows "timer_step t (\<lambda>x. x\<lparr>status := TIMER_STATUS_killed, t_cpu := TIMER_CPU_status_killed\<rparr>)
    s (kill_timer me t s)"
proof -
  let ?s1 = "deactivate_if_active t s"
  let ?k = "\<lambda>x. x\<lparr>status := TIMER_STATUS_killed, t_cpu := TIMER_CPU_status_killed\<rparr>"
  have s1: "timer_step t (\<lambda>x. x\<lparr>status := TIMER_STATUS_inactive\<rparr>) s ?s1"
    by (rule deactivate_if_active_step [OF ok st])
  have i1: "status (tm ?s1 t) = TIMER_STATUS_inactive"
    using timer_step_fields(3) [OF s1] by simp
  let ?u = "upd_ts (t_cpu (tm ?s1 t)) (\<lambda>x. x\<lparr>t_inactive := remove1 t (t_inactive x)\<rparr>)
                 (set_status t TIMER_STATUS_invalid ?s1)"
  have u: "timer_step t (\<lambda>x. x\<lparr>status := TIMER_STATUS_invalid\<rparr>) ?s1 ?u"
    by (rule unlink_inactive_step [OF timer_step_ok [OF s1] i1 refl])
  have k: "kill_timer me t s = upd_tm t ?k ?u"
    using me timer_lock_ok [OF ok st(1)] st(2)
    by (simp add: kill_timer_def Let_def set_status_def upd_tm_def upd_ts_def)
  have "timers_ok (upd_tm t ?k ?u)"
    by (rule loose_change [OF timer_step_ok [OF u]]) simp_all
  moreover have "core (upd_tm t ?k ?u) = (core ?u)(t := ?k (core ?u t))"
    by (rule core_update) (simp_all add: core_def)
  ultimately have "timer_step t ?k ?u (kill_timer me t s)" by (simp add: timer_step_def k)
  from timer_step_trans [OF timer_step_trans [OF s1 u] this] show ?thesis
    by (rule timer_step_cong) simp
qed

end
