(* ===== verification/Timer_Softirq.thy ===== *)
theory Timer_Softirq
  imports Timer_Ops
begin

text \<open>
  The timer softirq and the removal of a CPU: the loops of timer_softirq_action and
  migrate_timers_from_cpu end, expired timers are executed, and no timer is lost.
\<close>

section \<open>Due timers\<close>

definition due :: "int \<Rightarrow> nat \<Rightarrow> tstate \<Rightarrow> nat set" where
  "due now c s = {x. active_timer x s \<and> t_cpu (tm s x) = c \<and> expires (tm s x) < now}"

lemma active_iff:
  assumes "timers_ok s"
  shows "active_timer x s \<and> t_cpu (tm s x) = c \<longleftrightarrow> x \<in> heap_set s c \<union> set (t_list (ts s c))"
  using timers_okD(7,8) [OF assms, of x c] by (auto simp: active_timer_def)

lemma finite_active: "timers_ok s \<Longrightarrow> finite {x. active_timer x s \<and> t_cpu (tm s x) = c}"
  unfolding active_iff by (simp add: heap_set_def in_heap_def)

lemma finite_due: "timers_ok s \<Longrightarrow> finite (due now c s)"
  by (rule finite_subset [OF _ finite_active [of s c]]) (auto simp: due_def)

lemma due_core: "x \<in> due now c s \<longleftrightarrow>
    status (core s x) = TIMER_STATUS_in_heap \<and> t_cpu (core s x) = c \<and> expires (core s x) < now"
  by (simp add: due_def)

text \<open>The top of the heap is due if any timer of the heap is.\<close>

lemma heap_top_due:
  assumes ok: "timers_ok s" and "x \<in> due now c s" and "status (tm s x) = TIMER_STATUS_in_heap"
  shows "heap_size (ts s c) \<noteq> 0" and "expires (tm s (heap (ts s c) 1)) < now"
proof -
  have c: "t_cpu (tm s x) = c" and e: "expires (tm s x) < now" using assms(2) by (simp_all add: due_def)
  note pos = in_heap_pos [OF ok assms(3) c]
  show "heap_size (ts s c) \<noteq> 0" using pos(1) by simp
  have "expiry (slots_of c s) 1 \<le> expiry (slots_of c s) (heap_offset (tm s x))"
    using heap_ok_root [OF timers_okD(1) [OF ok, of c]] pos(1) by simp
  then show "expires (tm s (heap (ts s c) 1)) < now"
    using pos(2) e by (simp add: expiry_def slots_of_def)
qed

lemma heap_top_active:
  assumes "timers_ok s" and "heap_size (ts s c) \<noteq> 0"
  shows "status (tm s (heap (ts s c) 1)) = TIMER_STATUS_in_heap" "t_cpu (tm s (heap (ts s c) 1)) = c"
proof -
  have "heap (ts s c) 1 \<in> heap_set s c"
    using assms(2) by (auto simp: heap_set_def in_heap_def slots_of_def)
  then show "status (tm s (heap (ts s c) 1)) = TIMER_STATUS_in_heap" "t_cpu (tm s (heap (ts s c) 1)) = c"
    using timers_okD(7) [OF assms(1)] by simp_all
qed

section \<open>Executing a timer\<close>

lemma timers_ok_cong:
  assumes "tm s' = tm s" and "\<And>c. heap (ts s' c) = heap (ts s c)"
    and "\<And>c. heap_size (ts s' c) = heap_size (ts s c)" and "\<And>c. t_list (ts s' c) = t_list (ts s c)"
    and "\<And>c. t_inactive (ts s' c) = t_inactive (ts s c)"
    and "\<And>c. heap_size (ts s c) \<le> heap_limit (ts s' c) \<and> limit_ok (heap_limit (ts s' c))"
    and "timers_ok s"
  shows "timers_ok s'"
  using assms(6,7)
  by (simp add: timers_ok_def queues_ok_def placed_def cpus_ok_def heap_set_def slots_of_def
      in_heap_def assms(1-5))

lemma timers_ok_running [simp]:
  "timers_ok s \<Longrightarrow> timers_ok (upd_ts c (\<lambda>x. x\<lparr>t_running := r\<rparr>) s)"
  by (rule timers_ok_cong [of _ s]) (auto dest: timers_okD(2,3))

lemma core_ts [simp]: "core (upd_ts c g s) = core s"
  by (simp add: core_def fun_eq_iff)

text \<open>
  The state in which the handler of an expired timer runs: the timer is inactive, and no
  other timer has changed.
\<close>

definition fired :: "nat \<Rightarrow> tstate \<Rightarrow> tstate \<Rightarrow> bool" where
  "fired t s s' \<longleftrightarrow> timers_ok s' \<and> core s' = (core s)(t := (core s t)\<lparr>status := TIMER_STATUS_inactive\<rparr>)
     \<and> (\<forall>x. x \<noteq> t \<longrightarrow> status (tm s' x) = status (tm s x)) \<and> t_fault s' = t_fault s"

lemma execute_fired:
  assumes step: "timer_step t (\<lambda>x. x\<lparr>status := TIMER_STATUS_invalid\<rparr>) s (set_status t TIMER_STATUS_invalid s1)"
    and c: "t_cpu (tm s t) = c" "c < TIMER_CPU_status_killed"
    and st: "\<And>x. x \<noteq> t \<Longrightarrow> status (tm s1 x) = status (tm s x)"
  shows "\<exists>s2. execute_timer fn c t s1 = upd_ts c (\<lambda>x. x\<lparr>t_running := None\<rparr>) (fn t s2) \<and> fired t s s2"
proof -
  let ?u = "set_status t TIMER_STATUS_invalid s1"
  let ?l = "upd_ts c (\<lambda>x. x\<lparr>t_inactive := t # t_inactive x\<rparr>) (set_status t TIMER_STATUS_inactive ?u)"
  let ?s2 = "upd_ts c (\<lambda>x. x\<lparr>t_inactive := t # t_inactive x, t_running := Some t\<rparr>)
              (set_status t TIMER_STATUS_inactive s1)"
  have eq: "?s2 = upd_ts c (\<lambda>x. x\<lparr>t_running := Some t\<rparr>) ?l"
    by (simp add: upd_ts_def set_status_def upd_tm_def)
  have f: "t_cpu (tm ?u t) = c" "status (tm ?u t) = TIMER_STATUS_invalid"
    using timer_step_fields(1,3) [OF step] c(1) by simp_all
  have l: "timer_step t (\<lambda>x. x\<lparr>status := TIMER_STATUS_inactive\<rparr>) ?u ?l"
    by (rule link_inactive_step [OF timer_step_ok [OF step] f(2,1) c(2)])
  have sl: "timer_step t (\<lambda>x. x\<lparr>status := TIMER_STATUS_inactive\<rparr>) s ?l"
    using timer_step_trans [OF step l] by (rule timer_step_cong) simp
  have "fired t s ?s2"
    unfolding fired_def eq using sl st by (simp add: timer_step_def)
  moreover have "execute_timer fn c t s1 = upd_ts c (\<lambda>x. x\<lparr>t_running := None\<rparr>) (fn t ?s2)"
    by (simp add: execute_timer_def)
  ultimately show ?thesis by blast
qed

lemma execute_heap_top:
  assumes ok: "timers_ok s" and ne: "heap_size (ts s c) \<noteq> 0"
  defines "t \<equiv> heap (ts s c) 1"
  shows "\<exists>s2. execute_timer fn c t (snd (remove_from_heap c t s))
      = upd_ts c (\<lambda>x. x\<lparr>t_running := None\<rparr>) (fn t s2) \<and> fired t s s2"
proof (rule execute_fired)
  note t = heap_top_active [OF ok ne, folded t_def]
  show "timer_step t (\<lambda>x. x\<lparr>status := TIMER_STATUS_invalid\<rparr>) s
    (set_status t TIMER_STATUS_invalid (snd (remove_from_heap c t s)))"
    by (rule remove_from_heap_step [OF ok t])
  show "t_cpu (tm s t) = c" "c < TIMER_CPU_status_killed"
    using t timers_ok_cpu [OF ok, of t] by simp_all
  obtain hs where "snd (remove_from_heap c t s) = set_slots c (heap_size (ts s c) - 1) hs s"
    "moved (heap_set s c) (tm s) (snd hs)"
    using remove_from_heap_result [OF ok t] by blast
  then show "status (tm (snd (remove_from_heap c t s)) x) = status (tm s x)" for x
    using moved_fields(2) by simp
qed

lemma execute_list_head:
  assumes ok: "timers_ok s" and l: "t_list (ts s c) = t # l"
  shows "\<exists>s2. execute_timer fn c t (upd_ts c (\<lambda>x. x\<lparr>t_list := l\<rparr>) s)
      = upd_ts c (\<lambda>x. x\<lparr>t_running := None\<rparr>) (fn t s2) \<and> fired t s s2"
proof (rule execute_fired)
  have t: "status (tm s t) = TIMER_STATUS_in_list" "t_cpu (tm s t) = c"
    using timers_okD(8) [OF ok, of t c] l by simp_all
  have "snd (remove_from_list c t s) = upd_ts c (\<lambda>x. x\<lparr>t_list := l\<rparr>) s"
    by (simp add: remove_from_list_def Let_def l)
  then show "timer_step t (\<lambda>x. x\<lparr>status := TIMER_STATUS_invalid\<rparr>) s
    (set_status t TIMER_STATUS_invalid (upd_ts c (\<lambda>x. x\<lparr>t_list := l\<rparr>) s))"
    using remove_from_list_step [OF ok t] by simp
  show "t_cpu (tm s t) = c" "c < TIMER_CPU_status_killed"
    using t timers_ok_cpu [OF ok, of t] by simp_all
qed simp

text \<open>
  What is asked of the handlers: they keep the invariant, they do not make a timer due that
  was not, and they leave the timers that are due where they are.
\<close>

definition handlers_ok :: "int \<Rightarrow> nat \<Rightarrow> (nat \<Rightarrow> tstate \<Rightarrow> tstate) \<Rightarrow> bool" where
  "handlers_ok now c fn \<longleftrightarrow>
     (\<forall>t s. timers_ok s \<longrightarrow> timers_ok (fn t s)
        \<and> (\<forall>x\<in>due now c (fn t s). x \<in> due now c s \<and> status (tm (fn t s) x) = status (tm s x)))"

text \<open>After a round of either loop the executed timer is no longer due, and nothing else became due.\<close>

lemma round_due:
  assumes fn: "handlers_ok now c fn" and f: "fired t s s2" and t: "t \<in> due now c s"
  defines "s' \<equiv> upd_ts c (\<lambda>x. x\<lparr>t_running := None\<rparr>) (fn t s2)"
  shows "timers_ok s'" and "due now c s' \<subseteq> due now c s - {t}"
    and "\<And>x. x \<in> due now c s' \<Longrightarrow> status (tm s' x) = status (tm s x)"
proof -
  have ok2: "timers_ok s2" and core: "core s2 = (core s)(t := (core s t)\<lparr>status := TIMER_STATUS_inactive\<rparr>)"
    and st: "\<And>x. x \<noteq> t \<Longrightarrow> status (tm s2 x) = status (tm s x)"
    using f by (simp_all add: fired_def)
  show "timers_ok s'" using fn ok2 by (simp add: s'_def handlers_ok_def)
  have due': "due now c s' = due now c (fn t s2)" by (simp add: due_def s'_def active_timer_def)
  have step: "x \<in> due now c s2 \<and> status (tm s' x) = status (tm s2 x)" if "x \<in> due now c s'" for x
    using fn ok2 that unfolding due' handlers_ok_def by (simp add: s'_def)
  have two: "x \<in> due now c s - {t}" if "x \<in> due now c s2" for x
    using that unfolding due_core core by (auto simp: due_core split: if_splits)
  show "due now c s' \<subseteq> due now c s - {t}" using step two by blast
  show "status (tm s' x) = status (tm s x)" if "x \<in> due now c s'" for x
    using step [OF that] two [of x] st [of x] by simp
qed

section \<open>The loops of the softirq\<close>

lemma run_heap_ends:
  assumes fn: "handlers_ok now c fn" and "timers_ok s"
  shows "\<exists>s'. run_heap fn c now s = Some s' \<and> timers_ok s' \<and> due now c s' \<subseteq> due now c s
    \<and> (\<forall>x\<in>due now c s'. status (tm s' x) = TIMER_STATUS_in_list)"
  using assms(2)
proof (induction "card (due now c s)" arbitrary: s rule: less_induct)
  case less
  let ?t = "heap (ts s c) 1"
  show ?case
  proof (cases "heap_size (ts s c) \<noteq> 0 \<and> expires (tm s ?t) < now")
    case True
    then have t: "?t \<in> due now c s"
      using heap_top_active [OF less.prems, of c] by (simp add: due_def active_timer_def)
    let ?s' = "execute_timer fn c ?t (snd (remove_from_heap c ?t s))"
    obtain s2 where s2: "?s' = upd_ts c (\<lambda>x. x\<lparr>t_running := None\<rparr>) (fn ?t s2)" "fired ?t s s2"
      using execute_heap_top [OF less.prems] True by blast
    note r = round_due [OF fn s2(2) t, folded s2(1)]
    have "card (due now c ?s') < card (due now c s)"
      using r(2) t finite_due [OF less.prems] by (intro psubset_card_mono) auto
    from less.hyps [OF this r(1)] obtain s'' where s'': "run_heap fn c now ?s' = Some s''"
      "timers_ok s''" "due now c s'' \<subseteq> due now c ?s'"
      "\<forall>x\<in>due now c s''. status (tm s'' x) = TIMER_STATUS_in_list" by blast
    have "run_heap fn c now s = run_heap fn c now ?s'"
      using True by (subst run_heap.simps) (simp add: Let_def)
    with s'' r(2) show ?thesis by auto
  next
    case False
    then have "run_heap fn c now s = Some s"
      by (subst run_heap.simps) (auto simp: Let_def)
    moreover have "status (tm s x) = TIMER_STATUS_in_list" if "x \<in> due now c s" for x
      using heap_top_due [OF less.prems that] False that by (auto simp: due_def active_timer_def)
    ultimately show ?thesis using less.prems by blast
  qed
qed

lemma list_head_due:
  assumes ok: "timers_ok s" and x: "x \<in> due now c s" "status (tm s x) = TIMER_STATUS_in_list"
  shows "\<exists>t l. t_list (ts s c) = t # l \<and> expires (tm s t) < now"
proof -
  have "x \<in> set (t_list (ts s c))" using timers_okD(8) [OF ok] x by (simp add: due_def)
  then obtain t l where l: "t_list (ts s c) = t # l" by (cases "t_list (ts s c)") auto
  with timers_okD(6) [OF ok, of c] \<open>x \<in> set _\<close> have "expires (tm s t) \<le> expires (tm s x)" by auto
  with l x(1) show ?thesis by (auto simp: due_def)
qed

lemma run_list_ends:
  assumes fn: "handlers_ok now c fn" and "timers_ok s"
    and "\<forall>x\<in>due now c s. status (tm s x) = TIMER_STATUS_in_list"
  shows "\<exists>s'. run_list fn c now s = Some s' \<and> timers_ok s' \<and> due now c s' = {}"
  using assms(2,3)
proof (induction "card (due now c s)" arbitrary: s rule: less_induct)
  case less
  show ?case
  proof (cases "\<exists>t l. t_list (ts s c) = t # l \<and> expires (tm s t) < now")
    case True
    then obtain t l where l: "t_list (ts s c) = t # l" "expires (tm s t) < now" by blast
    then have t: "t \<in> due now c s"
      using timers_okD(8) [OF less.prems(1), of t c] by (simp add: due_def active_timer_def)
    let ?s' = "execute_timer fn c t (upd_ts c (\<lambda>x. x\<lparr>t_list := l\<rparr>) s)"
    obtain s2 where s2: "?s' = upd_ts c (\<lambda>x. x\<lparr>t_running := None\<rparr>) (fn t s2)" "fired t s s2"
      using execute_list_head [OF less.prems(1) l(1)] by blast
    note r = round_due [OF fn s2(2) t, folded s2(1)]
    have "card (due now c ?s') < card (due now c s)"
      using r(2) t finite_due [OF less.prems(1)] by (intro psubset_card_mono) auto
    moreover have "\<forall>x\<in>due now c ?s'. status (tm ?s' x) = TIMER_STATUS_in_list"
      using r(2,3) less.prems(2) by auto
    ultimately obtain s'' where "run_list fn c now ?s' = Some s''" "timers_ok s''" "due now c s'' = {}"
      using less.hyps [OF _ r(1)] by blast
    moreover have "run_list fn c now s = run_list fn c now ?s'"
      using l by (subst run_list.simps) simp
    ultimately show ?thesis by simp
  next
    case False
    then have "run_list fn c now s = Some s"
      by (subst run_list.simps) (auto split: list.splits)
    moreover have "due now c s = {}"
      using list_head_due [OF less.prems(1)] less.prems(2) False by blast
    ultimately show ?thesis using less.prems(1) by simp
  qed
qed

section \<open>From the list to the heap\<close>

text \<open>
  While timer_softirq_action moves the list into the heap, the timers still to be moved are on
  no list. They are taken out of the picture by giving them the status of a loose timer,
  which none of the operations on another timer looks at.
\<close>

definition mark :: "nat set \<Rightarrow> (nat \<Rightarrow> timer) \<Rightarrow> nat \<Rightarrow> timer" where
  "mark R f = (\<lambda>x. if x \<in> R then (f x)\<lparr>status := TIMER_STATUS_invalid\<rparr> else f x)"

definition marked :: "nat set \<Rightarrow> tstate \<Rightarrow> tstate" where
  "marked R s = s\<lparr>tm := mark R (tm s)\<rparr>"

lemma mark_fields [simp]:
  "expires (mark R f x) = expires (f x)" "t_cpu (mark R f x) = t_cpu (f x)"
  "heap_offset (mark R f x) = heap_offset (f x)"
  "status (mark R f x) = (if x \<in> R then TIMER_STATUS_invalid else status (f x))"
  by (simp_all add: mark_def)

lemma marked_simps [simp]:
  "tm (marked R s) = mark R (tm s)" "ts (marked R s) = ts s" "t_fault (marked R s) = t_fault s"
  "timer_deadline (marked R s) = timer_deadline s" "t_softirqs (marked R s) = t_softirqs s"
  by (simp_all add: marked_def)

lemma slot_mark: "slot pos t (fst hs, mark R (snd hs)) = (fst (slot pos t hs), mark R (snd (slot pos t hs)))"
  by (auto simp: slot_def mark_def fun_eq_iff)

lemma float_up_mark:
  "float_up t pos (fst hs, mark R (snd hs)) =
    (fst (float_up t pos hs), fst (snd (float_up t pos hs)), mark R (snd (snd (float_up t pos hs))))"
proof (induction t pos hs rule: float_up.induct)
  case (1 t pos hs)
  have e: "expiry (fst hs, mark R (snd hs)) i = expiry hs i" for i by (simp add: expiry_def)
  show ?case
  proof (cases "pos > 1 \<and> expires (snd hs t) < expiry hs (pos div 2)")
    case True
    then have l: "float_up t pos (fst hs, mark R (snd hs))
      = float_up t (pos div 2) (slot pos (fst hs (pos div 2)) (fst hs, mark R (snd hs)))"
      by (subst float_up.simps) (simp add: e)
    have r: "float_up t pos hs = float_up t (pos div 2) (slot pos (fst hs (pos div 2)) hs)"
      using True by (subst float_up.simps) simp
    show ?thesis unfolding l r slot_mark by (rule "1.IH" [OF True])
  next
    case False
    then have "float_up t pos hs = (pos, hs)" "float_up t pos (fst hs, mark R (snd hs)) = (pos, fst hs, mark R (snd hs))"
      by (subst float_up.simps, auto simp: e)+
    then show ?thesis by simp
  qed
qed

lemma up_heap_mark:
  "up_heap pos (fst hs, mark R (snd hs)) = (fst (up_heap pos hs), mark R (snd (up_heap pos hs)))"
  unfolding up_heap_def Let_def fst_conv float_up_mark case_prod_beta
  by (simp only: fst_conv snd_conv slot_mark)

lemma add_to_heap_mark:
  "add_to_heap c t (marked R s) = map_prod id (marked R) (add_to_heap c t s)"
proof -
  have sl: "slots_of c (marked R s) = (fst (slots_of c s), mark R (snd (slots_of c s)))"
    by (simp add: slots_of_def)
  have st: "set_slots c sz (fst hs, mark R (snd hs)) (marked R s) = marked R (set_slots c sz hs s)" for sz hs
    by (simp add: set_slots_def marked_def upd_ts_def)
  show ?thesis
    unfolding add_to_heap_def Let_def marked_simps sl slot_mark up_heap_mark st
    by (simp del: set_slots_simps add: marked_simps(1))
qed

lemma add_to_list_mark:
  "add_to_list c t (marked R s) = map_prod id (marked R) (add_to_list c t s)"
  by (simp add: add_to_list_def Let_def marked_def upd_ts_def)

lemma add_entry_mark:
  assumes "t \<notin> R"
  shows "add_entry t (marked R s) = map_prod id (marked R) (add_entry t s)"
proof -
  have u: "upd_tm t f (marked R s) = marked R (upd_tm t f s)" for f s
    using assms by (auto simp: upd_tm_def marked_def mark_def fun_eq_iff)
  have b: "t_bug (marked R s) = marked R (t_bug s)" by (simp add: t_bug_def marked_def)
  show ?thesis
    using assms
    by (simp add: add_entry_def Let_def case_prod_beta u b set_status_def add_to_heap_mark add_to_list_mark
        if_distrib [of "marked R"] if_distrib [of "upd_tm t _"] cong: if_cong)
qed

lemma up_heap_status: "status (snd (up_heap pos hs) x) = status (snd hs x)"
proof -
  have "status (snd (snd (float_up t pos hs)) x) = status (snd hs x)" for t x
  proof (induction t pos hs rule: float_up.induct)
    case (1 t pos hs)
    then show ?case by (subst float_up.simps) (simp add: slot_def)
  qed
  then show ?thesis by (simp add: up_heap_def Let_def case_prod_beta slot_def)
qed

lemma add_entry_status:
  assumes "x \<noteq> t"
  shows "status (tm (snd (add_entry t s)) x) = status (tm s x)"
  using assms
  by (simp add: add_entry_def Let_def case_prod_beta add_to_heap_def add_to_list_def set_status_def
      up_heap_status slots_of_def slot_def t_bug_def)

lemma core_eqI:
  assumes "expires (tm s' x) = expires (tm s x)" and "t_cpu (tm s' x) = t_cpu (tm s x)"
    and "status (core s' x) = status (core s x)"
  shows "core s' x = core s x"
  using assms by (cases "tm s x"; cases "tm s' x") (simp add: core_def)

text \<open>One round: the next timer of the list enters the heap, or the list again.\<close>

lemma requeue_step:
  assumes ok: "timers_ok (marked (insert t R) s)" and t: "t \<notin> R"
    and st: "\<forall>x\<in>insert t R. status (tm s x) = TIMER_STATUS_in_list \<and> t_cpu (tm s x) < TIMER_CPU_status_killed"
  defines "s1 \<equiv> snd (add_entry t (set_status t TIMER_STATUS_invalid s))"
  shows "timers_ok (marked R s1)" and "core s1 = core s" and "t_fault s1 = t_fault s"
    and "\<forall>x\<in>R. status (tm s1 x) = TIMER_STATUS_in_list \<and> t_cpu (tm s1 x) < TIMER_CPU_status_killed"
proof -
  let ?m = "marked (insert t R) s"
  have m: "?m = marked R (set_status t TIMER_STATUS_invalid s)"
    using t by (auto simp: marked_def set_status_def upd_tm_def mark_def fun_eq_iff)
  have step: "timer_step t (\<lambda>x. x\<lparr>status := TIMER_STATUS_in_heap\<rparr>) ?m (marked R s1)"
    using add_entry_step [OF ok, of t] st t unfolding m s1_def add_entry_mark [OF t] by simp
  show "timers_ok (marked R s1)" by (rule timer_step_ok [OF step])
  show "t_fault s1 = t_fault s" using step by (simp add: timer_step_def)
  have others: "status (tm s1 x) = status (tm s x)" if "x \<noteq> t" for x
    using add_entry_status [OF that] that by (simp add: s1_def)
  note c = timer_step_core [OF step]
  have f: "expires (tm s1 x) = expires (tm s x)" "t_cpu (tm s1 x) = t_cpu (tm s x)" for x
    using arg_cong [OF c [of x], of expires] arg_cong [OF c [of x], of t_cpu] by (auto split: if_splits)
  show "core s1 = core s"
  proof
    fix x
    show "core s1 x = core s x"
    proof (rule core_eqI [OF f])
      have "status (core s1 t) = TIMER_STATUS_in_heap"
        using arg_cong [OF c [of t], of status] t by (simp add: core_def split: if_splits)
      then show "status (core s1 x) = status (core s x)"
        using others [of x] st by (cases "x = t") (auto simp: core_def)
    qed
  qed
  show "\<forall>x\<in>R. status (tm s1 x) = TIMER_STATUS_in_list \<and> t_cpu (tm s1 x) < TIMER_CPU_status_killed"
  proof
    fix x assume x: "x \<in> R"
    with t have "x \<noteq> t" by auto
    from others [OF this] f(2) [of x] x st
    show "status (tm s1 x) = TIMER_STATUS_in_list \<and> t_cpu (tm s1 x) < TIMER_CPU_status_killed" by simp
  qed
qed

lemma requeue_list:
  assumes "timers_ok (marked (set l) s)" and "distinct l"
    and "\<forall>x\<in>set l. status (tm s x) = TIMER_STATUS_in_list \<and> t_cpu (tm s x) < TIMER_CPU_status_killed"
  defines "s' \<equiv> fold (\<lambda>t s. snd (add_entry t (set_status t TIMER_STATUS_invalid s))) l s"
  shows "timers_ok s' \<and> core s' = core s \<and> t_fault s' = t_fault s"
  unfolding s'_def using assms(1-3)
proof (induction l arbitrary: s)
  case Nil
  then show ?case by (simp add: marked_def mark_def)
next
  case (Cons t l)
  from Cons.prems have t: "t \<notin> set l" "distinct l" by simp_all
  note r = requeue_step [of t "set l" s, OF _ t(1)]
  from Cons.prems(1,3) have p: "timers_ok (marked (insert t (set l)) s)"
    "\<forall>x\<in>insert t (set l). status (tm s x) = TIMER_STATUS_in_list \<and> t_cpu (tm s x) < TIMER_CPU_status_killed"
    by simp_all
  from Cons.IH [OF r(1) [OF p] t(2) r(4) [OF p]] r(2,3) [OF p] show ?case by simp
qed

lemma list_to_heap_keeps:
  assumes ok: "timers_ok s"
  shows "timers_ok (list_to_heap c s) \<and> core (list_to_heap c s) = core s \<and> t_fault (list_to_heap c s) = t_fault s"
proof -
  note old = timers_okD [OF ok]
  let ?l = "t_list (ts s c)"
  let ?s0 = "upd_ts c (\<lambda>x. x\<lparr>t_list := []\<rparr>) s"
  let ?m = "marked (set ?l) ?s0"
  have hset: "heap_set ?m c' = heap_set s c'" for c'
    by (simp add: heap_set_def slots_of_def in_heap_def)
  have "heap_ok (heap_size (ts ?m c')) (slots_of c' ?m)" for c'
    using heap_ok_cong [OF old(1) [of c', unfolded slots_of_def], of "tm ?m"] by (auto simp: slots_of_def)
  then have "queues_ok ?m" using old(2-6) by (simp add: queues_ok_def)
  moreover have "placed ?m"
    unfolding placed_def hset using old(7-9) by auto
  moreover have "cpus_ok ?m"
    using ok unfolding timers_ok_def cpus_ok_def by simp
  ultimately have "timers_ok ?m" by (simp add: timers_ok_def)
  moreover have "\<forall>x\<in>set ?l. status (tm ?s0 x) = TIMER_STATUS_in_list \<and> t_cpu (tm ?s0 x) < TIMER_CPU_status_killed"
  proof
    fix x assume "x \<in> set ?l"
    then have "status (tm s x) = TIMER_STATUS_in_list" using old(8) by simp
    with timers_ok_cpu [OF ok, of x]
    show "status (tm ?s0 x) = TIMER_STATUS_in_list \<and> t_cpu (tm ?s0 x) < TIMER_CPU_status_killed" by simp
  qed
  ultimately have "timers_ok (list_to_heap c s) \<and> core (list_to_heap c s) = core ?s0 \<and> t_fault (list_to_heap c s) = t_fault ?s0"
    unfolding list_to_heap_def using old(4) [of c] by (intro requeue_list)
  then show ?thesis by simp
qed

section \<open>The softirq\<close>

lemma grow_heap_keeps:
  assumes ok: "timers_ok s"
  shows "timers_ok (grow_heap mem c s)" and "tm (grow_heap mem c s) = tm s"
    and "t_fault (grow_heap mem c s) = t_fault s"
proof -
  have "limit_ok l \<Longrightarrow> l \<le> ((l + 1) * 16 - 1) mod 2 ^ 16 \<and> limit_ok (((l + 1) * 16 - 1) mod 2 ^ 16)" for l
    by (auto simp: limit_ok_def)
  from this [OF timers_okD(3) [OF ok, of c]] timers_okD(2,3) [OF ok]
  have "heap_size (ts s c') \<le> heap_limit (ts (grow_heap mem c s) c')
    \<and> limit_ok (heap_limit (ts (grow_heap mem c s) c'))" for c'
    using le_trans [OF timers_okD(2) [OF ok, of c]] by (auto simp: grow_heap_def)
  then show "timers_ok (grow_heap mem c s)"
    by (intro timers_ok_cong [OF _ _ _ _ _ _ ok]) (simp_all add: grow_heap_def)
  show "tm (grow_heap mem c s) = tm s" "t_fault (grow_heap mem c s) = t_fault s"
    by (simp_all add: grow_heap_def)
qed

lemma due_cong: "core s' = core s \<Longrightarrow> due now c s' = due now c s"
  unfolding set_eq_iff due_core by simp

text \<open>The deadline that the softirq computes is the earliest expiry on the CPU.\<close>

lemma earliest_least:
  assumes ok: "timers_ok s" and x: "active_timer x s" "t_cpu (tm s x) = c"
  shows "earliest c s \<le> expires (tm s x)"
proof (cases "status (tm s x) = TIMER_STATUS_in_heap")
  case True
  note pos = in_heap_pos [OF ok True x(2)]
  have "expires (tm s (heap (ts s c) 1)) \<le> expires (tm s x)"
    using heap_ok_root [OF timers_okD(1) [OF ok, of c], of "heap_offset (tm s x)"] pos
    by (simp add: expiry_def slots_of_def)
  with pos(1) show ?thesis by (auto simp: earliest_def Let_def split: list.splits)
next
  case False
  then have "x \<in> set (t_list (ts s c))"
    using x timers_okD(8) [OF ok, of x c] by (simp add: active_timer_def)
  then obtain t l where l: "t_list (ts s c) = t # l" by (cases "t_list (ts s c)") auto
  with timers_okD(6) [OF ok, of c] \<open>x \<in> set _\<close> have "expires (tm s t) \<le> expires (tm s x)" by auto
  with l show ?thesis by (auto simp: earliest_def Let_def)
qed

lemma earliest_attained:
  assumes ok: "timers_ok s"
  shows "earliest c s = STIME_MAX \<or> (\<exists>x. active_timer x s \<and> t_cpu (tm s x) = c \<and> earliest c s = expires (tm s x))"
proof -
  have hd: "active_timer t s \<and> t_cpu (tm s t) = c" if "t_list (ts s c) = t # l" for t l
    using timers_okD(8) [OF ok, of t c] that by (simp add: active_timer_def)
  have top: "active_timer (heap (ts s c) 1) s \<and> t_cpu (tm s (heap (ts s c) 1)) = c"
    if "heap_size (ts s c) \<noteq> 0"
    using heap_top_active [OF ok that] by (simp add: active_timer_def)
  show ?thesis
    using hd top by (auto simp: earliest_def Let_def split: list.splits)
qed

lemma timer_softirq_result:
  assumes ok: "timers_ok s" and fn: "handlers_ok now c fn"
  shows "\<exists>s'. timer_softirq_action fn mem slop reprogram c now now2 s = Some s'
    \<and> timers_ok s' \<and> due now c s' = {} \<and> (\<exists>d. timer_deadline s' c = (if d = STIME_MAX then 0 else max d (s64 (now2 + slop)))
      \<and> (\<forall>x. active_timer x s' \<and> t_cpu (tm s' x) = c \<longrightarrow> d \<le> expires (tm s' x))
      \<and> (d = STIME_MAX \<or> (\<exists>x. active_timer x s' \<and> t_cpu (tm s' x) = c \<and> d = expires (tm s' x))))
    \<and> (reprogram (timer_deadline s' c) \<or> c \<in> t_softirqs s')"
proof -
  obtain s1 where s1: "run_heap fn c now (grow_heap mem c s) = Some s1" "timers_ok s1"
    "\<forall>x\<in>due now c s1. status (tm s1 x) = TIMER_STATUS_in_list"
    using run_heap_ends [OF fn grow_heap_keeps(1) [OF ok]] by blast
  obtain s2 where s2: "run_list fn c now s1 = Some s2" "timers_ok s2" "due now c s2 = {}"
    using run_list_ends [OF fn s1(2,3)] by blast
  define s3 where "s3 = list_to_heap c s2"
  have l: "timers_ok s3" "core s3 = core s2"
    using list_to_heap_keeps [OF s2(2), of c] by (simp_all add: s3_def)
  define d where "d = earliest c s3"
  define v where "v = (if d = STIME_MAX then 0 else max d (s64 (now2 + slop)))"
  define s4 where "s4 = s3\<lparr>timer_deadline := (timer_deadline s3)(c := v)\<rparr>"
  define s' where "s' = (if reprogram v then s4 else raise_timer c s4)"
  have r: "timer_softirq_action fn mem slop reprogram c now now2 s = Some s'"
    by (simp add: timer_softirq_action_def s1(1) s2(1) Let_def d_def v_def s3_def s4_def s'_def)
  have tm: "tm s' = tm s3" "ts s' = ts s3" "timer_deadline s' c = v" by (simp_all add: s'_def s4_def)
  have act: "active_timer x s' = active_timer x s3" for x by (simp add: active_timer_def tm)
  have "timers_ok s'"
    by (rule timers_ok_cong [of _ s3]) (use l(1) timers_okD(2,3) [OF l(1)] in \<open>simp_all add: tm\<close>)
  moreover have "due now c s' = {}"
    using s2(3) due_cong [OF l(2)] by (simp add: due_def act tm)
  moreover have "\<forall>x. active_timer x s' \<and> t_cpu (tm s' x) = c \<longrightarrow> d \<le> expires (tm s' x)"
    using earliest_least [OF l(1)] unfolding act tm d_def by blast
  moreover have "d = STIME_MAX \<or> (\<exists>x. active_timer x s' \<and> t_cpu (tm s' x) = c \<and> d = expires (tm s' x))"
    using earliest_attained [OF l(1), of c] unfolding act tm d_def by blast
  moreover have "reprogram (timer_deadline s' c) \<or> c \<in> t_softirqs s'" by (simp add: tm(3)) (simp add: s'_def)
  ultimately show ?thesis using r tm(3) unfolding v_def by blast
qed

section \<open>Removing a CPU\<close>

lemma queues_empty_iff:
  assumes "timers_ok s"
  shows "heap_size (ts s c) = 0 \<and> t_list (ts s c) = [] \<longleftrightarrow> {x. active_timer x s \<and> t_cpu (tm s x) = c} = {}"
  unfolding active_iff [OF assms]
  by (simp only: Collect_mem_eq Un_empty heap_set_def in_heap_def image_is_empty set_empty) auto

lemma move_active_head:
  assumes ok: "timers_ok s" and ne: "\<not> (heap_size (ts s c) = 0 \<and> t_list (ts s c) = [])"
  defines "t \<equiv> (if heap_size (ts s c) \<noteq> 0 then heap (ts s c) 1 else hd (t_list (ts s c)))"
  shows "active_timer t s" and "t_cpu (tm s t) = c"
proof -
  have "active_timer t s \<and> t_cpu (tm s t) = c"
  proof (cases "heap_size (ts s c) = 0")
    case True
    with ne have "t \<in> set (t_list (ts s c))" by (simp add: t_def)
    then show ?thesis using timers_okD(8) [OF ok, of t c] by (simp add: active_timer_def)
  next
    case False
    then show ?thesis using heap_top_active [OF ok False] by (simp add: t_def active_timer_def)
  qed
  then show "active_timer t s" "t_cpu (tm s t) = c" by simp_all
qed

text \<open>Taking an active timer from one CPU to another.\<close>

lemma transfer_step:
  assumes ok: "timers_ok s" and t: "active_timer t s" and new: "new_cpu < TIMER_CPU_status_killed"
  shows "timer_step t (\<lambda>x. x\<lparr>t_cpu := new_cpu\<rparr>) s
    (snd (add_entry t (upd_tm t (\<lambda>y. y\<lparr>t_cpu := new_cpu mod 2 ^ 16\<rparr>) (snd (remove_entry t s)))))"
    (is "timer_step t _ s (snd (add_entry t ?s2))")
proof -
  let ?s1 = "snd (remove_entry t s)"
  have m: "new_cpu mod 65536 = new_cpu" using new by (simp add: TIMER_CPU_status_killed_def)
  have s1: "timer_step t (\<lambda>x. x\<lparr>status := TIMER_STATUS_invalid\<rparr>) s ?s1"
    by (rule remove_entry_step [OF ok t])
  have i1: "status (tm ?s1 t) = TIMER_STATUS_invalid" using timer_step_fields(3) [OF s1] by simp
  have "timers_ok ?s2" by (rule loose_change [OF timer_step_ok [OF s1]]) (simp_all add: i1)
  moreover have "core ?s2 = (core ?s1)(t := (core ?s1 t)\<lparr>t_cpu := new_cpu\<rparr>)"
    by (rule core_update) (simp_all add: core_def m)
  ultimately have s2: "timer_step t (\<lambda>x. x\<lparr>t_cpu := new_cpu\<rparr>) ?s1 ?s2" by (simp add: timer_step_def)
  have "timer_step t (\<lambda>x. x\<lparr>status := TIMER_STATUS_in_heap\<rparr>) ?s2 (snd (add_entry t ?s2))"
    by (rule add_entry_step [OF timer_step_ok [OF s2]]) (use i1 m new in simp_all)
  from timer_step_trans [OF timer_step_trans [OF s1 s2] this]
  show ?thesis
  proof (rule timer_step_cong)
    have "status (core s t) = TIMER_STATUS_in_heap" using t by simp
    then show "((\<lambda>x. x\<lparr>status := TIMER_STATUS_in_heap\<rparr>) \<circ> ((\<lambda>x. x\<lparr>t_cpu := new_cpu\<rparr>) \<circ> (\<lambda>x. x\<lparr>status := TIMER_STATUS_invalid\<rparr>))) (core s t)
      = (core s t)\<lparr>t_cpu := new_cpu\<rparr>"
      by (cases "core s t") simp
  qed
qed

text \<open>The timers of \<open>old_cpu\<close> with one of the given states, moved to \<open>new_cpu\<close>.\<close>

definition rebound :: "timer_status set \<Rightarrow> nat \<Rightarrow> nat \<Rightarrow> (nat \<Rightarrow> timer) \<Rightarrow> nat \<Rightarrow> timer" where
  "rebound S old_cpu new_cpu f =
     (\<lambda>x. if t_cpu (f x) = old_cpu \<and> status (f x) \<in> S then (f x)\<lparr>t_cpu := new_cpu\<rparr> else f x)"

lemma move_active_ends:
  assumes "timers_ok s" and "old_cpu \<noteq> new_cpu" and "new_cpu < TIMER_CPU_status_killed"
  shows "\<exists>n s'. move_active old_cpu new_cpu notify s = Some (n, s') \<and> timers_ok s'
    \<and> core s' = rebound {TIMER_STATUS_in_heap} old_cpu new_cpu (core s)
    \<and> t_fault s' = t_fault s"
  using assms(1)
proof (induction "card {x. active_timer x s \<and> t_cpu (tm s x) = old_cpu}" arbitrary: s notify rule: less_induct)
  case less
  let ?A = "\<lambda>s. {x. active_timer x s \<and> t_cpu (tm s x) = old_cpu}"
  show ?case
  proof (cases "heap_size (ts s old_cpu) = 0 \<and> t_list (ts s old_cpu) = []")
    case True
    then have "?A s = {}" using queues_empty_iff [OF less.prems] by blast
    then have "core s = rebound {TIMER_STATUS_in_heap} old_cpu new_cpu (core s)"
      by (auto simp: rebound_def fun_eq_iff)
    moreover have "move_active old_cpu new_cpu notify s = Some (notify, s)"
      using True by (subst move_active.simps) (simp add: Let_def)
    ultimately show ?thesis using less.prems by simp
  next
    case False
    let ?t = "if heap_size (ts s old_cpu) \<noteq> 0 then heap (ts s old_cpu) 1 else hd (t_list (ts s old_cpu))"
    define t where "t = ?t"
    have t: "active_timer t s" "t_cpu (tm s t) = old_cpu"
      using move_active_head [OF less.prems False] by (simp_all only: t_def)
    let ?r = "add_entry t (upd_tm t (\<lambda>y. y\<lparr>t_cpu := new_cpu mod 2 ^ 16\<rparr>) (snd (remove_entry t s)))"
    have st: "timer_step t (\<lambda>x. x\<lparr>t_cpu := new_cpu\<rparr>) s (snd ?r)"
      by (rule transfer_step [OF less.prems t(1) assms(3)])
    note core = timer_step_core [OF st]
    have A: "?A (snd ?r) = ?A s - {t}"
    proof (rule set_eqI)
      fix x
      have "x \<in> ?A (snd ?r) \<longleftrightarrow> status (core (snd ?r) x) = TIMER_STATUS_in_heap \<and> t_cpu (core (snd ?r) x) = old_cpu"
        by simp
      also have "\<dots> \<longleftrightarrow> x \<in> ?A s - {t}" unfolding core using assms(2) by auto
      finally show "x \<in> ?A (snd ?r) \<longleftrightarrow> x \<in> ?A s - {t}" .
    qed
    have "card (?A (snd ?r)) < card (?A s)"
      unfolding A using t finite_active [OF less.prems, of old_cpu] by (intro psubset_card_mono) auto
    from less.hyps [OF this timer_step_ok [OF st]] obtain n s' where
      s': "move_active old_cpu new_cpu (notify \<or> fst ?r) (snd ?r) = Some (n, s')" "timers_ok s'"
      "core s' = rebound {TIMER_STATUS_in_heap} old_cpu new_cpu (core (snd ?r))" "t_fault s' = t_fault (snd ?r)"
      by blast
    have "move_active old_cpu new_cpu notify s = Some (n, s')"
      unfolding move_active.simps [of old_cpu new_cpu notify s] Let_def if_not_P [OF False]
        t_def [symmetric] case_prod_beta by (rule s'(1))
    moreover have "core s' = rebound {TIMER_STATUS_in_heap} old_cpu new_cpu (core s)"
    proof -
      have "core (snd ?r) = (core s)(t := (core s t)\<lparr>t_cpu := new_cpu\<rparr>)"
        using st by (simp add: timer_step_def)
      then show ?thesis unfolding s'(3) rebound_def using t assms(2) by (auto simp: fun_eq_iff)
    qed
    ultimately show ?thesis using s'(2,4) st by (simp add: timer_step_def)
  qed
qed

text \<open>The inactive timers follow.\<close>

lemma move_inactive_fold:
  assumes "timers_ok s" and "old_cpu \<noteq> new_cpu" and "new_cpu < TIMER_CPU_status_killed" and "distinct l"
    and "\<forall>x\<in>set l. status (tm s x) = TIMER_STATUS_inactive \<and> t_cpu (tm s x) = old_cpu"
  defines "s' \<equiv> fold (\<lambda>t s. upd_ts new_cpu (\<lambda>x. x\<lparr>t_inactive := t # t_inactive x\<rparr>)
                   (upd_tm t (\<lambda>y. y\<lparr>t_cpu := new_cpu mod 2 ^ 16\<rparr>)
                     (upd_ts old_cpu (\<lambda>x. x\<lparr>t_inactive := remove1 t (t_inactive x)\<rparr>) s))) l s"
  shows "timers_ok s' \<and> core s' = (\<lambda>x. if x \<in> set l then (core s x)\<lparr>t_cpu := new_cpu\<rparr> else core s x)
    \<and> t_fault s' = t_fault s"
  unfolding s'_def using assms(1,4,5)
proof (induction l arbitrary: s)
  case (Cons t l)
  let ?s1 = "upd_ts new_cpu (\<lambda>x. x\<lparr>t_inactive := t # t_inactive x\<rparr>)
      (upd_tm t (\<lambda>y. y\<lparr>t_cpu := new_cpu mod 2 ^ 16\<rparr>)
        (upd_ts old_cpu (\<lambda>x. x\<lparr>t_inactive := remove1 t (t_inactive x)\<rparr>) s))"
  have t: "status (tm s t) = TIMER_STATUS_inactive" "t_cpu (tm s t) = old_cpu" using Cons.prems by simp_all
  have st: "timer_step t (\<lambda>x. x\<lparr>t_cpu := new_cpu\<rparr>) s ?s1"
    using rebind_step [OF Cons.prems(1) t(1) assms(3)] by (simp only: t(2))
  have "\<forall>x\<in>set l. status (tm ?s1 x) = TIMER_STATUS_inactive \<and> t_cpu (tm ?s1 x) = old_cpu"
    using Cons.prems(2,3) by auto
  from Cons.IH [OF timer_step_ok [OF st] _ this] Cons.prems(2) timer_step_core [OF st] st
  show ?case by (auto simp: timer_step_def fun_eq_iff)
qed simp

lemma migrate_timers_result:
  assumes ok: "timers_ok s" and cpus: "old_cpu \<notin> online" "new_cpu \<in> online" "new_cpu < TIMER_CPU_status_killed"
  shows "\<exists>s'. migrate_timers_from_cpu online new_cpu old_cpu s = Some s' \<and> timers_ok s'
    \<and> core s' = rebound {TIMER_STATUS_in_heap, TIMER_STATUS_inactive} old_cpu new_cpu (core s)
    \<and> t_fault s' = t_fault s"
proof -
  have ne: "old_cpu \<noteq> new_cpu" using cpus by auto
  obtain n s1 where s1: "move_active old_cpu new_cpu False s = Some (n, s1)" "timers_ok s1"
    "core s1 = rebound {TIMER_STATUS_in_heap} old_cpu new_cpu (core s)" "t_fault s1 = t_fault s"
    using move_active_ends [OF ok ne cpus(3), of False] by blast
  let ?s2 = "move_inactive old_cpu new_cpu s1"
  let ?l = "t_inactive (ts s1 old_cpu)"
  have mem: "x \<in> set ?l \<longleftrightarrow> status (core s1 x) = TIMER_STATUS_inactive \<and> t_cpu (core s1 x) = old_cpu" for x
    using timers_okD(9) [OF s1(2), of x old_cpu] by simp
  have m: "timers_ok ?s2 \<and> core ?s2 = (\<lambda>x. if x \<in> set ?l then (core s1 x)\<lparr>t_cpu := new_cpu\<rparr> else core s1 x)
    \<and> t_fault ?s2 = t_fault s1"
    unfolding move_inactive_def
    by (rule move_inactive_fold [OF s1(2) ne cpus(3) timers_okD(5) [OF s1(2)]])
      (simp add: timers_okD(9) [OF s1(2)])
  have "core ?s2 = rebound {TIMER_STATUS_in_heap, TIMER_STATUS_inactive} old_cpu new_cpu (core s)"
    using m ne unfolding mem s1(3) rebound_def by (auto simp: fun_eq_iff)
  moreover have "migrate_timers_from_cpu online new_cpu old_cpu s = Some (if n then raise_timer new_cpu ?s2 else ?s2)"
    using cpus s1(1) by (simp add: migrate_timers_from_cpu_def Let_def)
  ultimately show ?thesis using m s1(4) by simp
qed

end
