(* ===== verification/Timer_Props.thy ===== *)
theory Timer_Props
  imports Timer_Softirq
begin

text \<open>
  What the timer module promises: its operations refine the four operations on the timers
  their users see, whatever the heap and the lists look like; a timer that is set to expire
  first wakes its CPU; the timer softirq ends, leaves no expired timer and programs the
  hardware for the earliest one; no timer is lost when its CPU goes away.
\<close>

section \<open>The interface\<close>

datatype timer_cmd = Cmd_set int | Cmd_stop | Cmd_migrate nat | Cmd_kill

fun cmd_ok :: "timer_cmd \<Rightarrow> bool" where
  "cmd_ok (Cmd_migrate c) \<longleftrightarrow> c < TIMER_CPU_status_killed"
| "cmd_ok _ \<longleftrightarrow> True"

text \<open>The effect of a command on the timer as its user sees it.\<close>

fun atimer_cmd :: "timer_cmd \<Rightarrow> atimer \<Rightarrow> atimer" where
  "atimer_cmd (Cmd_set e) a = atimer_set e a"
| "atimer_cmd Cmd_stop a = atimer_stop a"
| "atimer_cmd (Cmd_migrate c) a = atimer_migrate c a"
| "atimer_cmd Cmd_kill a = atimer_kill a"

locale timer_service =
  fixes inv :: "'s \<Rightarrow> bool" and live :: "'s \<Rightarrow> nat \<Rightarrow> bool" and view :: "'s \<Rightarrow> nat \<Rightarrow> atimer"
    and exec :: "timer_cmd \<Rightarrow> nat \<Rightarrow> 's \<Rightarrow> 's"
  assumes exec_inv: "inv s \<Longrightarrow> live s t \<Longrightarrow> cmd_ok c \<Longrightarrow> inv (exec c t s)"
    and exec_live: "inv s \<Longrightarrow> live s t \<Longrightarrow> cmd_ok c \<Longrightarrow> live (exec c t s) = live s"
    and exec_view: "inv s \<Longrightarrow> live s t \<Longrightarrow> cmd_ok c \<Longrightarrow>
      view (exec c t s) = (view s)(t := atimer_cmd c (view s t))"
begin

text \<open>A sequence of commands for any timers.\<close>

lemma run_refines:
  assumes "inv s" and "\<forall>(t, c)\<in>set cs. live s t \<and> cmd_ok c"
  shows "inv (fold (\<lambda>(t, c). exec c t) cs s)"
    and "view (fold (\<lambda>(t, c). exec c t) cs s) = fold (\<lambda>(t, c) w. w(t := atimer_cmd c (w t))) cs (view s)"
  using assms
proof (induction cs arbitrary: s)
  case (Cons tc cs)
  obtain t c where tc: "tc = (t, c)" by (cases tc)
  {
    case 1
    with tc exec_inv [of s t c] exec_live [of s t c] show ?case
      by (auto intro!: Cons.IH(1))
  next
    case 2
    with tc exec_inv [of s t c] exec_live [of s t c] exec_view [of s t c] show ?case
      by (auto simp: Cons.IH(2))
  }
qed simp_all

text \<open>A timer is not affected by commands for other timers.\<close>

lemma run_other:
  assumes "inv s" and "\<forall>(t, c)\<in>set cs. live s t \<and> cmd_ok c" and "x \<notin> fst ` set cs"
  shows "view (fold (\<lambda>(t, c). exec c t) cs s) x = view s x"
proof -
  have "fold (\<lambda>(t, c) w. w(t := atimer_cmd c (w t))) cs w x = w x" for w :: "nat \<Rightarrow> atimer"
    using assms(3) by (induction cs arbitrary: w) auto
  then show ?thesis by (simp add: run_refines(2) [OF assms(1,2)])
qed

end

section \<open>The module provides it\<close>

definition timer_view :: "tstate \<Rightarrow> nat \<Rightarrow> atimer" where
  "timer_view s t =
     \<lparr>at_cpu = t_cpu (tm s t), at_expires = (if active_timer t s then Some (expires (tm s t)) else None),
      at_killed = (status (tm s t) = TIMER_STATUS_killed)\<rparr>"

text \<open>A call of the operation on CPU \<open>me\<close>.\<close>

fun timer_exec :: "nat \<Rightarrow> timer_cmd \<Rightarrow> nat \<Rightarrow> tstate \<Rightarrow> tstate" where
  "timer_exec me (Cmd_set e) t s = set_timer t e s"
| "timer_exec me Cmd_stop t s = stop_timer t s"
| "timer_exec me (Cmd_migrate c) t s = migrate_timer t c s"
| "timer_exec me Cmd_kill t s = kill_timer me t s"

definition timer_inv :: "nat \<Rightarrow> tstate \<Rightarrow> bool" where
  "timer_inv me s \<longleftrightarrow> timers_ok s \<and> t_running (ts s me) = None"

definition timer_live :: "tstate \<Rightarrow> nat \<Rightarrow> bool" where
  "timer_live s t \<longleftrightarrow> status (tm s t) \<noteq> TIMER_STATUS_invalid"

definition view_of :: "timer \<Rightarrow> atimer" where
  "view_of x =
     \<lparr>at_cpu = t_cpu x, at_expires = (if status x = TIMER_STATUS_in_heap then Some (expires x) else None),
      at_killed = (status x = TIMER_STATUS_killed)\<rparr>"

lemma timer_view_core: "timer_view s t = view_of (core s t)"
  by (simp add: timer_view_def view_of_def)

lemma timer_live_core: "timer_live s x \<longleftrightarrow> status (core s x) \<noteq> TIMER_STATUS_invalid"
  by (simp add: timer_live_def)

lemma timer_step_view:
  assumes st: "timer_step t f s s'" and inv: "timer_inv me s"
    and live: "status (core s t) \<noteq> TIMER_STATUS_invalid" "status (f (core s t)) \<noteq> TIMER_STATUS_invalid"
    and view: "view_of (f (core s t)) = g (view_of (core s t))"
  shows "timer_inv me s' \<and> timer_live s' = timer_live s \<and> timer_view s' = (timer_view s)(t := g (timer_view s t))"
proof -
  have core: "core s' = (core s)(t := f (core s t))" using st by (simp add: timer_step_def)
  have "timer_live s' = timer_live s"
    unfolding fun_eq_iff timer_live_core core using live by simp
  moreover have "timer_view s' = (timer_view s)(t := g (timer_view s t))"
    using view by (simp add: fun_eq_iff timer_view_core core)
  moreover have "timer_inv me s'" using st inv by (simp add: timer_inv_def timer_step_def)
  ultimately show ?thesis by blast
qed

lemma timer_exec_result:
  assumes inv: "timer_inv me s" and live: "timer_live s t" and c: "cmd_ok c"
  shows "timer_inv me (timer_exec me c t s) \<and> timer_live (timer_exec me c t s) = timer_live s
    \<and> timer_view (timer_exec me c t s) = (timer_view s)(t := atimer_cmd c (timer_view s t))"
proof (cases "status (tm s t) = TIMER_STATUS_killed")
  case True
  have "t_cpu (tm s t) = TIMER_CPU_status_killed"
    using inv True unfolding timer_inv_def timers_ok_def cpus_ok_def by blast
  with True inv have "timer_exec me c t s = s" "atimer_cmd c (timer_view s t) = timer_view s t"
    by (cases c, simp_all add: set_timer_def stop_timer_def migrate_timer_def kill_timer_def timer_lock_def
        timer_inv_def timer_view_def active_timer_def atimer_set_def atimer_stop_def atimer_migrate_def
        atimer_kill_def)+
  with inv show ?thesis by simp
next
  case False
  have ok: "timers_ok s" and run: "t_running (ts s me) \<noteq> Some t" and st: "status (tm s t) \<noteq> TIMER_STATUS_invalid"
    using inv live by (simp_all add: timer_inv_def timer_live_def)
  note v = timer_step_view [OF _ inv]
  note defs = view_of_def atimer_set_def atimer_stop_def atimer_migrate_def atimer_kill_def
  show ?thesis
  proof (cases c)
    case (Cmd_set e)
    then show ?thesis using v [OF set_timer_step(1) [OF ok st False], where g = "atimer_set e"] st False
      by (simp add: defs)
  next
    case Cmd_stop
    then show ?thesis using v [OF stop_timer_step [OF ok st False], where g = atimer_stop] st False
      by (simp add: defs)
  next
    case (Cmd_migrate n)
    with c have "n < TIMER_CPU_status_killed" by simp
    then show ?thesis using Cmd_migrate v [OF migrate_timer_step [OF ok st False], where g = "atimer_migrate n"] st False
      by (simp add: defs)
  next
    case Cmd_kill
    then show ?thesis using v [OF kill_timer_step [OF ok st False run], where g = atimer_kill] st False
      by (simp add: defs)
  qed
qed

interpretation tmr: timer_service "timer_inv me" timer_live timer_view "timer_exec me" for me
  by unfold_locales (simp_all add: timer_exec_result)

section \<open>A concrete machine\<close>

text \<open>Before any timer is initialised: every CPU has the empty dummy heap.\<close>

definition timer_boot :: tstate where
  "timer_boot = \<lparr>tm = (\<lambda>_. \<lparr>expires = 0, heap_offset = 0, t_cpu = 0, status = TIMER_STATUS_invalid\<rparr>),
     ts = (\<lambda>_. \<lparr>heap = (\<lambda>_. 0), heap_size = 0, heap_limit = 0, t_list = [], t_running = None, t_inactive = []\<rparr>),
     timer_deadline = (\<lambda>_. 0), t_softirqs = {}, t_fault = False\<rparr>"

lemma timer_boot_inv: "timer_inv me timer_boot"
  by (simp add: timer_inv_def timers_ok_def queues_ok_def placed_def cpus_ok_def timer_boot_def heap_set_def
      in_heap_def heap_ok_def limit_ok_def)

text \<open>Timers 1 and 2 on CPU 0, set to expire at 50 and 70.\<close>

definition timer_demo :: tstate where
  "timer_demo = set_timer 2 70 (set_timer 1 50 (init_timer 2 0 (init_timer 1 0 timer_boot)))"

lemma timer_demo_view:
  "timer_inv me timer_demo" "timer_live timer_demo t \<longleftrightarrow> t \<in> {1, 2}"
  "timer_view timer_demo 1 = \<lparr>at_cpu = 0, at_expires = Some 50, at_killed = False\<rparr>"
  "timer_view timer_demo 2 = \<lparr>at_cpu = 0, at_expires = Some 70, at_killed = False\<rparr>"
  "active_timer t timer_demo \<longleftrightarrow> t \<in> {1, 2}"
proof -
  let ?s1 = "init_timer 1 0 timer_boot" and ?s2 = "init_timer 2 0 (init_timer 1 0 timer_boot)"
  have b: "timers_ok timer_boot" "status (tm timer_boot t) = TIMER_STATUS_invalid" for t
    using timer_boot_inv by (simp_all add: timer_inv_def) (simp add: timer_boot_def)
  have c: "(0 :: nat) < TIMER_CPU_status_killed" by (simp add: TIMER_CPU_status_killed_def)
  have s1: "timer_step 1 (\<lambda>_. \<lparr>expires = 0, heap_offset = 0, t_cpu = 0, status = TIMER_STATUS_inactive\<rparr>) timer_boot ?s1"
    by (rule init_timer_step [OF b(1) _ c]) (simp add: b(2))
  have "status (core ?s1 2) = TIMER_STATUS_invalid" using timer_step_core [OF s1, of 2] b(2) [of 2] by simp
  then have s2: "timer_step 2 (\<lambda>_. \<lparr>expires = 0, heap_offset = 0, t_cpu = 0, status = TIMER_STATUS_inactive\<rparr>) ?s1 ?s2"
    by (intro init_timer_step [OF timer_step_ok [OF s1] _ c]) simp
  have core2: "core ?s2 t = (if t \<in> {1, 2} then \<lparr>expires = 0, heap_offset = 0, t_cpu = 0, status = TIMER_STATUS_inactive\<rparr>
      else core timer_boot t)" for t
    using timer_step_core [OF s2, of t] timer_step_core [OF s1, of t] by auto
  have inv2: "timer_inv me ?s2"
    using s1 s2 timer_boot_inv [of me] by (simp add: timer_inv_def timer_step_def)
  have live2: "timer_live ?s2 t \<longleftrightarrow> t \<in> {1, 2}" for t
    unfolding timer_live_core core2 using b(2) [of t] by simp
  have view2: "timer_view ?s2 t = (if t \<in> {1, 2} then atimer_init 0 else timer_view timer_boot t)" for t
    unfolding timer_view_core core2 by (simp add: view_of_def atimer_init_def)
  have run: "timer_demo = fold (\<lambda>(t, c). timer_exec me c t) [(1, Cmd_set 50), (2, Cmd_set 70)] ?s2"
    by (simp add: timer_demo_def)
  have pre: "\<forall>(t, c)\<in>set [(1, Cmd_set 50), (2, Cmd_set 70)]. timer_live ?s2 t \<and> cmd_ok c"
    using live2 by simp
  show "timer_inv me timer_demo"
    unfolding run by (rule tmr.run_refines(1) [OF inv2 pre])
  have v: "timer_view timer_demo = (timer_view ?s2)(1 := atimer_set 50 (atimer_init 0), 2 := atimer_set 70 (atimer_init 0))"
    using tmr.run_refines(2) [OF inv2 pre] unfolding run by (simp add: view2 [unfolded One_nat_def])
  then show "timer_view timer_demo 1 = \<lparr>at_cpu = 0, at_expires = Some 50, at_killed = False\<rparr>"
    "timer_view timer_demo 2 = \<lparr>at_cpu = 0, at_expires = Some 70, at_killed = False\<rparr>"
    by (simp_all add: atimer_set_def atimer_init_def)
  show "timer_live timer_demo t \<longleftrightarrow> t \<in> {1, 2}"
    using timer_exec_result [OF inv2, of 1 "Cmd_set 50"] live2
      timer_exec_result [of me "timer_exec me (Cmd_set 50) 1 ?s2" 2 "Cmd_set 70"] by (simp add: timer_demo_def)
  have "active_timer t timer_demo \<longleftrightarrow> at_expires (timer_view timer_demo t) \<noteq> None"
    by (simp add: timer_view_def)
  also have "\<dots> \<longleftrightarrow> t \<in> {1, 2}"
  proof -
    have "at_expires (timer_view timer_boot t) = None"
      using b(2) [of t] by (simp add: timer_view_def active_timer_def)
    then show ?thesis
      unfolding v by (simp add: view2 [unfolded One_nat_def] atimer_set_def atimer_init_def)
  qed
  finally show "active_timer t timer_demo \<longleftrightarrow> t \<in> {1, 2}" .
qed

lemma timer_demo_fields:
  "t_cpu (tm timer_demo 1) = 0" "t_cpu (tm timer_demo 2) = 0"
  "expires (tm timer_demo 1) = 50" "expires (tm timer_demo 2) = 70"
  "status (tm timer_demo 1) \<notin> {TIMER_STATUS_invalid, TIMER_STATUS_killed}"
  using timer_demo_view(3,4) timer_demo_view(5) [of 1] timer_demo_view(5) [of 2]
  by (auto simp: timer_view_def active_timer_def split: if_splits)

section \<open>Properties\<close>

text \<open>
  C4. The timer module refines the timers its users see. Any sequence of set_timer, stop_timer,
  migrate_timer and kill_timer calls on initialised timers keeps the invariant of the heaps
  and lists, and its effect on the CPU, the expiry time and the killed state of every timer is
  that of the same sequence on independent timers.
\<close>

theorem timer_run_refines:
  assumes "timer_inv me s" and "\<forall>(t, c)\<in>set cs. timer_live s t \<and> cmd_ok c"
  shows "timer_inv me (fold (\<lambda>(t, c). timer_exec me c t) cs s)
    \<and> timer_view (fold (\<lambda>(t, c). timer_exec me c t) cs s)
        = fold (\<lambda>(t, c) w. w(t := atimer_cmd c (w t))) cs (timer_view s)"
  using tmr.run_refines [OF assms] by blast

theorem timer_run_refines_witness:
  "timer_inv 0 timer_demo
   \<and> timer_view (fold (\<lambda>(t, c). timer_exec 0 c t) [(1, Cmd_migrate 3), (2, Cmd_kill), (1, Cmd_set 90)] timer_demo) 1
       = \<lparr>at_cpu = 3, at_expires = Some 90, at_killed = False\<rparr>"
proof -
  have "\<forall>(t, c)\<in>set [(1, Cmd_migrate 3), (2, Cmd_kill), (1, Cmd_set 90)]. timer_live timer_demo t \<and> cmd_ok c"
    by (simp add: timer_demo_view(2) TIMER_CPU_status_killed_def)
  from timer_run_refines [OF timer_demo_view(1) this, of 0] timer_demo_view(1)
  show ?thesis
    by (simp add: timer_demo_view(3) [simplified] atimer_migrate_def atimer_set_def)
qed

text \<open>
  C10. The timer softirq comes to an end and does its work: if no handler makes a timer due, it
  returns a state that keeps the invariant, in which no active timer of the CPU has expired;
  the deadline is the earliest expiry time on the CPU, at least one slop ahead (or 0 when there
  is none); and if the hardware could not be programmed for it the softirq is raised again.
\<close>

theorem timer_softirq_fires:
  assumes "timers_ok s" and "handlers_ok now c fn"
  shows "\<exists>s'. timer_softirq_action fn mem slop reprogram c now now2 s = Some s'
    \<and> timers_ok s' \<and> due now c s' = {} \<and> (\<exists>d. timer_deadline s' c = (if d = STIME_MAX then 0 else max d (s64 (now2 + slop)))
      \<and> (\<forall>x. active_timer x s' \<and> t_cpu (tm s' x) = c \<longrightarrow> d \<le> expires (tm s' x))
      \<and> (d = STIME_MAX \<or> (\<exists>x. active_timer x s' \<and> t_cpu (tm s' x) = c \<and> d = expires (tm s' x))))
    \<and> (reprogram (timer_deadline s' c) \<or> c \<in> t_softirqs s')"
  by (rule timer_softirq_result [OF assms])

theorem timer_softirq_fires_witness:
  "1 \<in> due 60 0 timer_demo
   \<and> (\<exists>s'. timer_softirq_action (\<lambda>_ s. s) True 100000 (\<lambda>_. True) 0 60 61 timer_demo = Some s' \<and> due 60 0 s' = {})"
proof -
  have ok: "timers_ok timer_demo" using timer_demo_view(1) by (simp add: timer_inv_def)
  have h: "handlers_ok 60 0 (\<lambda>_ s. s)" by (simp add: handlers_ok_def)
  have "1 \<in> due 60 0 timer_demo"
    using timer_demo_fields timer_demo_view(5) [of 1] by (simp add: due_def)
  with timer_softirq_fires [OF ok h, of True 100000 "\<lambda>_. True" 61] show ?thesis by blast
qed

text \<open>
  A timer set to expire before every other active timer of its CPU makes that CPU look: its
  timer softirq is pending when set_timer returns, whether the timer went to the heap or to
  the list.
\<close>

theorem set_timer_wakes:
  assumes "timers_ok s" and "status (tm s t) \<notin> {TIMER_STATUS_invalid, TIMER_STATUS_killed}"
    and "\<forall>x. x \<noteq> t \<and> active_timer x s \<and> t_cpu (tm s x) = t_cpu (tm s t) \<longrightarrow> e < expires (tm s x)"
  shows "t_cpu (tm s t) \<in> t_softirqs (set_timer t e s)"
  using set_timer_step(2) [OF assms(1), of t e] assms(2,3) by blast

theorem set_timer_wakes_witness:
  "t_cpu (tm timer_demo 1) = 0 \<and> 0 \<in> t_softirqs (set_timer 1 60 timer_demo)"
proof -
  have ok: "timers_ok timer_demo" using timer_demo_view(1) by (simp add: timer_inv_def)
  have "\<forall>x. x \<noteq> 1 \<and> active_timer x timer_demo \<and> t_cpu (tm timer_demo x) = t_cpu (tm timer_demo 1)
    \<longrightarrow> 60 < expires (tm timer_demo x)"
    using timer_demo_fields(4) unfolding timer_demo_view(5) by auto
  from set_timer_wakes [OF ok timer_demo_fields(5) this] timer_demo_fields(1) show ?thesis by simp
qed

text \<open>
  C35. When a CPU goes away its timers are moved to an online CPU: the loops end without a
  fault, and every timer of that CPU that was active or inactive is bound to the new CPU, with
  its expiry time and its state unchanged, while all other timers are as they were.
\<close>

theorem migrate_timers_complete:
  assumes "timers_ok s" and "old_cpu \<notin> online" and "new_cpu \<in> online" and "new_cpu < TIMER_CPU_status_killed"
  shows "\<exists>s'. migrate_timers_from_cpu online new_cpu old_cpu s = Some s' \<and> timers_ok s' \<and> t_fault s' = t_fault s
    \<and> (\<forall>x. timer_view s' x =
          (if t_cpu (tm s x) = old_cpu \<and> status (tm s x) \<noteq> TIMER_STATUS_invalid \<and> status (tm s x) \<noteq> TIMER_STATUS_killed
           then (timer_view s x)\<lparr>at_cpu := new_cpu\<rparr> else timer_view s x))"
proof -
  obtain s' where s': "migrate_timers_from_cpu online new_cpu old_cpu s = Some s'" "timers_ok s'"
    "core s' = rebound {TIMER_STATUS_in_heap, TIMER_STATUS_inactive} old_cpu new_cpu (core s)" "t_fault s' = t_fault s"
    using migrate_timers_result [OF assms] by blast
  have "timer_view s' x =
      (if t_cpu (tm s x) = old_cpu \<and> status (tm s x) \<noteq> TIMER_STATUS_invalid \<and> status (tm s x) \<noteq> TIMER_STATUS_killed
       then (timer_view s x)\<lparr>at_cpu := new_cpu\<rparr> else timer_view s x)" for x
    unfolding timer_view_core s'(3) rebound_def
    by (cases "status (tm s x)") (auto simp: view_of_def active_timer_def)
  with s' show ?thesis by blast
qed

theorem migrate_timers_complete_witness:
  "\<exists>s'. migrate_timers_from_cpu {1, 2} 1 0 timer_demo = Some s'
     \<and> timer_view s' 1 = \<lparr>at_cpu = 1, at_expires = Some 50, at_killed = False\<rparr>"
proof -
  have ok: "timers_ok timer_demo" using timer_demo_view(1) by (simp add: timer_inv_def)
  have "\<exists>s'. migrate_timers_from_cpu {1, 2} 1 0 timer_demo = Some s' \<and>
    timer_view s' 1 = (timer_view timer_demo 1)\<lparr>at_cpu := 1\<rparr>"
    using migrate_timers_complete [OF ok, of 0 "{1, 2}" 1] timer_demo_fields(1,5)
    by (auto simp: TIMER_CPU_status_killed_def)
  then show ?thesis using timer_demo_view(3) by simp
qed

text \<open>
  align_timer returns the first multiple of the period that is not before the first tick,
  as long as the tick is positive and the result fits in 63 bits. For a first tick of 0 the
  unsigned remainder makes it return something else when the period is not a power of two: with a
  period of 10 it returns 4.
\<close>

theorem align_timer_next:
  "(\<forall>firsttick period. 0 < firsttick \<and> 0 < period \<and> firsttick + period \<le> 2 ^ 63 \<longrightarrow>
      period dvd align_timer firsttick period
      \<and> firsttick \<le> align_timer firsttick period \<and> align_timer firsttick period < firsttick + period)
   \<and> align_timer 0 10 = 4"
proof (intro conjI allI impI)
  fix f p :: int
  assume a: "0 < f \<and> 0 < p \<and> f + p \<le> 2 ^ 63"
  define r where "r = f + (p - 1) - (f - 1) mod p"
  have m: "0 \<le> (f - 1) mod p" "(f - 1) mod p < p" "(f - 1) mod p \<le> f - 1"
    using a zmod_le_nonneg_dividend [of "f - 1" p] by simp_all
  have "u64 (f - 1) = f - 1" using a by (intro u64_id) simp_all
  moreover have "s64 (u64 r) = r"
    using a m u64_id [of r] s64_id [of r] by (simp add: r_def)
  ultimately have al: "align_timer f p = r"
    using a by (simp add: align_timer_def r_def)
  have "r = p + p * ((f - 1) div p)"
    using mult_div_mod_eq [of p "f - 1"] unfolding r_def by linarith
  then show "p dvd align_timer f p" by (simp add: al)
  show "f \<le> align_timer f p" "align_timer f p < f + p"
    using m by (simp_all add: al r_def)
next
  show "align_timer 0 10 = 4" by (simp add: align_timer_def u64_def s64_def)
qed

theorem align_timer_next_witness: "align_timer 25 10 = 30 \<and> 10 dvd align_timer 25 10"
  using conjunct1 [OF align_timer_next, rule_format, of 25 10]
  by (simp add: align_timer_def u64_def s64_def)

end
