(* ===== verification/Schedule.thy ===== *)
theory Schedule
  imports Sched_Types "HOL-Library.Monad_Syntax"
begin

text \<open>
  The scheduler-independent layer, common/schedule.c: run states, sleeping and waking,
  migration and affinity, polling, the timers of a vcpu, and the main function schedule(). A
  \<^verbatim>\<open>struct scheduler\<close> is a record of its hooks. Every function is one step of the CPU that runs
  it: locks are not modelled, but their addresses are, where the code compares them. A loop that may run forever returns \<open>None\<close> then. Tracing,
  statistics and printing are left out; moving interrupts (sched_move_irqs,
  domain_update_node_affinity) does not touch the state modelled here.
\<close>

section \<open>Scheduler hooks\<close>

text \<open>
  The hooks schedule.c may find missing are options. A hook that allocates takes a flag that
  says whether the allocation succeeds. free_vdata gets the vcpu that owns the block, free_pdata the CPU.
  The adjusting hooks get the member of the union that the fixed-priority scheduler uses.
\<close>

record ('v, 'd, 'p, 'g) scheduler =
  op_init :: "bool \<Rightarrow> nat \<Rightarrow> ('v, 'd, 'p, 'g) xen \<Rightarrow> rc \<times> ('v, 'd, 'p, 'g) xen"
  op_deinit :: "nat \<Rightarrow> ('v, 'd, 'p, 'g) xen \<Rightarrow> ('v, 'd, 'p, 'g) xen"
  op_alloc_vdata :: "bool \<Rightarrow> nat \<Rightarrow> nat \<Rightarrow> 'd option \<Rightarrow> ('v, 'd, 'p, 'g) xen \<Rightarrow> 'v option"
  op_free_vdata :: "nat \<Rightarrow> nat \<Rightarrow> ('v, 'd, 'p, 'g) xen \<Rightarrow> ('v, 'd, 'p, 'g) xen"
  op_alloc_pdata :: "bool \<Rightarrow> nat \<Rightarrow> nat \<Rightarrow> ('v, 'd, 'p, 'g) xen \<Rightarrow> (errno + 'p option) \<times> ('v, 'd, 'p, 'g) xen"
  op_init_pdata :: "(nat \<Rightarrow> 'p option \<Rightarrow> nat \<Rightarrow> ('v, 'd, 'p, 'g) xen \<Rightarrow> ('v, 'd, 'p, 'g) xen) option"
  op_free_pdata :: "nat \<Rightarrow> nat \<Rightarrow> ('v, 'd, 'p, 'g) xen \<Rightarrow> ('v, 'd, 'p, 'g) xen"
  op_deinit_pdata :: "(nat \<Rightarrow> 'p option \<Rightarrow> nat \<Rightarrow> ('v, 'd, 'p, 'g) xen \<Rightarrow> ('v, 'd, 'p, 'g) xen) option"
  op_alloc_domdata :: "bool \<Rightarrow> nat \<Rightarrow> nat \<Rightarrow> ('v, 'd, 'p, 'g) xen \<Rightarrow> 'd option"
  op_switch_sched :: "nat \<Rightarrow> nat \<Rightarrow> 'p option \<Rightarrow> 'v \<Rightarrow> ('v, 'd, 'p, 'g) xen \<Rightarrow> ('v, 'd, 'p, 'g) xen"
  op_init_domain :: "bool \<Rightarrow> nat \<Rightarrow> nat \<Rightarrow> ('v, 'd, 'p, 'g) xen \<Rightarrow> rc \<times> ('v, 'd, 'p, 'g) xen"
  op_destroy_domain :: "nat \<Rightarrow> nat \<Rightarrow> ('v, 'd, 'p, 'g) xen \<Rightarrow> ('v, 'd, 'p, 'g) xen"
  op_insert_vcpu :: "(nat \<Rightarrow> nat \<Rightarrow> ('v, 'd, 'p, 'g) xen \<Rightarrow> ('v, 'd, 'p, 'g) xen) option"
  op_remove_vcpu :: "(nat \<Rightarrow> nat \<Rightarrow> ('v, 'd, 'p, 'g) xen \<Rightarrow> ('v, 'd, 'p, 'g) xen) option"
  op_sleep :: "(nat \<Rightarrow> nat \<Rightarrow> ('v, 'd, 'p, 'g) xen \<Rightarrow> ('v, 'd, 'p, 'g) xen) option"
  op_wake :: "(nat \<Rightarrow> nat \<Rightarrow> ('v, 'd, 'p, 'g) xen \<Rightarrow> ('v, 'd, 'p, 'g) xen) option"
  op_yield :: "(nat \<Rightarrow> nat \<Rightarrow> ('v, 'd, 'p, 'g) xen \<Rightarrow> ('v, 'd, 'p, 'g) xen) option"
  op_context_saved :: "(nat \<Rightarrow> nat \<Rightarrow> ('v, 'd, 'p, 'g) xen \<Rightarrow> ('v, 'd, 'p, 'g) xen) option"
  op_do_schedule :: "nat \<Rightarrow> nat \<Rightarrow> int \<Rightarrow> bool \<Rightarrow> ('v, 'd, 'p, 'g) xen \<Rightarrow> task_slice \<times> ('v, 'd, 'p, 'g) xen"
  op_pick_cpu :: "nat \<Rightarrow> nat \<Rightarrow> ('v, 'd, 'p, 'g) xen \<Rightarrow> nat"
  op_tick_suspend :: "(nat \<Rightarrow> nat \<Rightarrow> ('v, 'd, 'p, 'g) xen \<Rightarrow> ('v, 'd, 'p, 'g) xen) option"
  op_tick_resume :: "(nat \<Rightarrow> nat \<Rightarrow> ('v, 'd, 'p, 'g) xen \<Rightarrow> ('v, 'd, 'p, 'g) xen) option"
  op_adjust :: "(nat \<Rightarrow> nat \<Rightarrow> domctl_schedop \<Rightarrow> xen_domctl_sched_fp \<Rightarrow> ('v, 'd, 'p, 'g) xen
    \<Rightarrow> rc \<times> xen_domctl_sched_fp \<times> ('v, 'd, 'p, 'g) xen) option"
  op_adjust_global :: "(nat \<Rightarrow> sysctl_schedop \<Rightarrow> xen_sysctl_fp_schedule \<Rightarrow> xen_sysctl_fp_schedule \<Rightarrow> ('v, 'd, 'p, 'g) xen
    \<Rightarrow> rc \<times> xen_sysctl_fp_schedule option \<times> ('v, 'd, 'p, 'g) xen) option"
  op_migrate :: "(nat \<Rightarrow> nat \<Rightarrow> nat \<Rightarrow> ('v, 'd, 'p, 'g) xen \<Rightarrow> ('v, 'd, 'p, 'g) xen) option"

text \<open>
  An instance of a scheduler is a copy of the structure registered under its \<^verbatim>\<open>sched_id\<close>: the
  environment gives the hooks of each kind, and \<open>sched_kind\<close> the kind of an instance.
\<close>

type_synonym ('v, 'd, 'p, 'g) sched_env = "nat \<Rightarrow> ('v, 'd, 'p, 'g) scheduler"

text \<open>Calling a hook that may be missing.\<close>

definition SCHED_OP ::
  "(nat \<Rightarrow> nat \<Rightarrow> ('v, 'd, 'p, 'g) xen \<Rightarrow> ('v, 'd, 'p, 'g) xen) option \<Rightarrow> nat \<Rightarrow> nat
    \<Rightarrow> ('v, 'd, 'p, 'g) xen \<Rightarrow> ('v, 'd, 'p, 'g) xen" where
  "SCHED_OP fn ops v s = (case fn of None \<Rightarrow> s | Some f \<Rightarrow> f ops v s)"

text \<open>
  Only the idle domain has no pool; its vcpus belong to the scheduler of their CPU.
\<close>

definition dom_scheduler :: "('v, 'd, 'p, 'g) xen \<Rightarrow> nat \<Rightarrow> nat" where
  "dom_scheduler s d =
     (case d_cpupool (domains s d) of Some c \<Rightarrow> cp_sched (pools s c) | None \<Rightarrow> default_ops s)"

definition vcpu_scheduler :: "('v, 'd, 'p, 'g) xen \<Rightarrow> nat \<Rightarrow> nat" where
  "vcpu_scheduler s v =
     (case d_cpupool (domains s (v_domain (vcpus s v))) of
        Some c \<Rightarrow> cp_sched (pools s c)
      | None \<Rightarrow> pcpu_sched s (processor (vcpus s v)))"

text \<open>The hooks of the scheduler of a vcpu.\<close>

definition vcpu_ops :: "('v, 'd, 'p, 'g) sched_env \<Rightarrow> ('v, 'd, 'p, 'g) xen \<Rightarrow> nat \<Rightarrow> ('v, 'd, 'p, 'g) scheduler" where
  "vcpu_ops E s v = E (sched_kind s (vcpu_scheduler s v))"

section \<open>Run states\<close>

definition urgent_wanted :: "('v, 'd, 'p, 'g) xen \<Rightarrow> nat \<Rightarrow> bool" where
  "urgent_wanted s v \<longleftrightarrow>
     VPF_blocked \<in> pause_flags (vcpus s v)
     \<and> vcpu_id (vcpus s v) \<in> poll_mask (domains s (v_domain (vcpus s v)))"

definition add_urgent :: "nat \<Rightarrow> int \<Rightarrow> ('v, 'd, 'p, 'g) xen \<Rightarrow> ('v, 'd, 'p, 'g) xen" where
  "add_urgent cpu n s = upd_pcpu cpu (\<lambda>x. x\<lparr>urgent_count := urgent_count x + n\<rparr>) s"

definition vcpu_urgent_count_update :: "nat \<Rightarrow> ('v, 'd, 'p, 'g) xen \<Rightarrow> ('v, 'd, 'p, 'g) xen" where
  "vcpu_urgent_count_update v s =
     (if is_idle_vcpu s v then s
      else if is_urgent (vcpus s v) then
        (if \<not> urgent_wanted s v
         then add_urgent (processor (vcpus s v)) (- 1) (upd_vcpu v (\<lambda>x. x\<lparr>is_urgent := False\<rparr>) s)
         else s)
      else
        (if urgent_wanted s v
         then add_urgent (processor (vcpus s v)) 1 (upd_vcpu v (\<lambda>x. x\<lparr>is_urgent := True\<rparr>) s)
         else s))"

text \<open>The times are unsigned 64-bit numbers.\<close>

definition runstate_account :: "int \<Rightarrow> vcpu_runstate_info \<Rightarrow> vcpu_runstate_info" where
  "runstate_account now r =
     (let delta = s64 (now - rs_entry r)
      in if delta > 0
         then r\<lparr>rs_time := (rs_time r)(rs_state r := u64 (rs_time r (rs_state r) + delta)), rs_entry := now\<rparr>
         else r)"

definition vcpu_runstate_change ::
  "nat \<Rightarrow> runstate_state \<Rightarrow> int \<Rightarrow> ('v, 'd, 'p, 'g) xen \<Rightarrow> ('v, 'd, 'p, 'g) xen" where
  "vcpu_runstate_change v new_state new_entry_time s =
     (let s0 = (if rs_state (runstate (vcpus s v)) = new_state then panic Assert_failed s else s);
          s1 = vcpu_urgent_count_update v s0
      in upd_vcpu v (\<lambda>x. x\<lparr>runstate := (runstate_account new_entry_time (runstate x))\<lparr>rs_state := new_state\<rparr>\<rparr>) s1)"

text \<open>The copy has its time brought up to date, but not its entry time.\<close>

definition vcpu_runstate_get :: "nat \<Rightarrow> ('v, 'd, 'p, 'g) xen \<Rightarrow> vcpu_runstate_info" where
  "vcpu_runstate_get v s =
     (let r = runstate (vcpus s v)
      in (runstate_account (clock s) r)\<lparr>rs_entry := rs_entry r\<rparr>)"

definition get_cpu_idle_time :: "nat \<Rightarrow> ('v, 'd, 'p, 'g) xen \<Rightarrow> int" where
  "get_cpu_idle_time cpu s =
     (if cpu \<in> cpu_online_map (glob s)
      then rs_time (vcpu_runstate_get (idle_vcpu s cpu) s) RUNSTATE_running else 0)"

section \<open>Sleeping and waking\<close>

definition vcpu_sleep_nosync ::
  "('v, 'd, 'p, 'g) sched_env \<Rightarrow> nat \<Rightarrow> ('v, 'd, 'p, 'g) xen \<Rightarrow> ('v, 'd, 'p, 'g) xen" where
  "vcpu_sleep_nosync E v s =
     (if \<not> vcpu_runnable s v then
        let s1 = (if rs_state (runstate (vcpus s v)) = RUNSTATE_runnable
                  then vcpu_runstate_change v RUNSTATE_offline (clock s) s else s)
        in SCHED_OP (op_sleep (vcpu_ops E s1 v)) (vcpu_scheduler s1 v) v s1
      else s)"

text \<open>
  \<open>relax\<close> is what the other CPUs do while this one waits for the vcpu to be descheduled.
\<close>

definition vcpu_sleep_sync ::
  "('v, 'd, 'p, 'g) sched_env \<Rightarrow> (nat \<Rightarrow> ('v, 'd, 'p, 'g) xen \<Rightarrow> ('v, 'd, 'p, 'g) xen) \<Rightarrow> nat
    \<Rightarrow> ('v, 'd, 'p, 'g) xen \<Rightarrow> ('v, 'd, 'p, 'g) xen" where
  "vcpu_sleep_sync E relax v s =
     (let s1 = vcpu_sleep_nosync E v s
      in if \<not> vcpu_runnable s1 v \<and> is_running (vcpus s1 v) then relax v s1 else s1)"

definition vcpu_wake ::
  "('v, 'd, 'p, 'g) sched_env \<Rightarrow> nat \<Rightarrow> ('v, 'd, 'p, 'g) xen \<Rightarrow> ('v, 'd, 'p, 'g) xen" where
  "vcpu_wake E v s =
     (if vcpu_runnable s v then
        let s1 = (if rs_state (runstate (vcpus s v)) \<ge> RUNSTATE_blocked
                  then vcpu_runstate_change v RUNSTATE_runnable (clock s) s else s)
        in SCHED_OP (op_wake (vcpu_ops E s1 v)) (vcpu_scheduler s1 v) v s1
      else if VPF_blocked \<notin> pause_flags (vcpus s v) \<and> rs_state (runstate (vcpus s v)) = RUNSTATE_blocked
      then vcpu_runstate_change v RUNSTATE_offline (clock s) s
      else s)"

definition set_flag :: "vpf \<Rightarrow> nat \<Rightarrow> ('v, 'd, 'p, 'g) xen \<Rightarrow> ('v, 'd, 'p, 'g) xen" where
  "set_flag f v s = upd_vcpu v (\<lambda>x. x\<lparr>pause_flags := insert f (pause_flags x)\<rparr>) s"

definition clear_flag :: "vpf \<Rightarrow> nat \<Rightarrow> ('v, 'd, 'p, 'g) xen \<Rightarrow> ('v, 'd, 'p, 'g) xen" where
  "clear_flag f v s = upd_vcpu v (\<lambda>x. x\<lparr>pause_flags := pause_flags x - {f}\<rparr>) s"

text \<open>The poll bit is cleared for a polling vcpu; its blocked flag is clear already.\<close>

definition vcpu_unblock ::
  "('v, 'd, 'p, 'g) sched_env \<Rightarrow> nat \<Rightarrow> ('v, 'd, 'p, 'g) xen \<Rightarrow> ('v, 'd, 'p, 'g) xen" where
  "vcpu_unblock E v s =
     (if VPF_blocked \<notin> pause_flags (vcpus s v) then s
      else
        let s1 = clear_flag VPF_blocked v s;
            s2 = (if poll_evtchn (vcpus s1 v) \<noteq> 0 then
                    let s' = upd_vcpu v (\<lambda>x. x\<lparr>poll_evtchn := 0\<rparr>) s1;
                        d = v_domain (vcpus s' v); i = vcpu_id (vcpus s' v)
                    in if i \<in> poll_mask (domains s' d)
                       then clear_flag VPF_blocked v (upd_dom d (\<lambda>x. x\<lparr>poll_mask := poll_mask x - {i}\<rparr>) s')
                       else s'
                  else s1)
        in vcpu_wake E v s2)"

section \<open>Migration\<close>

definition vcpu_move_locked ::
  "('v, 'd, 'p, 'g) sched_env \<Rightarrow> nat \<Rightarrow> nat \<Rightarrow> ('v, 'd, 'p, 'g) xen \<Rightarrow> ('v, 'd, 'p, 'g) xen" where
  "vcpu_move_locked E v new_cpu s =
     (let old_cpu = processor (vcpus s v);
          s1 = (if is_urgent (vcpus s v) \<and> old_cpu \<noteq> new_cpu
                then add_urgent old_cpu (- 1) (add_urgent new_cpu 1 s) else s)
      in case op_migrate (vcpu_ops E s1 v) of
           Some f \<Rightarrow> f (vcpu_scheduler s1 v) v new_cpu s1
         | None \<Rightarrow> upd_vcpu v (\<lambda>x. x\<lparr>processor := new_cpu\<rparr>) s1)"

definition vcpu_move_nosched ::
  "('v, 'd, 'p, 'g) sched_env \<Rightarrow> nat \<Rightarrow> nat \<Rightarrow> ('v, 'd, 'p, 'g) xen \<Rightarrow> ('v, 'd, 'p, 'g) xen" where
  "vcpu_move_nosched E v new_cpu s =
     (let ok = system_state (glob s) = SYS_STATE_suspend \<and> \<not> vcpu_runnable s v
             \<and> (pause_count (vcpus s v) \<noteq> 0 \<or> d_pause_count (domains s (v_domain (vcpus s v))) \<noteq> 0)
             \<and> new_cpu \<noteq> processor (vcpus s v)
      in vcpu_move_locked E v new_cpu (if ok then s else panic Assert_failed s))"

text \<open>
  The loop that finds the CPU to migrate to. The two locks are read before they are taken;
  \<open>pick_called\<close> says that \<open>new_cpu\<close> is a choice of the scheduler.
\<close>

partial_function (option) migrate_loop ::
  "('v, 'd, 'p, 'g) sched_env \<Rightarrow> nat \<Rightarrow> nat \<Rightarrow> nat \<Rightarrow> bool \<Rightarrow> ('v, 'd, 'p, 'g) xen \<Rightarrow> (nat \<times> nat) option" where
  "migrate_loop E v old_cpu new_cpu pick_called s =
     (let old_lock = sd_lock (percpu s old_cpu); new_lock = sd_lock (percpu s new_cpu);
          old = processor (vcpus s v);
          valid = cpupool_domain_cpumask s (v_domain (vcpus s v))
      in if old_lock = sd_lock (percpu s old) then
           if pick_called \<and> new_lock = sd_lock (percpu s new_cpu)
              \<and> new_cpu \<in> cpu_hard_affinity (vcpus s v) \<and> new_cpu \<in> valid
           then Some (old, new_cpu)
           else
             let new = op_pick_cpu (vcpu_ops E s v) (vcpu_scheduler s v) v s
             in if new_lock = sd_lock (percpu s new) \<and> new \<in> valid then Some (old, new)
                else migrate_loop E v old new True s
         else migrate_loop E v old new_cpu False s)"

definition vcpu_migrate ::
  "('v, 'd, 'p, 'g) sched_env \<Rightarrow> nat \<Rightarrow> ('v, 'd, 'p, 'g) xen \<Rightarrow> ('v, 'd, 'p, 'g) xen option" where
  "vcpu_migrate E v s =
     do {
       (old_cpu, new_cpu) \<leftarrow> migrate_loop E v (processor (vcpus s v)) (processor (vcpus s v)) False s;
       Some (if is_running (vcpus s v) \<or> VPF_migrating \<notin> pause_flags (vcpus s v) then s
             else vcpu_wake E v (vcpu_move_locked E v new_cpu (clear_flag VPF_migrating v s)))
     }"

text \<open>What the callers do when the migrating flag is set.\<close>

definition sleep_and_migrate ::
  "('v, 'd, 'p, 'g) sched_env \<Rightarrow> nat \<Rightarrow> ('v, 'd, 'p, 'g) xen \<Rightarrow> ('v, 'd, 'p, 'g) xen option" where
  "sleep_and_migrate E v s =
     (if VPF_migrating \<in> pause_flags (vcpus s v)
      then vcpu_migrate E v (vcpu_sleep_nosync E v s) else Some s)"

definition vcpu_force_reschedule ::
  "('v, 'd, 'p, 'g) sched_env \<Rightarrow> nat \<Rightarrow> ('v, 'd, 'p, 'g) xen \<Rightarrow> ('v, 'd, 'p, 'g) xen option" where
  "vcpu_force_reschedule E v s =
     sleep_and_migrate E v (if is_running (vcpus s v) then set_flag VPF_migrating v s else s)"

section \<open>Affinity\<close>

text \<open>\<open>which\<close> stores the new mask in the hard or the soft affinity.\<close>

definition vcpu_set_affinity ::
  "('v, 'd, 'p, 'g) sched_env \<Rightarrow> nat \<Rightarrow> ('v vcpu \<Rightarrow> 'v vcpu) \<Rightarrow> ('v, 'd, 'p, 'g) xen
    \<Rightarrow> (rc \<times> ('v, 'd, 'p, 'g) xen) option" where
  "vcpu_set_affinity E v which s =
     (let (ret, s1) =
        (if affinity_broken (vcpus s v) then (Inl EBUSY, s)
         else (OK, set_flag VPF_migrating v (upd_vcpu v which s)))
      in do { s2 \<leftarrow> sleep_and_migrate E v s1; Some (ret, s2) })"

definition vcpu_set_hard_affinity ::
  "('v, 'd, 'p, 'g) sched_env \<Rightarrow> nat \<Rightarrow> cpumask \<Rightarrow> ('v, 'd, 'p, 'g) xen
    \<Rightarrow> (rc \<times> ('v, 'd, 'p, 'g) xen) option" where
  "vcpu_set_hard_affinity E v affinity s =
     (if is_pinned (domains s (v_domain (vcpus s v))) then Some (Inl EINVAL, s)
      else if affinity \<inter> cpupool_domain_cpumask s (v_domain (vcpus s v)) = {} then Some (Inl EINVAL, s)
      else vcpu_set_affinity E v (\<lambda>x. x\<lparr>cpu_hard_affinity := affinity\<rparr>) s)"

definition vcpu_set_soft_affinity ::
  "('v, 'd, 'p, 'g) sched_env \<Rightarrow> nat \<Rightarrow> cpumask \<Rightarrow> ('v, 'd, 'p, 'g) xen
    \<Rightarrow> (rc \<times> ('v, 'd, 'p, 'g) xen) option" where
  "vcpu_set_soft_affinity E v affinity s =
     vcpu_set_affinity E v (\<lambda>x. x\<lparr>cpu_soft_affinity := affinity\<rparr>) s"

definition vcpu_pin_override ::
  "('v, 'd, 'p, 'g) sched_env \<Rightarrow> nat \<Rightarrow> int \<Rightarrow> ('v, 'd, 'p, 'g) xen
    \<Rightarrow> (rc \<times> ('v, 'd, 'p, 'g) xen) option" where
  "vcpu_pin_override E v cpu s =
     (let (ret, s1) =
        (if cpu < 0 then
           (if affinity_broken (vcpus s v)
            then (OK, set_flag VPF_migrating v
                   (upd_vcpu v (\<lambda>x. x\<lparr>cpu_hard_affinity := cpu_hard_affinity_saved x, affinity_broken := False\<rparr>) s))
            else (Inl EINVAL, s))
         else if cpu < int (nr_cpu_ids s) then
           (if affinity_broken (vcpus s v) then (Inl EBUSY, s)
            else if nat cpu \<in> cpupool_domain_cpumask s (v_domain (vcpus s v))
            then (OK, set_flag VPF_migrating v
                   (upd_vcpu v (\<lambda>x. x\<lparr>cpu_hard_affinity_saved := cpu_hard_affinity x, affinity_broken := True,
                                      cpu_hard_affinity := {nat cpu}\<rparr>) s))
            else (Inl EINVAL, s))
         else (Inl EINVAL, s))
      in do { s2 \<leftarrow> sleep_and_migrate E v s1; Some (ret, s2) })"

section \<open>Blocking and polling\<close>

text \<open>
  \<open>pending\<close> is the answer of local_events_need_delivery, which reads the shared page of the
  guest; the functions run on CPU \<open>cpu\<close> for its current vcpu.
\<close>

definition vcpu_block :: "bool \<Rightarrow> nat \<Rightarrow> ('v, 'd, 'p, 'g) xen \<Rightarrow> ('v, 'd, 'p, 'g) xen" where
  "vcpu_block pending cpu s =
     (let v = current s cpu; s1 = set_flag VPF_blocked v s
      in if pending then clear_flag VPF_blocked v s1 else cpu_raise_softirq cpu SCHEDULE_SOFTIRQ s1)"

text \<open>
  The ports are what reading the guest's array gives, \<open>None\<close> where the copy faults; \<open>okay\<close> is
  the check of the handle, and \<open>port_pending\<close> the event-channel ABI's test of a port.
\<close>

record sched_poll =
  poll_ports :: "nat option list"
  poll_timeout :: int

fun poll_check :: "(nat \<Rightarrow> bool) \<Rightarrow> nat \<Rightarrow> nat option list \<Rightarrow> rc option" where
  "poll_check port_pending limit [] = None"
| "poll_check port_pending limit (None # ps) = Some (Inl EFAULT)"
| "poll_check port_pending limit (Some port # ps) =
     (if port \<ge> limit then Some (Inl EINVAL)
      else if port_pending port then Some OK
      else poll_check port_pending limit ps)"

definition poll_out :: "nat \<Rightarrow> ('v, 'd, 'p, 'g) xen \<Rightarrow> ('v, 'd, 'p, 'g) xen" where
  "poll_out v s =
     clear_flag VPF_blocked v
       (upd_dom (v_domain (vcpus s v)) (\<lambda>x. x\<lparr>poll_mask := poll_mask x - {vcpu_id (vcpus s v)}\<rparr>)
         (upd_vcpu v (\<lambda>x. x\<lparr>poll_evtchn := 0\<rparr>) s))"

definition do_poll ::
  "bool \<Rightarrow> bool \<Rightarrow> (nat \<Rightarrow> bool) \<Rightarrow> nat \<Rightarrow> sched_poll \<Rightarrow> ('v, 'd, 'p, 'g) xen \<Rightarrow> rc \<times> ('v, 'd, 'p, 'g) xen" where
  "do_poll okay pending port_pending cpu p s =
     (let v = current s cpu; d = v_domain (vcpus s v)
      in if length (poll_ports p) > 128 then (Inl EINVAL, s)
         else if \<not> okay then (Inl EFAULT, s)
         else
           let s1 = upd_dom d (\<lambda>x. x\<lparr>poll_mask := insert (vcpu_id (vcpus s v)) (poll_mask x)\<rparr>)
                      (upd_vcpu v (\<lambda>x. x\<lparr>poll_evtchn := - 1\<rparr>) (set_flag VPF_blocked v s))
           in if pending then (OK, poll_out v s1)
              else
                case poll_check port_pending (max_evtchns (domains s1 d)) (poll_ports p) of
                  Some rc \<Rightarrow> (rc, poll_out v s1)
                | None \<Rightarrow>
                    let s2 = (case poll_ports p of
                                [Some port] \<Rightarrow> upd_vcpu v (\<lambda>x. x\<lparr>poll_evtchn := s32 (int port)\<rparr>) s1
                              | _ \<Rightarrow> s1);
                        s3 = (if poll_timeout p \<noteq> 0
                              then upd_vcpu v (\<lambda>x. x\<lparr>poll_timer := atimer_set (s64 (poll_timeout p)) (poll_timer x)\<rparr>) s2
                              else s2)
                    in (OK, cpu_raise_softirq cpu SCHEDULE_SOFTIRQ s3))"

text \<open>The SCHEDOP_poll timeout callback.\<close>

definition poll_timer_fn ::
  "('v, 'd, 'p, 'g) sched_env \<Rightarrow> nat \<Rightarrow> ('v, 'd, 'p, 'g) xen \<Rightarrow> ('v, 'd, 'p, 'g) xen" where
  "poll_timer_fn E v s =
     (let d = v_domain (vcpus s v); i = vcpu_id (vcpus s v)
      in if i \<in> poll_mask (domains s d)
         then vcpu_unblock E v (upd_dom d (\<lambda>x. x\<lparr>poll_mask := poll_mask x - {i}\<rparr>) s)
         else s)"

definition vcpu_yield ::
  "('v, 'd, 'p, 'g) sched_env \<Rightarrow> nat \<Rightarrow> ('v, 'd, 'p, 'g) xen \<Rightarrow> ('v, 'd, 'p, 'g) xen" where
  "vcpu_yield E cpu s =
     (let v = current s cpu
      in cpu_raise_softirq cpu SCHEDULE_SOFTIRQ
           (SCHED_OP (op_yield (vcpu_ops E s v)) (vcpu_scheduler s v) v s))"

section \<open>Timers of a vcpu\<close>

definition send :: "notification \<Rightarrow> ('v, 'd, 'p, 'g) xen \<Rightarrow> ('v, 'd, 'p, 'g) xen" where
  "send n s = s\<lparr>glob := (glob s)\<lparr>sent := n # sent (glob s)\<rparr>\<rparr>"

definition MILLISECS :: "int \<Rightarrow> int" where
  "MILLISECS ms = s64 (ms * 1000000)"

definition SECONDS :: "int \<Rightarrow> int" where
  "SECONDS x = s64 (x * 1000000000)"

definition do_set_timer_op :: "nat \<Rightarrow> int \<Rightarrow> ('v, 'd, 'p, 'g) xen \<Rightarrow> ('v, 'd, 'p, 'g) xen" where
  "do_set_timer_op cpu timeout s =
     (let v = current s cpu; offset = s64 (timeout - clock s)
      in if timeout = 0 then upd_vcpu v (\<lambda>x. x\<lparr>singleshot_timer := atimer_stop (singleshot_timer x)\<rparr>) s
         else if timeout < 0 \<or> (offset > 0 \<and> u32 (offset div 2 ^ 50) \<noteq> 0)
         then upd_vcpu v (\<lambda>x. x\<lparr>singleshot_timer := atimer_set (s64 (clock s + MILLISECS 100)) (singleshot_timer x)\<rparr>) s
         else upd_vcpu v (\<lambda>x. x\<lparr>singleshot_timer := atimer_set timeout (atimer_migrate cpu (singleshot_timer x))\<rparr>) s)"

definition vcpu_periodic_timer_work :: "nat \<Rightarrow> nat \<Rightarrow> ('v, 'd, 'p, 'g) xen \<Rightarrow> ('v, 'd, 'p, 'g) xen" where
  "vcpu_periodic_timer_work cpu v s =
     (let now = clock s; x = vcpus s v; nxt = s64 (periodic_last_event x + periodic_period x)
      in if periodic_period x = 0 then s
         else
           let (nxt', s1) =
             (if now \<ge> nxt
              then (s64 (now + periodic_period x),
                    upd_vcpu v (\<lambda>x. x\<lparr>periodic_last_event := now\<rparr>) (send (Timer_event v) s))
              else (nxt, s))
           in upd_vcpu v (\<lambda>x. x\<lparr>periodic_timer := atimer_set nxt' (atimer_migrate cpu (periodic_timer x))\<rparr>) s1)"

definition vcpu_periodic_timer_fn :: "nat \<Rightarrow> nat \<Rightarrow> ('v, 'd, 'p, 'g) xen \<Rightarrow> ('v, 'd, 'p, 'g) xen" where
  "vcpu_periodic_timer_fn cpu v s = vcpu_periodic_timer_work cpu v s"

definition vcpu_singleshot_timer_fn :: "nat \<Rightarrow> ('v, 'd, 'p, 'g) xen \<Rightarrow> ('v, 'd, 'p, 'g) xen" where
  "vcpu_singleshot_timer_fn v s = send (Timer_event v) s"

definition s_timer_fn :: "nat \<Rightarrow> ('v, 'd, 'p, 'g) xen \<Rightarrow> ('v, 'd, 'p, 'g) xen" where
  "s_timer_fn cpu s = cpu_raise_softirq cpu SCHEDULE_SOFTIRQ s"

section \<open>The main function\<close>

definition context_saved ::
  "('v, 'd, 'p, 'g) sched_env \<Rightarrow> nat \<Rightarrow> ('v, 'd, 'p, 'g) xen \<Rightarrow> ('v, 'd, 'p, 'g) xen option" where
  "context_saved E prev s =
     (let s1 = upd_vcpu prev (\<lambda>x. x\<lparr>is_running := False\<rparr>) s;
          s2 = SCHED_OP (op_context_saved (vcpu_ops E s1 prev)) (vcpu_scheduler s1 prev) prev s1
      in if VPF_migrating \<in> pause_flags (vcpus s2 prev) then vcpu_migrate E prev s2 else Some s2)"

text \<open>The architecture's context_switch makes \<open>next\<close> current and then calls context_saved.\<close>

definition context_switch ::
  "('v, 'd, 'p, 'g) sched_env \<Rightarrow> nat \<Rightarrow> nat \<Rightarrow> nat \<Rightarrow> ('v, 'd, 'p, 'g) xen \<Rightarrow> ('v, 'd, 'p, 'g) xen option" where
  "context_switch E cpu prev nxt s = context_saved E prev (s\<lparr>current := (current s)(cpu := nxt)\<rparr>)"

text \<open>The tasklet status of the CPU: the new bits, and whether tasklet work is scheduled.\<close>

definition tasklet_update :: "tasklet_bit set \<Rightarrow> tasklet_bit set \<times> bool" where
  "tasklet_update w =
     (if TASKLET_enqueued \<in> w then (insert TASKLET_scheduled w, True) else (w - {TASKLET_scheduled}, False))"

text \<open>The part of schedule() that gives the CPU to another vcpu.\<close>

definition switch_to :: "nat \<Rightarrow> int \<Rightarrow> nat \<Rightarrow> nat \<Rightarrow> ('v, 'd, 'p, 'g) xen \<Rightarrow> ('v, 'd, 'p, 'g) xen" where
  "switch_to cpu now prev nxt s =
     (let s0 = (if rs_state (runstate (vcpus s prev)) = RUNSTATE_running then s else panic Assert_failed s);
          new_state = (if VPF_blocked \<in> pause_flags (vcpus s0 prev) then RUNSTATE_blocked
                       else if vcpu_runnable s0 prev then RUNSTATE_runnable else RUNSTATE_offline);
          s1 = upd_vcpu prev (\<lambda>x. x\<lparr>last_run_time := now\<rparr>) (vcpu_runstate_change prev new_state now s0);
          s2 = (if rs_state (runstate (vcpus s1 nxt)) \<noteq> RUNSTATE_running then s1 else panic Assert_failed s1);
          s3 = vcpu_runstate_change nxt RUNSTATE_running now s2;
          s4 = (if is_running (vcpus s3 nxt) then panic Assert_failed s3 else s3);
          s5 = upd_vcpu nxt (\<lambda>x. x\<lparr>is_running := True\<rparr>) s4;
          s6 = upd_vcpu prev (\<lambda>x. x\<lparr>periodic_timer := atimer_stop (periodic_timer x)\<rparr>) s5
      in vcpu_periodic_timer_work cpu nxt s6)"

definition schedule ::
  "('v, 'd, 'p, 'g) sched_env \<Rightarrow> nat \<Rightarrow> ('v, 'd, 'p, 'g) xen \<Rightarrow> ('v, 'd, 'p, 'g) xen option" where
  "schedule E cpu s =
     (let prev = current s cpu;
          (work, tasklet) = tasklet_update (tasklet_work (glob s) cpu);
          s0 = s\<lparr>glob := (glob s)\<lparr>tasklet_work := (tasklet_work (glob s))(cpu := work)\<rparr>\<rparr>;
          now = clock s0;
          s1 = upd_pcpu cpu (\<lambda>x. x\<lparr>sd_timer := atimer_stop (sd_timer x)\<rparr>) s0;
          (slice, s2) = op_do_schedule (E (sched_kind s1 (pcpu_sched s1 cpu))) (pcpu_sched s1 cpu) cpu now tasklet s1;
          nxt = ts_task slice;
          s3 = upd_pcpu cpu (\<lambda>x. x\<lparr>sd_curr := nxt\<rparr>) s2;
          s4 = (if ts_time slice \<ge> 0
                then upd_pcpu cpu (\<lambda>x. x\<lparr>sd_timer := atimer_set (s64 (now + ts_time slice)) (sd_timer x)\<rparr>) s3
                else s3)
      in if prev = nxt then Some s4
         else context_switch E cpu prev nxt (switch_to cpu now prev nxt s4))"

end
