(* ===== verification/Schedule_Inv.thy ===== *)
theory Schedule_Inv
  imports Schedule
begin

text \<open>
  The contract between the generic layer and a scheduler, and the invariants that the generic
  layer keeps for every scheduler that meets it: the urgent counts of the CPUs and the
  accounting of run-state times.
\<close>

section \<open>What a hook may touch\<close>

text \<open>
  The state without the scheduler's private data, the pending softirqs and the fault. A hook
  keeps it.
\<close>

definition erase :: "('v, 'd, 'p, 'g) xen \<Rightarrow> ('v, 'd, 'p, 'g) xen" where
  "erase s = s\<lparr>vcpus := (\<lambda>v. (vcpus s v)\<lparr>v_priv := None\<rparr>), domains := (\<lambda>d. (domains s d)\<lparr>d_priv := None\<rparr>),
               percpu := (\<lambda>c. (percpu s c)\<lparr>sd_priv := None\<rparr>), sched_data := (\<lambda>_. None),
               softirqs := {}, fault := None\<rparr>"

lemma erase_raise_softirq [simp]: "erase (cpu_raise_softirq c nr s) = erase s"
  by (simp add: erase_def cpu_raise_softirq_def)

lemma erase_panic [simp]: "erase (panic f s) = erase s"
  by (simp add: erase_def panic_def split: option.splits)

lemma erase_sched_data [simp]: "erase (s\<lparr>sched_data := x\<rparr>) = erase s"
  by (simp add: erase_def)

lemma erase_upd_vcpu_priv:
  "(\<And>x. (f x)\<lparr>v_priv := None\<rparr> = x\<lparr>v_priv := None\<rparr>) \<Longrightarrow> erase (upd_vcpu v f s) = erase s"
  by (simp add: erase_def upd_vcpu_def fun_eq_iff)

lemma erase_upd_dom_priv:
  "(\<And>x. (f x)\<lparr>d_priv := None\<rparr> = x\<lparr>d_priv := None\<rparr>) \<Longrightarrow> erase (upd_dom d f s) = erase s"
  by (simp add: erase_def upd_dom_def fun_eq_iff)

lemma erase_upd_pcpu_priv:
  "(\<And>x. (f x)\<lparr>sd_priv := None\<rparr> = x\<lparr>sd_priv := None\<rparr>) \<Longrightarrow> erase (upd_pcpu c f s) = erase s"
  by (simp add: erase_def upd_pcpu_def fun_eq_iff)

text \<open>The parts of the state that equal erasures share.\<close>

lemma erase_vcpu:
  assumes "erase s' = erase s"
  shows "(vcpus s' v)\<lparr>v_priv := None\<rparr> = (vcpus s v)\<lparr>v_priv := None\<rparr>"
    and "(domains s' d)\<lparr>d_priv := None\<rparr> = (domains s d)\<lparr>d_priv := None\<rparr>"
    and "(percpu s' c)\<lparr>sd_priv := None\<rparr> = (percpu s c)\<lparr>sd_priv := None\<rparr>"
proof -
  have "vcpus (erase s') v = vcpus (erase s) v" "domains (erase s') d = domains (erase s) d"
    "percpu (erase s') c = percpu (erase s) c"
    using assms by simp_all
  then show "(vcpus s' v)\<lparr>v_priv := None\<rparr> = (vcpus s v)\<lparr>v_priv := None\<rparr>"
    and "(domains s' d)\<lparr>d_priv := None\<rparr> = (domains s d)\<lparr>d_priv := None\<rparr>"
    and "(percpu s' c)\<lparr>sd_priv := None\<rparr> = (percpu s c)\<lparr>sd_priv := None\<rparr>"
    by (simp_all add: erase_def)
qed

lemma erase_clock: "erase s' = erase s \<Longrightarrow> clock s' = clock s"
  by (drule arg_cong [where f = clock]) (simp add: erase_def)

lemma clock_runstate_change [simp]: "clock (vcpu_runstate_change v r t s) = clock s"
  by (simp add: vcpu_runstate_change_def Let_def vcpu_urgent_count_update_def add_urgent_def)

text \<open>The state in which schedule() asks the scheduler, and the one in which it has the answer.\<close>

definition sched_begin :: "nat \<Rightarrow> ('v, 'd, 'p, 'g) xen \<Rightarrow> ('v, 'd, 'p, 'g) xen" where
  "sched_begin cpu s =
     upd_pcpu cpu (\<lambda>x. x\<lparr>sd_timer := atimer_stop (sd_timer x)\<rparr>)
       (s\<lparr>glob := (glob s)\<lparr>tasklet_work := (tasklet_work (glob s))
            (cpu := fst (tasklet_update (tasklet_work (glob s) cpu)))\<rparr>\<rparr>)"

definition sched_chosen :: "nat \<Rightarrow> int \<Rightarrow> task_slice \<Rightarrow> ('v, 'd, 'p, 'g) xen \<Rightarrow> ('v, 'd, 'p, 'g) xen" where
  "sched_chosen cpu now ts s =
     (let s3 = upd_pcpu cpu (\<lambda>x. x\<lparr>sd_curr := ts_task ts\<rparr>) s
      in if ts_time ts \<ge> 0
         then upd_pcpu cpu (\<lambda>x. x\<lparr>sd_timer := atimer_set (s64 (now + ts_time ts)) (sd_timer x)\<rparr>) s3 else s3)"

lemma schedule_eq:
  "schedule E cpu s =
     (let ds = op_do_schedule (E (sched_kind s (pcpu_sched s cpu))) (pcpu_sched s cpu) cpu (clock s)
                 (snd (tasklet_update (tasklet_work (glob s) cpu))) (sched_begin cpu s);
          s4 = sched_chosen cpu (clock s) (fst ds) (snd ds); prev = current s cpu; nxt = ts_task (fst ds)
      in if prev = nxt then Some s4 else context_switch E cpu prev nxt (switch_to cpu (clock s) prev nxt s4))"
  by (simp add: schedule_def sched_begin_def sched_chosen_def Let_def split_beta)

section \<open>The contract\<close>

locale sched_contract =
  fixes E :: "('v, 'd, 'p, 'g) sched_env"
  assumes sleep_frame: "op_sleep (E k) = Some f \<Longrightarrow> erase (f ops v s) = erase s"
    and wake_frame: "op_wake (E k) = Some f \<Longrightarrow> erase (f ops v s) = erase s"
    and yield_frame: "op_yield (E k) = Some f \<Longrightarrow> erase (f ops v s) = erase s"
    and context_saved_frame: "op_context_saved (E k) = Some f \<Longrightarrow> erase (f ops v s) = erase s"
    and insert_frame: "op_insert_vcpu (E k) = Some f \<Longrightarrow> erase (f ops v s) = erase s"
    and remove_frame: "op_remove_vcpu (E k) = Some f \<Longrightarrow> erase (f ops v s) = erase s"
    and do_schedule_frame: "op_do_schedule (E k) ops cpu now t s = (ts, s') \<Longrightarrow> erase s' = erase s"
    and migrate_frame: "op_migrate (E k) = Some g \<Longrightarrow>
      erase (g ops v c s) = erase (upd_vcpu v (\<lambda>x. x\<lparr>processor := c\<rparr>) s)"
begin

lemma erase_sleep [simp]: "erase (SCHED_OP (op_sleep (E k)) ops v s) = erase s"
  by (simp add: SCHED_OP_def sleep_frame split: option.splits)

lemma erase_wake [simp]: "erase (SCHED_OP (op_wake (E k)) ops v s) = erase s"
  by (simp add: SCHED_OP_def wake_frame split: option.splits)

lemma erase_yield [simp]: "erase (SCHED_OP (op_yield (E k)) ops v s) = erase s"
  by (simp add: SCHED_OP_def yield_frame split: option.splits)

lemma erase_context_saved [simp]: "erase (SCHED_OP (op_context_saved (E k)) ops v s) = erase s"
  by (simp add: SCHED_OP_def context_saved_frame split: option.splits)

lemma erase_insert [simp]: "erase (SCHED_OP (op_insert_vcpu (E k)) ops v s) = erase s"
  by (simp add: SCHED_OP_def insert_frame split: option.splits)

lemma erase_remove [simp]: "erase (SCHED_OP (op_remove_vcpu (E k)) ops v s) = erase s"
  by (simp add: SCHED_OP_def remove_frame split: option.splits)

lemma erase_do_schedule [simp]: "erase (snd (op_do_schedule (E k) ops cpu now t s)) = erase s"
  by (rule do_schedule_frame) (rule surjective_pairing)

end

section \<open>A predicate over runs\<close>

text \<open>
  A step of the generic layer: the calls of the rest of the hypervisor, the timer callbacks,
  the scheduling softirq, the passing of time, and changes of a scheduler's private data.
\<close>

inductive sched_step ::
  "('v, 'd, 'p, 'g) sched_env \<Rightarrow> ('v, 'd, 'p, 'g) xen \<Rightarrow> ('v, 'd, 'p, 'g) xen \<Rightarrow> bool" for E where
  sleep: "sched_step E s (vcpu_sleep_nosync E v s)"
| wake: "sched_step E s (vcpu_wake E v s)"
| unblock: "sched_step E s (vcpu_unblock E v s)"
| block: "sched_step E s (vcpu_block pending cpu s)"
| poll: "do_poll okay pending port cpu p s = (rc, s') \<Longrightarrow> sched_step E s s'"
| poll_timer: "sched_step E s (poll_timer_fn E v s)"
| yield: "sched_step E s (vcpu_yield E cpu s)"
| set_timer: "sched_step E s (do_set_timer_op cpu t s)"
| periodic: "sched_step E s (vcpu_periodic_timer_fn cpu v s)"
| singleshot: "sched_step E s (vcpu_singleshot_timer_fn v s)"
| s_timer: "sched_step E s (s_timer_fn cpu s)"
| reschedule: "vcpu_force_reschedule E v s = Some s' \<Longrightarrow> sched_step E s s'"
| hard_affinity: "vcpu_set_hard_affinity E v m s = Some (rc, s') \<Longrightarrow> sched_step E s s'"
| soft_affinity: "vcpu_set_soft_affinity E v m s = Some (rc, s') \<Longrightarrow> sched_step E s s'"
| pin_override: "vcpu_pin_override E v n s = Some (rc, s') \<Longrightarrow> sched_step E s s'"
| schedule: "schedule E cpu s = Some s' \<Longrightarrow> sched_step E s s'"
| pause: "sched_step E s (upd_vcpu v (\<lambda>x. x\<lparr>pause_count := n\<rparr>) s)"
| dom_pause: "sched_step E s (upd_dom d (\<lambda>x. x\<lparr>d_pause_count := n\<rparr>) s)"
| tick: "clock s \<le> t \<Longrightarrow> t < 2 ^ 63 \<Longrightarrow> sched_step E s (s\<lparr>clock := t\<rparr>)"
| hidden: "erase s' = erase s \<Longrightarrow> sched_step E s s'"

inductive sched_steps ::
  "('v, 'd, 'p, 'g) sched_env \<Rightarrow> ('v, 'd, 'p, 'g) xen \<Rightarrow> ('v, 'd, 'p, 'g) xen \<Rightarrow> bool" for E where
  none: "sched_steps E s s"
| more: "sched_steps E s t \<Longrightarrow> sched_step E t u \<Longrightarrow> sched_steps E s u"

text \<open>
  A predicate that depends on the erasure only, is kept by the elementary updates that do not
  concern run states, and by the two that do, holds over every run.
\<close>

locale generic_inv = sched_contract E for E :: "('v, 'd, 'p, 'g) sched_env" +
  fixes I :: "('v, 'd, 'p, 'g) xen \<Rightarrow> bool"
  assumes inv_erase: "erase s' = erase s \<Longrightarrow> I s \<Longrightarrow> I s'"
    and inv_vcpu: "(\<And>x. is_urgent (f x) = is_urgent x) \<Longrightarrow> (\<And>x. processor (f x) = processor x) \<Longrightarrow>
      (\<And>x. runstate (f x) = runstate x) \<Longrightarrow> I s \<Longrightarrow> I (upd_vcpu v f s)"
    and inv_dom: "(\<And>x. d_cpupool (g x) = d_cpupool x) \<Longrightarrow> I s \<Longrightarrow> I (upd_dom d g s)"
    and inv_pcpu: "(\<And>x. urgent_count (h x) = urgent_count x) \<Longrightarrow> I s \<Longrightarrow> I (upd_pcpu c h s)"
    and inv_tasklet: "I s \<Longrightarrow> I (s\<lparr>glob := (glob s)\<lparr>tasklet_work := w\<rparr>\<rparr>)"
    and inv_sent: "I s \<Longrightarrow> I (s\<lparr>glob := (glob s)\<lparr>sent := ns\<rparr>\<rparr>)"
    and inv_current: "I s \<Longrightarrow> I (s\<lparr>current := y\<rparr>)"
    and inv_tick: "clock s \<le> t \<Longrightarrow> t < 2 ^ 63 \<Longrightarrow> I s \<Longrightarrow> I (s\<lparr>clock := t\<rparr>)"
    and inv_runstate: "I s \<Longrightarrow> I (vcpu_runstate_change v r (clock s) s)"
    and inv_move: "I s \<Longrightarrow> I (upd_vcpu v (\<lambda>x. x\<lparr>processor := new\<rparr>)
      (if is_urgent (vcpus s v) \<and> processor (vcpus s v) \<noteq> new
       then add_urgent (processor (vcpus s v)) (- 1) (add_urgent new 1 s) else s))"
begin

lemma inv_flag: "I s \<Longrightarrow> I (set_flag f v s)" "I s \<Longrightarrow> I (clear_flag f v s)"
  by (simp_all add: set_flag_def clear_flag_def inv_vcpu)

lemma inv_panic: "I s \<Longrightarrow> I (panic f s)"
  by (rule inv_erase) simp_all

lemma inv_softirq: "I s \<Longrightarrow> I (cpu_raise_softirq c nr s)"
  by (rule inv_erase) simp_all

lemma inv_send: "I s \<Longrightarrow> I (send n s)"
  by (simp add: send_def inv_sent)

lemma inv_sleep_nosync: "I s \<Longrightarrow> I (vcpu_sleep_nosync E v s)"
  unfolding vcpu_sleep_nosync_def Let_def vcpu_ops_def
  by (simp, intro conjI impI; rule inv_erase [OF erase_sleep]) (simp_all add: inv_runstate)

lemma inv_vcpu_wake: "I s \<Longrightarrow> I (vcpu_wake E v s)"
proof -
  assume I: "I s"
  have "I (SCHED_OP (op_wake (vcpu_ops E t v)) (vcpu_scheduler t v) v t)" if "I t" for t
    unfolding vcpu_ops_def by (rule inv_erase [OF erase_wake that])
  then show ?thesis
    using I inv_runstate [OF I] by (simp add: vcpu_wake_def Let_def)
qed

lemma inv_unblock: "I s \<Longrightarrow> I (vcpu_unblock E v s)"
  unfolding vcpu_unblock_def Let_def
  by (simp add: inv_vcpu_wake inv_flag inv_dom inv_vcpu)

lemma inv_poll_timer: "I s \<Longrightarrow> I (poll_timer_fn E v s)"
  by (simp add: poll_timer_fn_def Let_def inv_unblock inv_dom)

lemma inv_block: "I s \<Longrightarrow> I (vcpu_block pending cpu s)"
  by (simp add: vcpu_block_def Let_def inv_flag inv_softirq)

lemma inv_poll: "do_poll okay pending port cpu p s = (rc, s') \<Longrightarrow> I s \<Longrightarrow> I s'"
  unfolding do_poll_def Let_def poll_out_def
  by (auto split: if_splits option.splits list.splits
      intro!: inv_flag inv_dom inv_vcpu inv_softirq)

lemma inv_yield: "I s \<Longrightarrow> I (vcpu_yield E cpu s)"
  unfolding vcpu_yield_def Let_def vcpu_ops_def
  by (intro inv_softirq) (rule inv_erase [OF erase_yield])

lemma inv_set_timer: "I s \<Longrightarrow> I (do_set_timer_op cpu t s)"
  by (simp add: do_set_timer_op_def Let_def inv_vcpu)

lemma inv_periodic: "I s \<Longrightarrow> I (vcpu_periodic_timer_work cpu v s)"
  by (simp add: vcpu_periodic_timer_work_def Let_def inv_vcpu inv_send)

lemma inv_move_locked: "I s \<Longrightarrow> I (vcpu_move_locked E v new s)"
proof -
  assume I: "I s"
  let ?t = "if is_urgent (vcpus s v) \<and> processor (vcpus s v) \<noteq> new
    then add_urgent (processor (vcpus s v)) (- 1) (add_urgent new 1 s) else s"
  show ?thesis
  proof (cases "op_migrate (vcpu_ops E ?t v)")
    case None
    then show ?thesis
      using inv_move [OF I, of v new] by (simp add: vcpu_move_locked_def Let_def)
  next
    case (Some f)
    then have "erase (f (vcpu_scheduler ?t v) v new ?t) = erase (upd_vcpu v (\<lambda>x. x\<lparr>processor := new\<rparr>) ?t)"
      unfolding vcpu_ops_def by (rule migrate_frame)
    from inv_erase [OF this inv_move [OF I]] Some show ?thesis
      by (simp add: vcpu_move_locked_def Let_def)
  qed
qed

lemma inv_migrate: "vcpu_migrate E v s = Some s' \<Longrightarrow> I s \<Longrightarrow> I s'"
  by (auto simp: vcpu_migrate_def inv_vcpu_wake inv_move_locked inv_flag
      split: Option.bind_splits if_splits)

lemma inv_sleep_and_migrate: "sleep_and_migrate E v s = Some s' \<Longrightarrow> I s \<Longrightarrow> I s'"
  by (auto simp: sleep_and_migrate_def split: if_splits intro: inv_migrate inv_sleep_nosync)

lemma inv_reschedule: "vcpu_force_reschedule E v s = Some s' \<Longrightarrow> I s \<Longrightarrow> I s'"
  by (auto simp: vcpu_force_reschedule_def split: if_splits intro: inv_sleep_and_migrate inv_flag)

lemma inv_set_affinity:
  assumes "vcpu_set_affinity E v f s = Some (rc, s')" and "I s"
    and "\<And>x. is_urgent (f x) = is_urgent x" "\<And>x. processor (f x) = processor x" "\<And>x. runstate (f x) = runstate x"
  shows "I s'"
  using assms(1,2) inv_vcpu [of f s v, OF assms(3-5)]
  by (auto simp: vcpu_set_affinity_def split: if_splits Option.bind_splits
      intro: inv_sleep_and_migrate inv_flag)

lemma inv_pin_override:
  assumes eq: "vcpu_pin_override E v n s = Some (rc, s')" and I: "I s"
  shows "I s'"
proof -
  define p where "p = (if n < 0 then
       (if affinity_broken (vcpus s v)
        then (OK, set_flag VPF_migrating v
               (upd_vcpu v (\<lambda>x. x\<lparr>cpu_hard_affinity := cpu_hard_affinity_saved x, affinity_broken := False\<rparr>) s))
        else (Inl EINVAL, s))
     else if n < int (nr_cpu_ids s) then
       (if affinity_broken (vcpus s v) then (Inl EBUSY, s)
        else if nat n \<in> cpupool_domain_cpumask s (v_domain (vcpus s v))
        then (OK, set_flag VPF_migrating v
               (upd_vcpu v (\<lambda>x. x\<lparr>cpu_hard_affinity_saved := cpu_hard_affinity x, affinity_broken := True,
                                  cpu_hard_affinity := {nat n}\<rparr>) s))
        else (Inl EINVAL, s))
     else (Inl EINVAL, s))"
  have "I (snd p)"
    unfolding p_def by (simp add: I inv_flag inv_vcpu)
  moreover have "sleep_and_migrate E v (snd p) = Some s'"
    using eq unfolding vcpu_pin_override_def p_def [symmetric]
    by (simp add: split_beta split: Option.bind_splits)
  ultimately show ?thesis by (metis inv_sleep_and_migrate)
qed

lemma inv_switch_to:
  assumes "now = clock s" and "I s"
  shows "I (switch_to cpu now prev nxt s)"
proof -
  have check: "I (if b then t else panic f t) \<and> clock (if b then t else panic f t) = clock t"
    "I (if b then panic f t else t) \<and> clock (if b then panic f t else t) = clock t" if "I t" for b f t
    using that by (simp_all add: inv_panic)
  define s0 where "s0 = (if rs_state (runstate (vcpus s prev)) = RUNSTATE_running then s else panic Assert_failed s)"
  define r where "r = (if VPF_blocked \<in> pause_flags (vcpus s0 prev) then RUNSTATE_blocked
    else if vcpu_runnable s0 prev then RUNSTATE_runnable else RUNSTATE_offline)"
  define s1 where "s1 = upd_vcpu prev (\<lambda>x. x\<lparr>last_run_time := now\<rparr>) (vcpu_runstate_change prev r now s0)"
  define s2 where "s2 = (if rs_state (runstate (vcpus s1 nxt)) \<noteq> RUNSTATE_running then s1 else panic Assert_failed s1)"
  define s3 where "s3 = vcpu_runstate_change nxt RUNSTATE_running now s2"
  define s4 where "s4 = (if is_running (vcpus s3 nxt) then panic Assert_failed s3 else s3)"
  have s0: "I s0" "clock s0 = now"
    using check(1) [OF assms(2)] assms(1) unfolding s0_def by blast+
  have s1: "I s1" "clock s1 = now"
    using inv_runstate [OF s0(1)] s0(2) unfolding s1_def by (auto intro!: inv_vcpu)
  have s2: "I s2" "clock s2 = now"
    using check(1) [OF s1(1)] s1(2) unfolding s2_def by auto
  have "I s3"
    using inv_runstate [OF s2(1)] s2(2) unfolding s3_def by simp
  then have "I s4"
    using check(2) unfolding s4_def by blast
  then have "I (vcpu_periodic_timer_work cpu nxt (upd_vcpu prev (\<lambda>x. x\<lparr>periodic_timer := atimer_stop (periodic_timer x)\<rparr>)
      (upd_vcpu nxt (\<lambda>x. x\<lparr>is_running := True\<rparr>) s4)))"
    by (intro inv_periodic inv_vcpu) simp_all
  then show ?thesis
    unfolding switch_to_def Let_def s0_def [symmetric] r_def [symmetric] s1_def [symmetric]
      s2_def [symmetric] s3_def [symmetric] s4_def [symmetric] .
qed

lemma inv_context_switch: "context_switch E cpu prev nxt s = Some s' \<Longrightarrow> I s \<Longrightarrow> I s'"
proof -
  assume eq: "context_switch E cpu prev nxt s = Some s'" and I: "I s"
  let ?t = "upd_vcpu prev (\<lambda>x. x\<lparr>is_running := False\<rparr>) (s\<lparr>current := (current s)(cpu := nxt)\<rparr>)"
  have "I ?t" by (intro inv_vcpu inv_current I) simp_all
  then have "I (SCHED_OP (op_context_saved (vcpu_ops E ?t prev)) (vcpu_scheduler ?t prev) prev ?t)"
    unfolding vcpu_ops_def by (rule inv_erase [OF erase_context_saved])
  with eq show ?thesis
    by (auto simp: context_switch_def context_saved_def Let_def split: if_splits intro: inv_migrate)
qed

lemma inv_schedule:
  assumes eq: "schedule E cpu s = Some s'" and I: "I s"
  shows "I s'"
proof -
  let ?s1 = "sched_begin cpu s"
  let ?ds = "op_do_schedule (E (sched_kind s (pcpu_sched s cpu))) (pcpu_sched s cpu) cpu (clock s)
    (snd (tasklet_update (tasklet_work (glob s) cpu))) ?s1"
  let ?s4 = "sched_chosen cpu (clock s) (fst ?ds) (snd ?ds)"
  have er: "erase (snd ?ds) = erase ?s1" by simp
  have "I ?s1" unfolding sched_begin_def by (intro inv_pcpu inv_tasklet I) simp
  then have "I (snd ?ds)" by (rule inv_erase [OF er])
  then have s4: "I ?s4" by (simp add: sched_chosen_def Let_def inv_pcpu)
  have clk: "clock ?s4 = clock s"
    using erase_clock [OF er] by (simp add: sched_chosen_def sched_begin_def Let_def)
  have "I (switch_to cpu (clock s) prev nxt ?s4)" for prev nxt
    by (rule inv_switch_to [OF _ s4]) (simp add: clk)
  then show ?thesis
    using eq s4 inv_context_switch unfolding schedule_eq Let_def by (metis option.inject)
qed

lemma inv_hard_affinity: "vcpu_set_hard_affinity E v m s = Some (rc, s') \<Longrightarrow> I s \<Longrightarrow> I s'"
  unfolding vcpu_set_hard_affinity_def
  using inv_set_affinity [of v "\<lambda>x. x\<lparr>cpu_hard_affinity := m\<rparr>" s rc s'] by (simp split: if_splits)

lemma inv_soft_affinity: "vcpu_set_soft_affinity E v m s = Some (rc, s') \<Longrightarrow> I s \<Longrightarrow> I s'"
  unfolding vcpu_set_soft_affinity_def
  using inv_set_affinity [of v "\<lambda>x. x\<lparr>cpu_soft_affinity := m\<rparr>" s rc s'] by simp

lemma inv_step: "sched_step E s s' \<Longrightarrow> I s \<Longrightarrow> I s'"
proof -
  assume I: "I s" and "sched_step E s s'"
  from this(2) show "I s'"
  proof (cases rule: sched_step.cases)
    case (pause v n)
    show ?thesis unfolding pause by (rule inv_vcpu) (simp_all add: I)
  next
    case (tick t)
    show ?thesis unfolding tick(1) by (rule inv_tick [OF tick(2,3) I])
  next
    case hidden
    then show ?thesis using I by (rule inv_erase)
  next
    case poll
    then show ?thesis using I by (rule inv_poll)
  next
    case reschedule
    then show ?thesis using I by (rule inv_reschedule)
  next
    case hard_affinity
    then show ?thesis using I by (rule inv_hard_affinity)
  next
    case soft_affinity
    then show ?thesis using I by (rule inv_soft_affinity)
  next
    case pin_override
    then show ?thesis using I by (rule inv_pin_override)
  next
    case schedule
    then show ?thesis using I by (rule inv_schedule)
  qed (simp_all add: I inv_sleep_nosync inv_vcpu_wake inv_unblock inv_block inv_poll_timer inv_yield
      inv_set_timer inv_periodic inv_send inv_softirq inv_dom vcpu_periodic_timer_fn_def
      vcpu_singleshot_timer_fn_def s_timer_fn_def)
qed

lemma inv_steps: "sched_steps E s s' \<Longrightarrow> I s \<Longrightarrow> I s'"
  by (induction rule: sched_steps.induct) (auto intro: inv_step)

end

end
