(* ===== verification/Schedule_Runs.thy ===== *)
theory Schedule_Runs
  imports Schedule_Inv
begin

text \<open>
  Two invariants of the generic layer, each shown for every scheduler that meets the
  contract: the urgent counts, and the conservation of run-state time.
\<close>

section \<open>Urgent counts\<close>

text \<open>The urgent vcpus of a CPU; the idle governor reads their number from the CPU's schedule data.\<close>

definition urgent_on :: "('v, 'd, 'p, 'g) xen \<Rightarrow> nat \<Rightarrow> nat set" where
  "urgent_on s c = {v. is_urgent (vcpus s v) \<and> processor (vcpus s v) = c}"

definition urgent_ok :: "('v, 'd, 'p, 'g) xen \<Rightarrow> bool" where
  "urgent_ok s \<longleftrightarrow> (\<forall>c. finite (urgent_on s c) \<and> urgent_count (percpu s c) = int (card (urgent_on s c)))"

lemma urgent_ok_cong:
  assumes "\<And>v. is_urgent (vcpus s' v) = is_urgent (vcpus s v)"
    and "\<And>v. processor (vcpus s' v) = processor (vcpus s v)"
    and "\<And>c. urgent_count (percpu s' c) = urgent_count (percpu s c)"
  shows "urgent_ok s' = urgent_ok s"
  using assms by (simp add: urgent_ok_def urgent_on_def)

lemma urgent_ok_erase: "erase s' = erase s \<Longrightarrow> urgent_ok s' = urgent_ok s"
proof (rule urgent_ok_cong)
  assume er: "erase s' = erase s"
  note eq = erase_vcpu [OF er]
  show "is_urgent (vcpus s' v) = is_urgent (vcpus s v)" for v
    using arg_cong [OF eq(1), where f = is_urgent] by simp
  show "processor (vcpus s' v) = processor (vcpus s v)" for v
    using arg_cong [OF eq(1), where f = processor] by simp
  show "urgent_count (percpu s' c) = urgent_count (percpu s c)" for c
    using arg_cong [OF eq(3), where f = urgent_count] by simp
qed

lemma urgent_ok_panic [simp]: "urgent_ok (panic f s) = urgent_ok s"
  by (rule urgent_ok_erase) simp

lemma urgent_count_add:
  "urgent_count (percpu (add_urgent cpu n s) c) = urgent_count (percpu s c) + (if c = cpu then n else 0)"
  "vcpus (add_urgent cpu n s) = vcpus s"
  by (simp_all add: add_urgent_def)

lemma urgent_on_upd:
  "urgent_on (upd_vcpu v f s) c =
     (if is_urgent (f (vcpus s v)) \<and> processor (f (vcpus s v)) = c then insert v (urgent_on s c)
      else urgent_on s c - {v})"
  "urgent_on (add_urgent cpu n s) c = urgent_on s c"
  by (auto simp: urgent_on_def urgent_count_add)

lemma urgent_ok_update:
  assumes "urgent_ok s"
  shows "urgent_ok (vcpu_urgent_count_update v s)"
proof -
  have fin: "finite (urgent_on s c)" and cnt: "urgent_count (percpu s c) = int (card (urgent_on s c))" for c
    using assms by (auto simp: urgent_ok_def)
  show ?thesis
  proof (cases "is_idle_vcpu s v \<or> is_urgent (vcpus s v) = urgent_wanted s v")
    case True
    with assms show ?thesis by (auto simp: vcpu_urgent_count_update_def)
  next
    case change: False
    let ?p = "processor (vcpus s v)"
    show ?thesis
    proof (cases "is_urgent (vcpus s v)")
      case True
      then have "v \<in> urgent_on s ?p" "v \<notin> urgent_on s c" if "c \<noteq> ?p" for c
        using that by (simp_all add: urgent_on_def)
      moreover have "v \<in> urgent_on s ?p" using True by (simp add: urgent_on_def)
      then have "card (urgent_on s ?p) > 0" using fin card_gt_0_iff by blast
      ultimately show ?thesis
        using change True fin cnt \<open>v \<in> urgent_on s ?p\<close>
        by (auto simp: vcpu_urgent_count_update_def urgent_ok_def urgent_on_upd urgent_count_add
            card_Diff_singleton of_nat_diff)
    next
      case False
      then have "v \<notin> urgent_on s c" for c by (simp add: urgent_on_def)
      then show ?thesis
        using change False fin cnt
        by (auto simp: vcpu_urgent_count_update_def urgent_ok_def urgent_on_upd urgent_count_add)
    qed
  qed
qed

lemma urgent_ok_upd_vcpu:
  "(\<And>x. is_urgent (f x) = is_urgent x) \<Longrightarrow> (\<And>x. processor (f x) = processor x) \<Longrightarrow>
    urgent_ok (upd_vcpu v f s) = urgent_ok s"
  by (rule urgent_ok_cong) simp_all

lemma urgent_ok_runstate_change:
  assumes "urgent_ok s"
  shows "urgent_ok (vcpu_runstate_change v r t s)"
proof -
  have "urgent_ok (if rs_state (runstate (vcpus s v)) = r then panic Assert_failed s else s)"
    using assms by simp
  from urgent_ok_update [OF this] show ?thesis
    unfolding vcpu_runstate_change_def Let_def by (subst urgent_ok_upd_vcpu) simp_all
qed

lemma urgent_ok_move:
  assumes "urgent_ok s"
  shows "urgent_ok (upd_vcpu v (\<lambda>x. x\<lparr>processor := new\<rparr>)
      (if is_urgent (vcpus s v) \<and> processor (vcpus s v) \<noteq> new
       then add_urgent (processor (vcpus s v)) (- 1) (add_urgent new 1 s) else s))"
proof (cases "is_urgent (vcpus s v) \<and> processor (vcpus s v) \<noteq> new")
  case True
  let ?p = "processor (vcpus s v)"
  have fin: "finite (urgent_on s c)" and cnt: "urgent_count (percpu s c) = int (card (urgent_on s c))" for c
    using assms by (auto simp: urgent_ok_def)
  have v: "v \<in> urgent_on s c \<longleftrightarrow> c = ?p" for c
    using True by (auto simp: urgent_on_def)
  then have "card (urgent_on s ?p) > 0" using fin card_gt_0_iff by blast
  then show ?thesis
    using True fin cnt v
    by (auto simp: urgent_ok_def urgent_on_upd urgent_count_add card_Diff_singleton of_nat_diff)
next
  case False
  then have "urgent_on (upd_vcpu v (\<lambda>x. x\<lparr>processor := new\<rparr>) s) = urgent_on s"
    using False by (auto simp: urgent_on_def fun_eq_iff)
  with False assms show ?thesis by (auto simp: urgent_ok_def)
qed

sublocale sched_contract \<subseteq> urg: generic_inv E urgent_ok
proof
  show "urgent_ok s" if "erase s = erase s'" "urgent_ok s'" for s s' :: "('v, 'd, 'p, 'g) xen"
    using that urgent_ok_erase by blast
qed (simp_all add: urgent_ok_upd_vcpu urgent_ok_runstate_change urgent_ok_move,
    (simp add: urgent_ok_def urgent_on_def)+)

section \<open>Run-state time\<close>

text \<open>
  The time a vcpu spent in all states together, up to its last entry into a state. Relative
  to that entry it never changes.
\<close>

definition rs_total :: "vcpu_runstate_info \<Rightarrow> int" where
  "rs_total r = rs_time r RUNSTATE_running + rs_time r RUNSTATE_runnable + rs_time r RUNSTATE_blocked
     + rs_time r RUNSTATE_offline"

definition runstate_ok :: "(nat \<Rightarrow> int) \<Rightarrow> ('v, 'd, 'p, 'g) xen \<Rightarrow> bool" where
  "runstate_ok B s \<longleftrightarrow> clock s < 2 ^ 63 \<and>
     (\<forall>v. 0 \<le> rs_entry (runstate (vcpus s v)) \<and> rs_entry (runstate (vcpus s v)) \<le> clock s
        \<and> u64 (rs_total (runstate (vcpus s v)) - rs_entry (runstate (vcpus s v))) = u64 (B v))"

lemma u64_add: "u64 (u64 a + b) = u64 (a + b)" "u64 (a + u64 b) = u64 (a + b)"
  by (simp_all add: u64_def mod_add_left_eq mod_add_right_eq)

lemma rs_total_account:
  assumes "0 \<le> rs_entry r" and "rs_entry r \<le> now" and "now < 2 ^ 63"
  shows "rs_entry (runstate_account now r) = now"
    and "u64 (rs_total (runstate_account now r) - now) = u64 (rs_total r - rs_entry r)"
proof -
  have d: "s64 (now - rs_entry r) = now - rs_entry r"
    using assms by (intro s64_id) simp_all
  show "rs_entry (runstate_account now r) = now"
    using assms by (simp add: runstate_account_def d)
  show "u64 (rs_total (runstate_account now r) - now) = u64 (rs_total r - rs_entry r)"
  proof (cases "rs_entry r = now")
    case True
    then show ?thesis using d by (simp add: runstate_account_def)
  next
    case False
    define k where "k = rs_time r (rs_state r)"
    define x where "x = rs_total r - k - now"
    have "rs_total (runstate_account now r) - now = u64 (k + (now - rs_entry r)) + x"
      using False assms by (cases "rs_state r") (simp_all add: runstate_account_def d rs_total_def Let_def k_def x_def)
    then have "u64 (rs_total (runstate_account now r) - now) = u64 (k + (now - rs_entry r) + x)"
      by (simp add: u64_add)
    then show ?thesis by (simp add: x_def)
  qed
qed

lemma rs_total_state [simp]: "rs_total (r\<lparr>rs_state := x\<rparr>) = rs_total r"
  by (simp add: rs_total_def)

lemma runstate_ok_cong:
  "(\<And>v. runstate (vcpus s' v) = runstate (vcpus s v)) \<Longrightarrow> clock s' = clock s \<Longrightarrow>
    runstate_ok B s' = runstate_ok B s"
  by (simp add: runstate_ok_def)

lemma runstate_ok_erase: "erase s' = erase s \<Longrightarrow> runstate_ok B s' = runstate_ok B s"
proof (rule runstate_ok_cong)
  assume er: "erase s' = erase s"
  show "runstate (vcpus s' v) = runstate (vcpus s v)" for v
    using arg_cong [OF erase_vcpu(1) [OF er], where f = runstate] by simp
qed (rule erase_clock)

lemma vcpus_urgent_update:
  "runstate (vcpus (vcpu_urgent_count_update v s) w) = runstate (vcpus s w)"
  "clock (vcpu_urgent_count_update v s) = clock s"
  by (simp_all add: vcpu_urgent_count_update_def urgent_count_add) (simp add: add_urgent_def)

lemma runstate_runstate_change:
  "runstate (vcpus (vcpu_runstate_change v r t s) w) =
     (if w = v then (runstate_account t (runstate (vcpus s w)))\<lparr>rs_state := r\<rparr> else runstate (vcpus s w))"
  by (simp add: vcpu_runstate_change_def Let_def vcpus_urgent_update)

lemma runstate_ok_runstate_change:
  assumes "runstate_ok B s"
  shows "runstate_ok B (vcpu_runstate_change v r (clock s) s)"
proof -
  have "0 \<le> clock s" using assms unfolding runstate_ok_def by (meson order_trans)
  with assms show ?thesis
    by (simp add: runstate_ok_def runstate_runstate_change rs_total_account)
qed

sublocale sched_contract \<subseteq> rst: generic_inv E "runstate_ok B" for B
proof
  show "runstate_ok B s" if "erase s = erase s'" "runstate_ok B s'" for s s' :: "('v, 'd, 'p, 'g) xen"
    using that runstate_ok_erase by blast
  show "runstate_ok B (s\<lparr>clock := t\<rparr>)" if "clock s \<le> t" "t < 2 ^ 63" "runstate_ok B s"
    for s :: "('v, 'd, 'p, 'g) xen" and t
    using that by (auto simp: runstate_ok_def intro: order_trans)
  show "runstate_ok B (vcpu_runstate_change v r (clock s) s)" if "runstate_ok B s"
    for s :: "('v, 'd, 'p, 'g) xen" and v r
    using that by (rule runstate_ok_runstate_change)
qed (simp_all add: runstate_ok_def add_urgent_def)

section \<open>Settings\<close>

text \<open>
  The state without what sleeping and waking change: run states, urgency, private data,
  softirqs and the fault. Sleeping and waking a vcpu keep it.
\<close>

definition quiet :: "'v vcpu \<Rightarrow> 'v vcpu" where
  "quiet x = x\<lparr>v_priv := None, is_urgent := False,
                runstate := \<lparr>rs_state = RUNSTATE_running, rs_entry = 0, rs_time = (\<lambda>_. 0)\<rparr>\<rparr>"

definition settings :: "('v, 'd, 'p, 'g) xen \<Rightarrow> ('v, 'd, 'p, 'g) xen" where
  "settings s = s\<lparr>vcpus := (\<lambda>v. quiet (vcpus s v)), domains := (\<lambda>d. (domains s d)\<lparr>d_priv := None\<rparr>),
                  percpu := (\<lambda>c. (percpu s c)\<lparr>sd_priv := None, urgent_count := 0\<rparr>),
                  sched_data := (\<lambda>_. None), softirqs := {}, fault := None\<rparr>"

lemma settings_of_erase: "settings (erase s) = settings s"
  by (simp add: settings_def erase_def quiet_def)

lemma settings_erase: "erase s' = erase s \<Longrightarrow> settings s' = settings s"
  by (metis settings_of_erase)

lemma settings_stores [simp]:
  "settings (panic f s) = settings s"
  "settings (cpu_raise_softirq c nr s) = settings s"
  "settings (add_urgent c n s) = settings s"
    apply (rule settings_erase, simp)
   apply (rule settings_erase, simp)
  apply (simp add: settings_def add_urgent_def upd_pcpu_def fun_eq_iff)
  done

lemma settings_upd_vcpu:
  "(\<And>x. quiet (f x) = quiet x) \<Longrightarrow> settings (upd_vcpu v f s) = settings s"
  by (simp add: settings_def upd_vcpu_def fun_eq_iff)

text \<open>An update that commutes with forgetting the run state is an update of the settings.\<close>

lemma settings_set_vcpu:
  "(\<And>x. quiet (f x) = f (quiet x)) \<Longrightarrow> settings (upd_vcpu v f s) = upd_vcpu v f (settings s)"
  by (simp add: settings_def upd_vcpu_def fun_eq_iff)

lemma settings_set_dom:
  "(\<And>x. (f x)\<lparr>d_priv := None\<rparr> = f (x\<lparr>d_priv := None\<rparr>)) \<Longrightarrow>
    settings (upd_dom d f s) = upd_dom d f (settings s)"
  by (simp add: settings_def upd_dom_def fun_eq_iff)

lemma settings_urgent [simp]: "settings (vcpu_urgent_count_update v s) = settings s"
  by (simp add: vcpu_urgent_count_update_def settings_upd_vcpu quiet_def)

lemma settings_upd_runstate: "settings (upd_vcpu v (\<lambda>x. x\<lparr>runstate := r x\<rparr>) s) = settings s"
  by (rule settings_upd_vcpu) (simp add: quiet_def)

lemma settings_runstate [simp]: "settings (vcpu_runstate_change v r t s) = settings s"
  unfolding vcpu_runstate_change_def Let_def settings_upd_runstate settings_urgent by simp

lemma settings_reads:
  assumes "settings s' = settings s"
  shows "processor (vcpus s' v) = processor (vcpus s v)"
    "v_domain (vcpus s' v) = v_domain (vcpus s v)"
    "vcpu_id (vcpus s' v) = vcpu_id (vcpus s v)"
    "pause_flags (vcpus s' v) = pause_flags (vcpus s v)"
    "pause_count (vcpus s' v) = pause_count (vcpus s v)"
    "v_controller_pause_count (vcpus s' v) = v_controller_pause_count (vcpus s v)"
    "paused_for_shutdown (vcpus s' v) = paused_for_shutdown (vcpus s v)"
    "defer_shutdown (vcpus s' v) = defer_shutdown (vcpus s v)"
    "is_running (vcpus s' v) = is_running (vcpus s v)"
    "cpu_hard_affinity (vcpus s' v) = cpu_hard_affinity (vcpus s v)"
    "affinity_broken (vcpus s' v) = affinity_broken (vcpus s v)"
proof -
  have eq: "quiet (vcpus s' v) = quiet (vcpus s v)"
    using arg_cong [OF assms, where f = "\<lambda>x. vcpus x v"] by (simp add: settings_def)
  show "processor (vcpus s' v) = processor (vcpus s v)" using arg_cong [OF eq, where f = processor] by (simp add: quiet_def)
  show "v_domain (vcpus s' v) = v_domain (vcpus s v)" using arg_cong [OF eq, where f = v_domain] by (simp add: quiet_def)
  show "vcpu_id (vcpus s' v) = vcpu_id (vcpus s v)" using arg_cong [OF eq, where f = vcpu_id] by (simp add: quiet_def)
  show "pause_flags (vcpus s' v) = pause_flags (vcpus s v)" using arg_cong [OF eq, where f = pause_flags] by (simp add: quiet_def)
  show "pause_count (vcpus s' v) = pause_count (vcpus s v)" using arg_cong [OF eq, where f = pause_count] by (simp add: quiet_def)
  show "v_controller_pause_count (vcpus s' v) = v_controller_pause_count (vcpus s v)" using arg_cong [OF eq, where f = v_controller_pause_count] by (simp add: quiet_def)
  show "paused_for_shutdown (vcpus s' v) = paused_for_shutdown (vcpus s v)" using arg_cong [OF eq, where f = paused_for_shutdown] by (simp add: quiet_def)
  show "defer_shutdown (vcpus s' v) = defer_shutdown (vcpus s v)" using arg_cong [OF eq, where f = defer_shutdown] by (simp add: quiet_def)
  show "is_running (vcpus s' v) = is_running (vcpus s v)" using arg_cong [OF eq, where f = is_running] by (simp add: quiet_def)
  show "cpu_hard_affinity (vcpus s' v) = cpu_hard_affinity (vcpus s v)" using arg_cong [OF eq, where f = cpu_hard_affinity] by (simp add: quiet_def)
  show "affinity_broken (vcpus s' v) = affinity_broken (vcpus s v)" using arg_cong [OF eq, where f = affinity_broken] by (simp add: quiet_def)
qed

lemma settings_dom_reads:
  assumes "settings s' = settings s"
  shows "dom_vcpus (domains s' d) = dom_vcpus (domains s d)"
    "d_pause_count (domains s' d) = d_pause_count (domains s d)"
    "d_controller_pause_count (domains s' d) = d_controller_pause_count (domains s d)"
    "is_shutting_down (domains s' d) = is_shutting_down (domains s d)"
    "is_shut_down (domains s' d) = is_shut_down (domains s d)"
    "shutdown_code (domains s' d) = shutdown_code (domains s d)"
    "domain_id (domains s' d) = domain_id (domains s d)"
    "d_cpupool (domains s' d) = d_cpupool (domains s d)"
    "suspend_evtchn (domains s' d) = suspend_evtchn (domains s d)"
    "poll_mask (domains s' d) = poll_mask (domains s d)"
proof -
  have eq: "(domains s' d)\<lparr>d_priv := None\<rparr> = (domains s d)\<lparr>d_priv := None\<rparr>"
    using arg_cong [OF assms, where f = "\<lambda>x. domains x d"] by (simp add: settings_def)
  show "dom_vcpus (domains s' d) = dom_vcpus (domains s d)" using arg_cong [OF eq, where f = dom_vcpus] by simp
  show "d_pause_count (domains s' d) = d_pause_count (domains s d)" using arg_cong [OF eq, where f = d_pause_count] by simp
  show "d_controller_pause_count (domains s' d) = d_controller_pause_count (domains s d)" using arg_cong [OF eq, where f = d_controller_pause_count] by simp
  show "is_shutting_down (domains s' d) = is_shutting_down (domains s d)" using arg_cong [OF eq, where f = is_shutting_down] by simp
  show "is_shut_down (domains s' d) = is_shut_down (domains s d)" using arg_cong [OF eq, where f = is_shut_down] by simp
  show "shutdown_code (domains s' d) = shutdown_code (domains s d)" using arg_cong [OF eq, where f = shutdown_code] by simp
  show "domain_id (domains s' d) = domain_id (domains s d)" using arg_cong [OF eq, where f = domain_id] by simp
  show "d_cpupool (domains s' d) = d_cpupool (domains s d)" using arg_cong [OF eq, where f = d_cpupool] by simp
  show "suspend_evtchn (domains s' d) = suspend_evtchn (domains s d)" using arg_cong [OF eq, where f = suspend_evtchn] by simp
  show "poll_mask (domains s' d) = poll_mask (domains s d)" using arg_cong [OF eq, where f = poll_mask] by simp
qed

lemma settings_simps [simp]:
  "glob (settings s) = glob s"
  "current (settings s) = current s"
  "dom_list (settings s) = dom_list s"
  "clock (settings s) = clock s"
  "pools (settings s) = pools s"
  "pool_list (settings s) = pool_list s"
  "nr_cpu_ids (settings s) = nr_cpu_ids s"
  "pcpu_pool (settings s) = pcpu_pool s"
  "pcpu_sched (settings s) = pcpu_sched s"
  "sched_kind (settings s) = sched_kind s"
  "default_ops (settings s) = default_ops s"
  "idle_vcpu (settings s) = idle_vcpu s"
  by (simp_all add: settings_def)

lemma settings_global:
  assumes "settings s' = settings s"
  shows "glob s' = glob s" "current s' = current s" "dom_list s' = dom_list s"
    "clock s' = clock s" "pools s' = pools s" "pool_list s' = pool_list s"
    "nr_cpu_ids s' = nr_cpu_ids s" "pcpu_pool s' = pcpu_pool s" "pcpu_sched s' = pcpu_sched s"
    "sched_kind s' = sched_kind s" "default_ops s' = default_ops s" "idle_vcpu s' = idle_vcpu s"
  by (metis assms settings_simps)+

lemma settings_runnable:
  assumes "settings s' = settings s"
  shows "vcpu_runnable s' v = vcpu_runnable s v"
  unfolding vcpu_runnable_def settings_reads [OF assms] settings_dom_reads [OF assms] ..

context sched_contract
begin

text \<open>The two invariants over runs, and the settings that sleeping and waking keep.\<close>

lemma urgent_run: "sched_steps E s s' \<Longrightarrow> urgent_ok s \<Longrightarrow> urgent_ok s'"
  by (rule urg.inv_steps)

lemma runstate_run: "sched_steps E s s' \<Longrightarrow> runstate_ok B s \<Longrightarrow> runstate_ok B s'"
  by (rule rst.inv_steps)

lemma settings_sleep_nosync [simp]: "settings (vcpu_sleep_nosync E v s) = settings s"
  unfolding vcpu_sleep_nosync_def Let_def vcpu_ops_def by (simp add: settings_erase [OF erase_sleep])

lemma settings_wake [simp]: "settings (vcpu_wake E v s) = settings s"
  unfolding vcpu_wake_def Let_def vcpu_ops_def by (simp add: settings_erase [OF erase_wake])

end

end
