(* ===== verification/Schedule_Fp.thy ===== *)
theory Schedule_Fp
  imports Schedule_Runs Sched_Fp_Props
begin

text \<open>
  The fixed-priority scheduler under the generic layer: its hooks as a scheduler structure,
  the proof that they meet the contract, and lemmas on what schedule(), waking and migration
  do to the scheduler's view of the state.
\<close>

declare not_None_eq [simp del]

section \<open>The scheduler structure\<close>

text \<open>\<^verbatim>\<open>sched_fp_def\<close>: no yield, context_saved, migrate, deinit_pdata and tick hooks.\<close>

definition sched_fp_def :: "(fp_vcpu, fp_dom, fp_cpu, fpsched_private) scheduler" where
  "sched_fp_def =
     \<lparr>op_init = (\<lambda>mem ops. fp_init mem mem ops), op_deinit = fp_deinit,
      op_alloc_vdata = (\<lambda>mem ops v dd. fp_alloc_vdata mem v), op_free_vdata = (\<lambda>ops v. fp_free_vdata v),
      op_alloc_pdata = (\<lambda>mem ops cpu s. case fp_alloc_pdata mem s of (p, s1) \<Rightarrow> (Inr p, s1)),
      op_init_pdata = Some (\<lambda>ops p. fp_init_pdata ops), op_free_pdata = (\<lambda>ops. fp_free_pdata),
      op_deinit_pdata = None,
      op_alloc_domdata = (\<lambda>mem ops d s. fp_alloc_domdata mem),
      op_switch_sched = fp_switch_sched,
      op_init_domain = (\<lambda>mem ops d. fp_init_domain mem d), op_destroy_domain = (\<lambda>ops d. fp_destroy_domain d),
      op_insert_vcpu = Some fp_insert_vcpu, op_remove_vcpu = Some (\<lambda>ops v. fp_vcpu_remove v),
      op_sleep = Some (\<lambda>ops v. fp_sleep v), op_wake = Some fp_vcpu_wake, op_yield = None,
      op_context_saved = None, op_do_schedule = (\<lambda>ops. fp_do_schedule),
      op_pick_cpu = (\<lambda>ops. fp_pick_cpu), op_tick_suspend = None, op_tick_resume = None,
      op_adjust = Some (\<lambda>ops d cmd op s. (OK, fp_adjust ops d cmd op s)), op_adjust_global = Some fp_adjust_global,
      op_migrate = None\<rparr>"

text \<open>A hypervisor whose schedulers are all of this kind.\<close>

definition fp_env :: "(fp_vcpu, fp_dom, fp_cpu, fpsched_private) sched_env" where
  "fp_env k = sched_fp_def"

lemma fp_env_hooks [simp]:
  "op_sleep (fp_env k) = Some (\<lambda>ops v. fp_sleep v)" "op_wake (fp_env k) = Some fp_vcpu_wake"
  "op_yield (fp_env k) = None" "op_context_saved (fp_env k) = None"
  "op_insert_vcpu (fp_env k) = Some fp_insert_vcpu"
  "op_remove_vcpu (fp_env k) = Some (\<lambda>ops v. fp_vcpu_remove v)"
  "op_do_schedule (fp_env k) ops = fp_do_schedule" "op_pick_cpu (fp_env k) ops = fp_pick_cpu"
  "op_migrate (fp_env k) = None" "op_alloc_domdata (fp_env k) mem ops d s = fp_alloc_domdata mem"
  "op_alloc_vdata (fp_env k) mem ops v dd s = fp_alloc_vdata mem v s"
  by (simp_all add: fp_env_def sched_fp_def_def)

section \<open>The contract\<close>

lemma fp_frame_erase: "fp_frame s s' \<Longrightarrow> erase s' = erase s"
  by (cases s; cases s') (simp add: fp_frame_def erase_def fun_eq_iff)

lemma fp_frame_sleep: "fp_frame s (fp_sleep v s)"
  using fp_sleep_cases [of v s] fp_frame_list_del_init_elem by (auto simp: fp_frame_stores)

lemma fp_frame_call_prio_handler: "fp_frame s (call_prio_handler h d p s)"
  using same_queues_call_prio_handler by (simp add: same_queues_def)

lemma fp_frame_wake: "fp_frame s (fp_vcpu_wake ops v s)"
  unfolding fp_vcpu_wake_def Let_def
  using fp_frame_trans [OF fp_frame_trans [OF fp_frame_runq_insert fp_frame_call_prio_handler] fp_frame_stores(4)]
  by simp

lemma fp_frame_insert: "fp_frame s (fp_insert_vcpu ops v s)"
  unfolding fp_insert_vcpu_def Let_def
  by (auto intro: fp_frame_trans fp_frame_runq_insert fp_frame_call_prio_handler fp_frame_stores)

lemma fp_frame_remove: "fp_frame s (fp_vcpu_remove v s)"
  by (simp add: fp_vcpu_remove_def remove_from_queue_def fp_frame_list_del_init_elem)

lemma fp_frame_do_schedule: "fp_do_schedule cpu now t s = (ts, s') \<Longrightarrow> fp_frame s s'"
  using fp_bookkeeping_do_schedule by (simp add: fp_bookkeeping_def same_queues_def)

interpretation fps: sched_contract fp_env
  by unfold_locales
    (auto intro: fp_frame_erase fp_frame_sleep fp_frame_wake fp_frame_insert fp_frame_remove
      fp_frame_do_schedule)

section \<open>The scheduler's view\<close>

text \<open>What the fixed-priority scheduler reads when it decides; the fields that schedule() itself changes are left out.\<close>

definition fp_view :: "fp_xen \<Rightarrow> fp_xen \<Rightarrow> bool" where
  "fp_view s s' \<longleftrightarrow>
     (\<forall>v. v_priv (vcpus s' v) = v_priv (vcpus s v) \<and> pause_flags (vcpus s' v) = pause_flags (vcpus s v)
        \<and> pause_count (vcpus s' v) = pause_count (vcpus s v) \<and> v_domain (vcpus s' v) = v_domain (vcpus s v)
        \<and> processor (vcpus s' v) = processor (vcpus s v))
     \<and> domains s' = domains s
     \<and> (\<forall>c. sd_priv (percpu s' c) = sd_priv (percpu s c) \<and> sd_curr (percpu s' c) = sd_curr (percpu s c))
     \<and> sched_data s' = sched_data s \<and> pcpu_sched s' = pcpu_sched s \<and> idle_vcpu s' = idle_vcpu s
     \<and> clock s' = clock s"

lemma fp_view_refl [simp]: "fp_view s s"
  by (simp add: fp_view_def)

lemma fp_view_trans: "fp_view s t \<Longrightarrow> fp_view t u \<Longrightarrow> fp_view s u"
  by (simp add: fp_view_def)

lemma fp_view_reads:
  assumes "fp_view s s'"
  shows "RUNQ s' c = RUNQ s c" "FPSCHED_VCPU s' v = FPSCHED_VCPU s v" "FPSCHED_PRIV s' ops = FPSCHED_PRIV s ops"
    "vcpu_runnable s' v = vcpu_runnable s v" "fp_eligible s' v = fp_eligible s v"
    "fp_cmp ops s' = fp_cmp ops s" "is_idle_vcpu s' v = is_idle_vcpu s v" "idle_vcpu s' = idle_vcpu s"
    "pcpu_sched s' = pcpu_sched s" "v_priv (vcpus s' v) = v_priv (vcpus s v)"
    "sd_curr (percpu s' c) = sd_curr (percpu s c)" "domains s' = domains s"
    "pause_flags (vcpus s' v) = pause_flags (vcpus s v)" "processor (vcpus s' v) = processor (vcpus s v)"
    "clock s' = clock s" "v_domain (vcpus s' v) = v_domain (vcpus s v)" "sched_data s' = sched_data s"
  using assms
  by (simp_all add: fp_view_def RUNQ_def FPSCHED_VCPU_def FPSCHED_PRIV_def vcpu_runnable_def
      fp_eligible_def fp_cmp_def is_idle_vcpu_def is_idle_domain_def)

lemma fp_view_panic: "fp_view s (panic f s)"
  by (simp add: fp_view_def)

lemma fp_view_urgent: "fp_view s (vcpu_urgent_count_update v s)"
  by (auto simp: fp_view_def vcpu_urgent_count_update_def add_urgent_def)

lemma fp_view_upd_vcpu:
  "(\<And>x. v_priv (f x) = v_priv x) \<Longrightarrow> (\<And>x. pause_flags (f x) = pause_flags x) \<Longrightarrow>
   (\<And>x. pause_count (f x) = pause_count x) \<Longrightarrow> (\<And>x. v_domain (f x) = v_domain x) \<Longrightarrow>
   (\<And>x. processor (f x) = processor x) \<Longrightarrow> fp_view s (upd_vcpu v f s)"
  by (simp add: fp_view_def)

lemma fp_view_runstate: "fp_view s (vcpu_runstate_change v r t s)"
proof -
  let ?s0 = "if rs_state (runstate (vcpus s v)) = r then panic Assert_failed s else s"
  have "fp_view s ?s0" by (simp add: fp_view_panic)
  moreover have "fp_view ?s0 (vcpu_urgent_count_update v ?s0)" by (rule fp_view_urgent)
  moreover have "fp_view (vcpu_urgent_count_update v ?s0) (vcpu_runstate_change v r t s)"
    unfolding vcpu_runstate_change_def Let_def by (rule fp_view_upd_vcpu) simp_all
  ultimately show ?thesis by (blast intro: fp_view_trans)
qed

lemma fp_view_glob: "fp_view s (s\<lparr>glob := g\<rparr>)"
  by (simp add: fp_view_def)

lemma fp_view_periodic: "fp_view s (vcpu_periodic_timer_work cpu v s)"
  by (auto simp: vcpu_periodic_timer_work_def Let_def fp_view_def send_def)

section \<open>Handing over the CPU\<close>

lemma is_running_urgent [simp]:
  "is_running (vcpus (vcpu_urgent_count_update v s) w) = is_running (vcpus s w)"
  "fault (vcpu_urgent_count_update v s) = fault s"
  "current (vcpu_urgent_count_update v s) = current s"
  by (auto simp: vcpu_urgent_count_update_def add_urgent_def)

lemma runstate_change_fields:
  "is_running (vcpus (vcpu_runstate_change v r t s) w) = is_running (vcpus s w)"
  "current (vcpu_runstate_change v r t s) = current s"
  "rs_state (runstate (vcpus s v)) \<noteq> r \<Longrightarrow> fault (vcpu_runstate_change v r t s) = fault s"
  "rs_state (runstate (vcpus (vcpu_runstate_change v r t s) w)) =
     (if w = v then r else rs_state (runstate (vcpus s w)))"
  by (auto simp: vcpu_runstate_change_def Let_def vcpus_urgent_update)

lemma periodic_fields:
  "is_running (vcpus (vcpu_periodic_timer_work cpu v s) w) = is_running (vcpus s w)"
  "runstate (vcpus (vcpu_periodic_timer_work cpu v s) w) = runstate (vcpus s w)"
  "fault (vcpu_periodic_timer_work cpu v s) = fault s"
  "current (vcpu_periodic_timer_work cpu v s) = current s"
  by (auto simp: vcpu_periodic_timer_work_def Let_def send_def)

lemma switch_to_result:
  assumes prev: "rs_state (runstate (vcpus s prev)) = RUNSTATE_running" and ne: "prev \<noteq> nxt"
    and nxt: "rs_state (runstate (vcpus s nxt)) \<noteq> RUNSTATE_running" "\<not> is_running (vcpus s nxt)"
  shows "fp_view s (switch_to cpu now prev nxt s)"
    and "fault (switch_to cpu now prev nxt s) = fault s"
    and "current (switch_to cpu now prev nxt s) = current s"
    and "is_running (vcpus (switch_to cpu now prev nxt s) w) = (w = nxt \<or> is_running (vcpus s w))"
    and "rs_state (runstate (vcpus (switch_to cpu now prev nxt s) w)) = RUNSTATE_running \<longleftrightarrow>
      w = nxt \<or> w \<noteq> prev \<and> rs_state (runstate (vcpus s w)) = RUNSTATE_running"
proof -
  define r where "r = (if VPF_blocked \<in> pause_flags (vcpus s prev) then RUNSTATE_blocked
    else if vcpu_runnable s prev then RUNSTATE_runnable else RUNSTATE_offline)"
  define s1 where "s1 = upd_vcpu prev (\<lambda>x. x\<lparr>last_run_time := now\<rparr>) (vcpu_runstate_change prev r now s)"
  define s3 where "s3 = vcpu_runstate_change nxt RUNSTATE_running now s1"
  define s6 where "s6 = upd_vcpu prev (\<lambda>x. x\<lparr>periodic_timer := atimer_stop (periodic_timer x)\<rparr>)
    (upd_vcpu nxt (\<lambda>x. x\<lparr>is_running := True\<rparr>) s3)"
  have r: "r \<noteq> RUNSTATE_running" by (simp add: r_def)
  have st1: "rs_state (runstate (vcpus s1 w)) = (if w = prev then r else rs_state (runstate (vcpus s w)))"
    and run1: "is_running (vcpus s1 w) = is_running (vcpus s w)" for w
    by (auto simp: s1_def runstate_change_fields)
  have run3: "is_running (vcpus s3 w) = is_running (vcpus s w)" for w
    by (simp add: s3_def runstate_change_fields run1)
  have nx1: "rs_state (runstate (vcpus s1 nxt)) \<noteq> RUNSTATE_running"
    using nxt ne by (simp add: st1)
  have eq: "switch_to cpu now prev nxt s = vcpu_periodic_timer_work cpu nxt s6"
    unfolding switch_to_def Let_def if_P [OF prev] r_def [symmetric] s1_def [symmetric] if_P [OF nx1]
      s3_def [symmetric] run3 if_not_P [OF nxt(2)] s6_def [symmetric] ..
  have "fp_view s s1"
    unfolding s1_def by (rule fp_view_trans [OF fp_view_runstate fp_view_upd_vcpu]) simp_all
  moreover have "fp_view s1 s3" by (simp add: s3_def fp_view_runstate)
  moreover have "fp_view s3 s6"
    unfolding s6_def by (rule fp_view_trans [OF fp_view_upd_vcpu fp_view_upd_vcpu]) simp_all
  ultimately show "fp_view s (switch_to cpu now prev nxt s)"
    unfolding eq by (blast intro: fp_view_trans fp_view_periodic)
  have "fault s1 = fault s"
    using prev r by (simp add: s1_def runstate_change_fields)
  then show "fault (switch_to cpu now prev nxt s) = fault s"
    using nx1 by (simp add: eq periodic_fields s6_def s3_def runstate_change_fields)
  show "current (switch_to cpu now prev nxt s) = current s"
    by (simp add: eq periodic_fields s6_def s3_def runstate_change_fields s1_def)
  show "is_running (vcpus (switch_to cpu now prev nxt s) w) = (w = nxt \<or> is_running (vcpus s w))"
    by (simp add: eq periodic_fields s6_def run3)
  show "rs_state (runstate (vcpus (switch_to cpu now prev nxt s) w)) = RUNSTATE_running \<longleftrightarrow>
      w = nxt \<or> w \<noteq> prev \<and> rs_state (runstate (vcpus s w)) = RUNSTATE_running"
    using r ne by (simp add: eq periodic_fields s6_def s3_def runstate_change_fields st1)
qed

end
