(* ===== verification/Schedule_Props.thy ===== *)
theory Schedule_Props
  imports Schedule_Fp
begin

text \<open>
  What the generic layer guarantees: for every scheduler that meets the contract, and with the
  fixed-priority scheduler underneath.
\<close>

declare not_None_eq [simp del]

section \<open>Invariants over runs\<close>

text \<open>
  C7. Over any sequence of calls into the generic layer (sleep, wake, block, unblock, poll,
  affinity changes, migration, the scheduling softirq, timers), of pauses and of the passing
  of time, the urgent count of every CPU is the number of urgent vcpus placed on it. This
  holds for every scheduler whose hooks touch only their private data.
\<close>

theorem urgent_count_exact:
  assumes "sched_contract E" and "sched_steps E s s'" and "urgent_ok s"
  shows "urgent_ok s'"
  using assms(2,3) by (rule sched_contract.urgent_run [OF assms(1)])

lemma demo_urgent_ok: "urgent_ok (fp_demo n irq q fv fd)"
  by (simp add: urgent_ok_def urgent_on_def fp_demo_def demo_vcpu_def if_distrib [where f = is_urgent])

theorem urgent_count_exact_witness:
  "urgent_ok demo_two \<and> urgent_ok (vcpu_sleep_nosync fp_env 1 (vcpu_block False 0 demo_two))"
proof -
  have "sched_steps fp_env demo_two (vcpu_sleep_nosync fp_env 1 (vcpu_block False 0 demo_two))"
    by (blast intro: sched_steps.intros sched_step.block sched_step.sleep)
  moreover have "urgent_ok demo_two"
    unfolding demo_two_def by (rule demo_urgent_ok)
  ultimately show ?thesis
    using urgent_count_exact [OF fps.sched_contract_axioms] by blast
qed

text \<open>
  C12. Run-state time is conserved: over any such sequence, the four times that
  vcpu_runstate_get reports for a vcpu add up (in 64-bit arithmetic) to what they added up to
  at the start plus the time that has passed since the vcpu's last state change before it.
\<close>

theorem runstate_time_conserved:
  assumes "sched_contract E" and "sched_steps E s s'"
    and "\<forall>v. 0 \<le> rs_entry (runstate (vcpus s v)) \<and> rs_entry (runstate (vcpus s v)) \<le> clock s"
    and "clock s < 2 ^ 63"
  shows "u64 (rs_total (vcpu_runstate_get v s'))
    = u64 (rs_total (runstate (vcpus s v)) + (clock s' - rs_entry (runstate (vcpus s v))))"
proof -
  let ?B = "\<lambda>v. rs_total (runstate (vcpus s v)) - rs_entry (runstate (vcpus s v))"
  have "runstate_ok ?B s"
    using assms(3,4) by (simp add: runstate_ok_def)
  then have ok: "runstate_ok ?B s'"
    using sched_contract.runstate_run [OF assms(1,2)] by blast
  let ?r = "runstate (vcpus s' v)"
  have "u64 (rs_total (runstate_account (clock s') ?r) - clock s') = u64 (?B v)"
    using ok rs_total_account(2) [of ?r "clock s'"] by (simp add: runstate_ok_def)
  then have "u64 (u64 (rs_total (runstate_account (clock s') ?r) - clock s') + clock s') = u64 (u64 (?B v) + clock s')"
    by simp
  then have "u64 (rs_total (runstate_account (clock s') ?r)) = u64 (?B v + clock s')"
    by (simp add: u64_add)
  then show ?thesis
    by (simp add: vcpu_runstate_get_def Let_def rs_total_def algebra_simps)
qed

text \<open>Domain 2's vcpu is put to sleep at time 1000 and is looked at at time 5000.\<close>

theorem runstate_time_conserved_witness:
  "u64 (rs_total (vcpu_runstate_get 2 ((vcpu_sleep_nosync fp_env 2 demo_two)\<lparr>clock := 5000\<rparr>))) = 5000"
proof -
  let ?t = "vcpu_sleep_nosync fp_env 2 demo_two"
  have c: "clock demo_two = 1000" "clock ?t = 1000"
    using settings_global(4) [OF fps.settings_sleep_nosync] by (simp_all add: demo_two_def fp_demo_def)
  have "sched_step fp_env ?t (?t\<lparr>clock := 5000\<rparr>)"
    by (rule sched_step.tick) (simp_all add: c)
  then have "sched_steps fp_env demo_two (?t\<lparr>clock := 5000\<rparr>)"
    by (blast intro: sched_steps.intros sched_step.sleep)
  moreover have r: "runstate (vcpus demo_two v) = \<lparr>rs_state = RUNSTATE_runnable, rs_entry = 0, rs_time = (\<lambda>_. 0)\<rparr>" for v
    by (simp add: demo_two_def fp_demo_def demo_vcpu_def)
  ultimately show ?thesis
    using runstate_time_conserved [OF fps.sched_contract_axioms, of demo_two "?t\<lparr>clock := 5000\<rparr>" 2]
    by (simp add: c r rs_total_def u64_def)
qed

section \<open>schedule() with the fixed-priority scheduler\<close>

text \<open>
  The state of a CPU between two runs of schedule(): its current vcpu, and only that one of the
  vcpus it may choose, is running.
\<close>

definition fp_cpu_ok :: "nat \<Rightarrow> fp_xen \<Rightarrow> bool" where
  "fp_cpu_ok cpu s \<longleftrightarrow> sd_curr (percpu s cpu) = current s cpu \<and>
     (\<forall>v\<in>insert (current s cpu) (insert (idle_vcpu s cpu) (set (RUNQ s cpu))).
        (is_running (vcpus s v) \<longleftrightarrow> v = current s cpu)
        \<and> (rs_state (runstate (vcpus s v)) = RUNSTATE_running \<longleftrightarrow> v = current s cpu))"

text \<open>The vcpu that runs on a CPU is the best eligible one of its queue.\<close>

definition fp_runs_best :: "nat \<Rightarrow> nat \<Rightarrow> fp_xen \<Rightarrow> bool" where
  "fp_runs_best ops cpu s \<longleftrightarrow>
     (if \<exists>w\<in>set (RUNQ s cpu). fp_eligible s w
      then current s cpu \<in> set (RUNQ s cpu) \<and> fp_eligible s (current s cpu)
        \<and> (\<forall>w\<in>set (RUNQ s cpu). fp_eligible s w \<longrightarrow>
             call_compare (fp_cmp ops s) (FPSCHED_VCPU s (current s cpu)) (FPSCHED_VCPU s w))
      else current s cpu = idle_vcpu s cpu)"

lemma sched_begin_reads:
  "RUNQ (sched_begin cpu s) c = RUNQ s c" "fp_cmp ops (sched_begin cpu s) = fp_cmp ops s"
  "FPSCHED_VCPU (sched_begin cpu s) v = FPSCHED_VCPU s v" "idle_vcpu (sched_begin cpu s) = idle_vcpu s"
  "current (sched_begin cpu s) = current s" "vcpus (sched_begin cpu s) = vcpus s"
  "fault (sched_begin cpu s) = fault s" "pcpu_sched (sched_begin cpu s) = pcpu_sched s"
  by (simp_all add: sched_begin_def RUNQ_def fp_cmp_def FPSCHED_VCPU_def FPSCHED_PRIV_def)

lemma sched_chosen_reads:
  "RUNQ (sched_chosen cpu now ts s) c = RUNQ s c" "fp_cmp ops (sched_chosen cpu now ts s) = fp_cmp ops s"
  "FPSCHED_VCPU (sched_chosen cpu now ts s) v = FPSCHED_VCPU s v" "idle_vcpu (sched_chosen cpu now ts s) = idle_vcpu s"
  "current (sched_chosen cpu now ts s) = current s" "vcpus (sched_chosen cpu now ts s) = vcpus s"
  "fault (sched_chosen cpu now ts s) = fault s" "domains (sched_chosen cpu now ts s) = domains s"
  "sd_curr (percpu (sched_chosen cpu now ts s) cpu) = ts_task ts"
  "fp_eligible (sched_chosen cpu now ts s) v = fp_eligible s v"
  by (auto simp: sched_chosen_def Let_def RUNQ_def fp_cmp_def FPSCHED_VCPU_def FPSCHED_PRIV_def
      fp_eligible_def vcpu_runnable_def)

lemma fp_sorted_begin: "fp_sorted ops (sched_begin cpu s) = fp_sorted ops s"
  by (simp add: fp_sorted_def runq_sorted_def sched_begin_reads)

lemma fp_runs_best_view:
  assumes "fp_view s s'" and "current s' cpu = current s cpu"
  shows "fp_runs_best ops cpu s' = fp_runs_best ops cpu s"
  by (simp add: fp_runs_best_def fp_view_reads [OF assms(1)] assms(2))

text \<open>The decision of the scheduler inside schedule().\<close>

lemma schedule_decision:
  assumes "fp_do_schedule cpu (clock s) False (sched_begin cpu s) = (ts, t)"
    and "fault s = None" and "fp_sorted ops s" and "pcpu_sched s cpu = ops" and "fp_cpu_ok cpu s"
  defines "u \<equiv> sched_chosen cpu (clock s) ts t"
  shows "fault u = None" and "fp_runs_best ops cpu (u\<lparr>current := (current u)(cpu := ts_task ts)\<rparr>)"
    and "RUNQ u cpu = RUNQ s cpu" and "current u = current s"
    and "\<forall>v\<in>insert (current s cpu) (insert (idle_vcpu u cpu) (set (RUNQ u cpu))).
        (is_running (vcpus u v) \<longleftrightarrow> v = current s cpu)
        \<and> (rs_state (runstate (vcpus u v)) = RUNSTATE_running \<longleftrightarrow> v = current s cpu)"
    and "ts_task ts \<in> insert (idle_vcpu u cpu) (set (RUNQ u cpu))"
    and "pause_flags (vcpus u v) = pause_flags (vcpus s v)"
proof -
  have bk: "fp_bookkeeping (sched_begin cpu s) t"
    by (rule fp_bookkeeping_do_schedule [OF assms(1)])
  then have fr: "fp_frame (sched_begin cpu s) t" and sd: "sched_data t = sched_data (sched_begin cpu s)"
    and q: "RUNQ t c = RUNQ s c" and key: "fp_key k t = fp_key k (sched_begin cpu s)" for c k
    by (auto simp: fp_bookkeeping_def same_queues_def sched_begin_reads)
  note fD = fp_frameD [OF fr, unfolded sched_begin_reads]
  have cmp: "fp_cmp ops t = fp_cmp ops s"
    using fp_cmp_sched_data [of t ops "sched_begin cpu s"] sd by (simp add: sched_begin_reads)
  have best: "call_compare (fp_cmp ops s) (FPSCHED_VCPU t x) (FPSCHED_VCPU t y)
      = call_compare (fp_cmp ops s) (FPSCHED_VCPU s x) (FPSCHED_VCPU s y)" for x y
    using fun_cong [OF key [of "fp_cmp ops s"]]
    by (simp add: call_compare_key fp_key_def sched_begin_reads)
  have ch: "ts_task ts = (case find (fp_eligible t) (RUNQ s cpu) of Some v \<Rightarrow> v | None \<Rightarrow> idle_vcpu s cpu)"
    using fp_do_schedule_choice [OF assms(1)] unfolding sched_begin_reads .
  have "fault t = None"
    using fault_do_schedule [OF assms(1)] assms(2) by (simp add: sched_begin_reads)
  then show "fault u = None" by (simp add: u_def sched_chosen_reads)
  show "RUNQ u cpu = RUNQ s cpu" and "current u = current s"
    and "pause_flags (vcpus u v) = pause_flags (vcpus s v)"
    by (simp_all add: u_def sched_chosen_reads q fD)
  show "\<forall>v\<in>insert (current s cpu) (insert (idle_vcpu u cpu) (set (RUNQ u cpu))).
      (is_running (vcpus u v) \<longleftrightarrow> v = current s cpu)
      \<and> (rs_state (runstate (vcpus u v)) = RUNSTATE_running \<longleftrightarrow> v = current s cpu)"
    using assms(5) by (simp add: u_def sched_chosen_reads q fD fp_cpu_ok_def)
  show "ts_task ts \<in> insert (idle_vcpu u cpu) (set (RUNQ u cpu))"
    by (auto simp: ch u_def sched_chosen_reads q fD split: option.splits)
      (auto simp: find_Some_iff)
  have el: "fp_eligible (u\<lparr>current := c\<rparr>) w = fp_eligible t w" for c w
    by (simp add: u_def fp_eligible_def vcpu_runnable_def FPSCHED_VCPU_def sched_chosen_reads)
  have "RUNQ (u\<lparr>current := c\<rparr>) cpu = RUNQ s cpu" "fp_cmp ops (u\<lparr>current := c\<rparr>) = fp_cmp ops s"
    "FPSCHED_VCPU (u\<lparr>current := c\<rparr>) w = FPSCHED_VCPU t w" for c w
    using cmp q [of cpu] by (simp_all add: u_def RUNQ_def fp_cmp_def FPSCHED_VCPU_def FPSCHED_PRIV_def
        sched_chosen_def Let_def)
  then show "fp_runs_best ops cpu (u\<lparr>current := (current u)(cpu := ts_task ts)\<rparr>)"
    using fp_choice_best [OF assms(3,4), where P = "fp_eligible t" and i = "idle_vcpu s cpu"]
    unfolding fp_runs_best_def el by (simp add: ch [symmetric] Let_def best) (simp add: u_def sched_chosen_reads fD)
qed

lemma tasklet_idle: "TASKLET_enqueued \<notin> w \<Longrightarrow> snd (tasklet_update w) = False"
  by (simp add: tasklet_update_def)


text \<open>Two queued vcpus and an idle CPU.\<close>

definition demo_sched :: fp_xen where
  "demo_sched = upd_vcpu 9 (\<lambda>x. x\<lparr>is_running := True, runstate := (runstate x)\<lparr>rs_state := RUNSTATE_running\<rparr>\<rparr>) demo_two"


section \<open>Migration\<close>

lemma pool_mask_upd_vcpu [simp]: "cpupool_domain_cpumask (upd_vcpu v f s) d = cpupool_domain_cpumask s d"
  by (simp add: cpupool_domain_cpumask_def split: option.splits)

lemma fp_pick_in:
  assumes "c \<in> cpu_hard_affinity (vcpus s v)" and "c \<in> cpupool_domain_cpumask s (v_domain (vcpus s v))"
    and "c < nr_cpu_ids s"
  shows "fp_pick_cpu v s \<in> cpu_hard_affinity (vcpus s v)"
    and "fp_pick_cpu v s \<in> cpupool_domain_cpumask s (v_domain (vcpus s v))"
  using cpumask_cycle_in [of c "cpupool_domain_cpumask s (v_domain (vcpus s v)) \<inter> cpu_hard_affinity (vcpus s v)"] assms
  by (auto simp: fp_pick_cpu_def Let_def)

text \<open>The loop asks the scheduler at most once: its answer is taken at the latest in the second round.\<close>

lemma migrate_loop_fp:
  assumes "c \<in> cpu_hard_affinity (vcpus s v)" and "c \<in> cpupool_domain_cpumask s (v_domain (vcpus s v))"
    and "c < nr_cpu_ids s"
  shows "migrate_loop fp_env v (processor (vcpus s v)) (processor (vcpus s v)) False s
    = Some (processor (vcpus s v), fp_pick_cpu v s)"
  using fp_pick_in [OF assms]
  by (subst migrate_loop.simps) (simp add: vcpu_ops_def Let_def, subst migrate_loop.simps, simp add: Let_def)

text \<open>For any scheduler, the CPU the loop returns is in the pool of the domain.\<close>

lemma migrate_loop_valid:
  assumes "migrate_loop E v p n b s = Some r"
  shows "snd r \<in> cpupool_domain_cpumask s (v_domain (vcpus s v))"
proof (rule migrate_loop.raw_induct [where P = "\<lambda>E v p n b s r. snd r \<in> cpupool_domain_cpumask s (v_domain (vcpus s v))", OF _ assms],
    goal_cases)
  case (1 f E v p n b s r)
  then show ?case
    by (auto simp: Let_def split: if_splits)
qed

lemma vcpu_migrate_fp:
  assumes "c \<in> cpu_hard_affinity (vcpus s v)" and "c \<in> cpupool_domain_cpumask s (v_domain (vcpus s v))"
    and "c < nr_cpu_ids s"
  shows "vcpu_migrate fp_env v s =
    Some (if is_running (vcpus s v) \<or> VPF_migrating \<notin> pause_flags (vcpus s v) then s
          else vcpu_wake fp_env v (vcpu_move_locked fp_env v (fp_pick_cpu v s) (clear_flag VPF_migrating v s)))"
  by (simp add: vcpu_migrate_def migrate_loop_fp [OF assms])

lemma move_locked_fp:
  "processor (vcpus (vcpu_move_locked fp_env v c s) w) = (if w = v then c else processor (vcpus s w))"
  "pause_flags (vcpus (vcpu_move_locked fp_env v c s) w) = pause_flags (vcpus s w)"
  by (simp_all add: vcpu_move_locked_def Let_def vcpu_ops_def add_urgent_def)


text \<open>Two CPUs; domain 1's vcpu, not running, is to move to CPU 1.\<close>

definition demo_migrate :: fp_xen where
  "demo_migrate = set_flag VPF_migrating 1 (upd_vcpu 1 (\<lambda>x. x\<lparr>cpu_hard_affinity := {1}\<rparr>)
     (demo_two\<lparr>nr_cpu_ids := 2, pools := (\<lambda>c. (pools demo_two c)\<lparr>cpu_valid := {0, 1}\<rparr>)\<rparr>))"

lemma demo_migrate_reads:
  "nr_cpu_ids demo_migrate = 2" "cpu_hard_affinity (vcpus demo_migrate 1) = {1}"
  "cpupool_domain_cpumask demo_migrate (v_domain (vcpus demo_migrate 1)) = {0, 1}"
  "\<not> is_running (vcpus demo_migrate 1)" "VPF_migrating \<in> pause_flags (vcpus demo_migrate 1)"
  by (simp_all add: demo_migrate_def set_flag_def demo_two_def fp_demo_def demo_vcpu_def demo_domain_def
      cpupool_domain_cpumask_def)


section \<open>Unblocking\<close>

text \<open>The state in which vcpu_unblock wakes the vcpu, and the one in which it calls the scheduler.\<close>

definition flags_cleared :: "nat \<Rightarrow> fp_xen \<Rightarrow> fp_xen" where
  "flags_cleared v s =
     (let s1 = clear_flag VPF_blocked v s
      in if poll_evtchn (vcpus s1 v) \<noteq> 0 then
           let s' = upd_vcpu v (\<lambda>x. x\<lparr>poll_evtchn := 0\<rparr>) s1;
               d = v_domain (vcpus s' v); i = vcpu_id (vcpus s' v)
           in if i \<in> poll_mask (domains s' d)
              then clear_flag VPF_blocked v (upd_dom d (\<lambda>x. x\<lparr>poll_mask := poll_mask x - {i}\<rparr>) s')
              else s'
         else s1)"

definition unblocked :: "nat \<Rightarrow> fp_xen \<Rightarrow> fp_xen" where
  "unblocked v s = vcpu_runstate_change v RUNSTATE_runnable (clock s) (flags_cleared v s)"

lemma flags_cleared_vcpu:
  "processor (vcpus (flags_cleared v s) w) = processor (vcpus s w)"
  "v_domain (vcpus (flags_cleared v s) w) = v_domain (vcpus s w)"
  "v_priv (vcpus (flags_cleared v s) w) = v_priv (vcpus s w)"
  "pause_count (vcpus (flags_cleared v s) w) = pause_count (vcpus s w)"
  "runstate (vcpus (flags_cleared v s) w) = runstate (vcpus s w)"
  "pause_flags (vcpus (flags_cleared v s) v) = pause_flags (vcpus s v) - {VPF_blocked}"
  by (auto simp: flags_cleared_def clear_flag_def Let_def)

lemma flags_cleared_dom:
  "d_pause_count (domains (flags_cleared v s) d) = d_pause_count (domains s d)"
  "d_cpupool (domains (flags_cleared v s) d) = d_cpupool (domains s d)"
  "d_priv (domains (flags_cleared v s) d) = d_priv (domains s d)"
  "domain_id (domains (flags_cleared v s) d) = domain_id (domains s d)"
  "dom_vcpus (domains (flags_cleared v s) d) = dom_vcpus (domains s d)"
  by (auto simp: flags_cleared_def clear_flag_def Let_def)

lemma flags_cleared_rest:
  "percpu (flags_cleared v s) = percpu s" "clock (flags_cleared v s) = clock s"
  "pcpu_sched (flags_cleared v s) = pcpu_sched s" "sched_data (flags_cleared v s) = sched_data s"
  "pools (flags_cleared v s) = pools s" "softirqs (flags_cleared v s) = softirqs s"
  "fault (flags_cleared v s) = fault s" "sched_kind (flags_cleared v s) = sched_kind s"
  by (auto simp: flags_cleared_def clear_flag_def Let_def)

lemma fp_view_outside: "fp_view s s' \<Longrightarrow> fp_outside s s'"
  by (simp add: fp_view_def fp_outside_def)

lemma fp_outside_trans: "fp_outside s t \<Longrightarrow> fp_outside t u \<Longrightarrow> fp_outside s u"
  by (simp add: fp_outside_def)

lemma unblocked_outside: "fp_outside s (unblocked v s)"
proof (rule fp_outside_trans)
  show "fp_outside s (flags_cleared v s)"
    by (simp add: fp_outside_def flags_cleared_vcpu flags_cleared_dom flags_cleared_rest)
  show "fp_outside (flags_cleared v s) (unblocked v s)"
    unfolding unblocked_def by (rule fp_view_outside [OF fp_view_runstate])
qed

lemma softirqs_runstate: "softirqs (vcpu_runstate_change v r t s) = softirqs s"
  by (simp add: vcpu_runstate_change_def Let_def vcpu_urgent_count_update_def add_urgent_def)

lemma unblocked_reads:
  assumes "pause_flags (vcpus s v) = {VPF_blocked}" and "pause_count (vcpus s v) = 0"
    and "d_pause_count (domains s (v_domain (vcpus s v))) = 0"
    and "rs_state (runstate (vcpus s v)) = RUNSTATE_blocked"
  shows "vcpu_unblock fp_env v s = fp_vcpu_wake (vcpu_scheduler s v) v (unblocked v s)"
    and "vcpu_runnable (unblocked v s) v" and "rs_state (runstate (vcpus (unblocked v s) v)) = RUNSTATE_runnable"
    and "fault (unblocked v s) = fault s" and "softirqs (unblocked v s) = softirqs s"
    and "sd_curr (percpu (unblocked v s) c) = sd_curr (percpu s c)"
    and "processor (vcpus (unblocked v s) v) = processor (vcpus s v)"
proof -
  note view = fp_view_reads [OF fp_view_runstate [of "flags_cleared v s" v RUNSTATE_runnable "clock s"], folded unblocked_def]
  note st = settings_global [OF settings_runstate [of v RUNSTATE_runnable "clock s" "flags_cleared v s"], folded unblocked_def]
  have run: "vcpu_runnable (flags_cleared v s) v"
    using assms(1-3) by (simp add: vcpu_runnable_def flags_cleared_vcpu flags_cleared_dom)
  then show "vcpu_runnable (unblocked v s) v" by (simp add: view)
  show "rs_state (runstate (vcpus (unblocked v s) v)) = RUNSTATE_runnable"
    by (simp add: unblocked_def runstate_change_fields)
  show "fault (unblocked v s) = fault s" "softirqs (unblocked v s) = softirqs s"
    using assms(4)
    by (simp_all add: unblocked_def runstate_change_fields softirqs_runstate flags_cleared_vcpu flags_cleared_rest)
  show "sd_curr (percpu (unblocked v s) c) = sd_curr (percpu s c)"
    "processor (vcpus (unblocked v s) v) = processor (vcpus s v)"
    by (simp_all add: view flags_cleared_rest flags_cleared_vcpu)
  have sch: "vcpu_scheduler (unblocked v s) v = vcpu_scheduler s v"
    unfolding vcpu_scheduler_def view st flags_cleared_dom flags_cleared_rest flags_cleared_vcpu ..
  have "vcpu_unblock fp_env v s = vcpu_wake fp_env v (flags_cleared v s)"
    using assms(1) by (simp add: vcpu_unblock_def flags_cleared_def Let_def)
  also have "\<dots> = fp_vcpu_wake (vcpu_scheduler s v) v (unblocked v s)"
    using run assms(4)
    by (simp add: vcpu_wake_def flags_cleared_vcpu flags_cleared_rest runstate_ge_blocked
        unblocked_def [symmetric] vcpu_ops_def SCHED_OP_def sch)
  finally show "vcpu_unblock fp_env v s = fp_vcpu_wake (vcpu_scheduler s v) v (unblocked v s)" .
qed

lemma wake_queued:
  assumes "vcpu_on_q s v"
  shows "RUNQ (fp_vcpu_wake ops v s) q = RUNQ s q" and "softirqs (fp_vcpu_wake ops v s) = softirqs s"
proof -
  from fp_vcpu_wake_noinsert [of s v ops] assms obtain t where "fp_vcpu_wake ops v s = s
    \<or> fp_vcpu_wake ops v s = s\<lparr>sched_data := (sched_data s)(ops := Some ((FPSCHED_PRIV s ops)\<lparr>last_time_temp := t\<rparr>))\<rparr>"
    by blast
  then show "RUNQ (fp_vcpu_wake ops v s) q = RUNQ s q" "softirqs (fp_vcpu_wake ops v s) = softirqs s"
    by (elim disjE; simp)+
qed

text \<open>
  C22. Unblocking makes progress: a vcpu of the fixed-priority scheduler that is blocked, not
  paused and not current on its CPU becomes runnable and is on a run queue afterwards, without
  a fault. If the scheduler had taken it off its queue, it is on the queue of its own CPU,
  and that CPU has a scheduling softirq pending; if it had stayed on a queue, no softirq is
  raised.
\<close>

theorem vcpu_unblock_wakes:
  assumes "fp_inv (vcpu_scheduler s v) s" and "v_priv (vcpus s v) \<noteq> None" and "\<not> is_idle_vcpu s v"
    and "pause_flags (vcpus s v) = {VPF_blocked}" and "pause_count (vcpus s v) = 0"
    and "d_pause_count (domains s (v_domain (vcpus s v))) = 0"
    and "rs_state (runstate (vcpus s v)) = RUNSTATE_blocked"
    and "sd_curr (percpu s (processor (vcpus s v))) \<noteq> v"
  shows "let s' = vcpu_unblock fp_env v s; cpu = processor (vcpus s v) in
    vcpu_runnable s' v \<and> rs_state (runstate (vcpus s' v)) = RUNSTATE_runnable \<and> fault s' = fault s
    \<and> (\<exists>q. v \<in> set (RUNQ s' q))
    \<and> (if vcpu_on_q s v then softirqs s' = softirqs s
       else v \<in> set (RUNQ s' cpu) \<and> (cpu, SCHEDULE_SOFTIRQ) \<in> softirqs s')"
proof -
  let ?u = "unblocked v s" and ?ops = "vcpu_scheduler s v" and ?cpu = "processor (vcpus s v)"
  note u = unblocked_reads [OF assms(4-7)]
  note same = fp_outside_same [OF unblocked_outside [of s v]]
  have inv: "fp_inv ?ops ?u" by (rule fp_outside_keeps(1) [OF unblocked_outside assms(1)])
  have priv: "v_priv (vcpus ?u v) \<noteq> None" and idle: "\<not> is_idle_vcpu ?u v"
    using assms(2,3) unblocked_outside [of s v] same by (simp_all add: fp_outside_def)
  have onq: "vcpu_on_q ?u v = vcpu_on_q s v" by (simp add: vcpu_on_q_def same)
  have notcur: "sd_curr (percpu ?u (processor (vcpus ?u v))) \<noteq> v" using assms(8) by (simp add: u)
  let ?s' = "fp_vcpu_wake ?ops v ?u"
  have fr: "fp_frame ?u ?s'" by (rule fp_frame_wake)
  have basic: "vcpu_runnable ?s' v" "rs_state (runstate (vcpus ?s' v)) = RUNSTATE_runnable" "fault ?s' = fault s"
    using u fp_frame_preds(3) [OF fr] fp_frameD(6) [OF fr] fault_fp_wake(1) [OF inv priv idle] by simp_all
  show ?thesis
  proof (cases "vcpu_on_q s v")
    case True
    then have t: "RUNQ ?s' q = RUNQ s q" "softirqs ?s' = softirqs s" for q
      using wake_queued [of ?u v ?ops] onq same(1) u(5) by simp_all
    obtain q where "queue_elem (FPSCHED_VCPU s v) = Some q" using True by (auto simp: vcpu_on_q_def)
    then have "v \<in> set (RUNQ s q)" using assms(1,2) by (auto simp: fp_inv_def fp_wf_def)
    then have "\<exists>q. v \<in> set (RUNQ ?s' q)" unfolding t by blast
    with True basic t(2) show ?thesis unfolding u(1) Let_def by simp
  next
    case False
    let ?s1 = "runq_insert ?cpu v (fp_cmp ?ops ?u) ?u"
    have "sd_priv (percpu ?u ?cpu) \<noteq> None"
      using inv priv u(7) by (auto simp: fp_inv_def fp_wf_def)
    then have "v \<in> set (RUNQ ?s1 ?cpu)"
      by (simp add: runq_runq_insert [OF idle] set_insert_before)
    moreover have "?s' = (let s1 = ?s1 in cpu_raise_softirq ?cpu SCHEDULE_SOFTIRQ
        (call_prio_handler (prio_handler (config (FPSCHED_PRIV s1 ?ops))) (v_domain (vcpus s1 v))
          (fv_priority (FPSCHED_VCPU s1 v)) s1))"
      using fp_vcpu_wake_insert [OF notcur idle] False onq u(7) by simp
    ultimately have "v \<in> set (RUNQ ?s' ?cpu)" "(?cpu, SCHEDULE_SOFTIRQ) \<in> softirqs ?s'"
      using same_queues_call_prio_handler by (simp_all add: Let_def same_queues_def)
    with False basic show ?thesis unfolding u(1) Let_def by auto
  qed
qed

text \<open>Domain 2's vcpu blocked and off the queue, domain 1's queued.\<close>

definition demo_blocked :: fp_xen where
  "demo_blocked = upd_vcpu 2 (\<lambda>x. x\<lparr>pause_flags := {VPF_blocked}, runstate := (runstate x)\<lparr>rs_state := RUNSTATE_blocked\<rparr>\<rparr>) demo_run"

lemma demo_blocked_reads:
  "vcpu_scheduler demo_blocked 2 = 0" "processor (vcpus demo_blocked 2) = 0" "\<not> vcpu_on_q demo_blocked 2"
  "fault demo_blocked = None" "\<not> is_idle_vcpu demo_blocked 2"
  by (simp_all add: demo_blocked_def demo_run_def demo_defs vcpu_scheduler_def vcpu_on_q_def FPSCHED_VCPU_def
      is_idle_vcpu_def is_idle_domain_def)

theorem vcpu_unblock_wakes_witness:
  "let s' = vcpu_unblock fp_env 2 demo_blocked in
     vcpu_runnable s' 2 \<and> fault s' = None \<and> 2 \<in> set (RUNQ s' 0) \<and> (0, SCHEDULE_SOFTIRQ) \<in> softirqs s'"
proof -
  have "fp_outside demo_run demo_blocked"
    by (simp add: fp_outside_def demo_blocked_def)
  then have inv: "fp_inv (vcpu_scheduler demo_blocked 2) demo_blocked"
    using fp_outside_keeps(1) demo_run_ok(1) by (simp add: demo_blocked_reads)
  have more: "v_priv (vcpus demo_blocked 2) \<noteq> None" "pause_flags (vcpus demo_blocked 2) = {VPF_blocked}"
    "pause_count (vcpus demo_blocked 2) = 0" "d_pause_count (domains demo_blocked (v_domain (vcpus demo_blocked 2))) = 0"
    "rs_state (runstate (vcpus demo_blocked 2)) = RUNSTATE_blocked"
    "sd_curr (percpu demo_blocked (processor (vcpus demo_blocked 2))) \<noteq> 2"
    by (simp_all add: demo_blocked_def demo_run_def demo_defs)
  show ?thesis
    using vcpu_unblock_wakes [OF inv more(1) demo_blocked_reads(5) more(2-6)]
    by (simp add: Let_def demo_blocked_reads)
qed

section \<open>Migration leaves a queued vcpu behind\<close>

lemma runq_vcpu_wake:
  assumes "vcpu_on_q s v"
  shows "RUNQ (vcpu_wake fp_env v s) q = RUNQ s q"
proof -
  let ?t = "vcpu_runstate_change v RUNSTATE_runnable (clock s) s"
  have "RUNQ ?t q = RUNQ s q" "vcpu_on_q ?t v"
    using fp_view_reads [OF fp_view_runstate] assms by (simp_all add: vcpu_on_q_def)
  then show ?thesis
    using assms fp_view_reads(1) [OF fp_view_runstate]
    by (simp add: vcpu_wake_def Let_def vcpu_ops_def SCHED_OP_def wake_queued(1))
qed

text \<open>
  C37. The fixed-priority scheduler has no migrate hook and keeps a running vcpu on its run
  queue. When such a vcpu is descheduled to be migrated away from CPU q, context_saved assigns
  it to a CPU its affinity allows but leaves it on the run queue of q, which its affinity
  forbids; the next scheduling decision of q can run it there.
\<close>

theorem fp_migration_strands_vcpu:
  assumes "queue_elem (FPSCHED_VCPU s v) = Some q" and "v \<in> set (RUNQ s q)"
    and "VPF_migrating \<in> pause_flags (vcpus s v)" and "q \<notin> cpu_hard_affinity (vcpus s v)"
    and "c \<in> cpu_hard_affinity (vcpus s v)" and "c \<in> cpupool_domain_cpumask s (v_domain (vcpus s v))"
    and "c < nr_cpu_ids s"
  shows "\<exists>s'. context_saved fp_env v s = Some s' \<and> processor (vcpus s' v) \<in> cpu_hard_affinity (vcpus s v)
    \<and> q \<notin> cpu_hard_affinity (vcpus s' v) \<and> v \<in> set (RUNQ s' q)"
proof -
  let ?t = "upd_vcpu v (\<lambda>x. x\<lparr>is_running := False\<rparr>) s"
  let ?u = "vcpu_move_locked fp_env v (fp_pick_cpu v ?t) (clear_flag VPF_migrating v ?t)"
  have t: "c \<in> cpu_hard_affinity (vcpus ?t v)" "c \<in> cpupool_domain_cpumask ?t (v_domain (vcpus ?t v))" "c < nr_cpu_ids ?t"
    using assms(5-7) by simp_all
  have "context_saved fp_env v s = Some (vcpu_wake fp_env v ?u)"
    using assms(3) vcpu_migrate_fp [OF t]
    by (simp add: context_saved_def Let_def vcpu_ops_def SCHED_OP_def)
  moreover have q: "RUNQ ?u q = RUNQ s q" "vcpu_on_q ?u v"
    using assms(1)
    by (simp_all add: vcpu_move_locked_def clear_flag_def add_urgent_def Let_def vcpu_ops_def RUNQ_def vcpu_on_q_def
        FPSCHED_VCPU_def)
  moreover have "processor (vcpus ?u v) \<in> cpu_hard_affinity (vcpus s v)"
    using fp_pick_in(1) [OF t] by (simp add: move_locked_fp)
  moreover have "cpu_hard_affinity (vcpus ?u v) = cpu_hard_affinity (vcpus s v)"
    by (simp add: vcpu_move_locked_def clear_flag_def add_urgent_def Let_def vcpu_ops_def)
  ultimately show ?thesis
    using assms(2,4) settings_reads [OF fps.settings_wake] by (simp add: runq_vcpu_wake)
qed

theorem fp_migration_strands_vcpu_witness:
  "\<exists>s'. context_saved fp_env 1 demo_migrate = Some s' \<and> processor (vcpus s' 1) = 1 \<and> 1 \<in> set (RUNQ s' 0)"
proof -
  have "queue_elem (FPSCHED_VCPU demo_migrate 1) = Some 0" "1 \<in> set (RUNQ demo_migrate 0)"
    by (simp_all add: demo_migrate_def set_flag_def demo_two_def demo_defs FPSCHED_VCPU_def RUNQ_def)
  from fp_migration_strands_vcpu [OF this, of 1] show ?thesis
    using demo_migrate_reads by auto
qed

section \<open>Polling and the single-shot timer\<close>

lemma poll_out_undoes:
  assumes "VPF_blocked \<notin> pause_flags (vcpus s v)" and "poll_evtchn (vcpus s v) = 0"
    and "vcpu_id (vcpus s v) \<notin> poll_mask (domains s (v_domain (vcpus s v)))"
  shows "poll_out v (upd_dom (v_domain (vcpus s v)) (\<lambda>x. x\<lparr>poll_mask := insert (vcpu_id (vcpus s v)) (poll_mask x)\<rparr>)
    (upd_vcpu v (\<lambda>x. x\<lparr>poll_evtchn := - 1\<rparr>) (set_flag VPF_blocked v s))) = s"
proof -
  let ?x = "vcpus s v" and ?d = "v_domain (vcpus s v)"
  have "?x\<lparr>poll_evtchn := 0, pause_flags := insert VPF_blocked (pause_flags ?x) - {VPF_blocked}\<rparr> = ?x"
    using assms(1,2) by (cases ?x) simp
  moreover have "(domains s ?d)\<lparr>poll_mask := insert (vcpu_id ?x) (poll_mask (domains s ?d)) - {vcpu_id ?x}\<rparr> = domains s ?d"
    using assms(3) by (cases "domains s ?d") simp
  ultimately show ?thesis
    by (simp add: poll_out_def set_flag_def clear_flag_def upd_defs)
qed

text \<open>
  C36. SCHEDOP_poll of a vcpu that is not blocked fails only with EINVAL or EFAULT, and then
  has no effect. When it succeeds because an event or one of the ports is pending, the state
  is as before; otherwise the vcpu is blocked, in the domain's poll mask with the port it
  polls, and a scheduling softirq is pending.
\<close>

theorem do_poll_effect:
  assumes "do_poll okay pending port_pending cpu p s = (rc, s')"
    and "v = current s cpu" and "VPF_blocked \<notin> pause_flags (vcpus s v)" and "poll_evtchn (vcpus s v) = 0"
    and "d = v_domain (vcpus s v)" and "vcpu_id (vcpus s v) \<notin> poll_mask (domains s d)"
  shows "case rc of
      Inl e \<Rightarrow> (e = EINVAL \<or> e = EFAULT) \<and> s' = s
    | Inr _ \<Rightarrow>
        if pending \<or> poll_check port_pending (max_evtchns (domains s d)) (poll_ports p) \<noteq> None then s' = s
        else VPF_blocked \<in> pause_flags (vcpus s' v) \<and> vcpu_id (vcpus s' v) \<in> poll_mask (domains s' d)
          \<and> poll_evtchn (vcpus s' v) = (case poll_ports p of [Some port] \<Rightarrow> s32 (int port) | _ \<Rightarrow> - 1)
          \<and> (cpu, SCHEDULE_SOFTIRQ) \<in> softirqs s'"
proof -
  define s1 where "s1 = upd_dom d (\<lambda>x. x\<lparr>poll_mask := insert (vcpu_id (vcpus s v)) (poll_mask x)\<rparr>)
    (upd_vcpu v (\<lambda>x. x\<lparr>poll_evtchn := - 1\<rparr>) (set_flag VPF_blocked v s))"
  have undo: "poll_out v s1 = s"
    unfolding s1_def assms(5) by (rule poll_out_undoes) (use assms in auto)
  have lim: "max_evtchns (domains s1 d) = max_evtchns (domains s d)"
    by (simp add: s1_def set_flag_def)
  have err: "e = EINVAL \<or> e = EFAULT" if "poll_check port_pending n ps = Some (Inl e)" for n ps e
    using that by (induction port_pending n ps rule: poll_check.induct) (auto split: if_splits)
  have s1: "VPF_blocked \<in> pause_flags (vcpus s1 v)" "poll_evtchn (vcpus s1 v) = - 1"
    "vcpu_id (vcpus s1 v) \<in> poll_mask (domains s1 d)"
    by (simp_all add: s1_def set_flag_def)
  show ?thesis
    using assms(1) unfolding do_poll_def Let_def assms(2) [symmetric] assms(5) [symmetric] s1_def [symmetric] undo lim
    by (auto simp: s1 dest: err split: if_splits option.splits list.splits sum.splits)
qed

theorem do_poll_effect_witness:
  "fst (do_poll True False (\<lambda>_. False) 0 \<lparr>poll_ports = [Some 5000], poll_timeout = 0\<rparr> demo_two) = Inl EINVAL
   \<and> snd (do_poll True False (\<lambda>_. False) 0 \<lparr>poll_ports = [Some 5000], poll_timeout = 0\<rparr> demo_two) = demo_two"
proof -
  let ?p = "\<lparr>poll_ports = [Some 5000], poll_timeout = 0\<rparr> :: sched_poll"
  have 1: "fst (do_poll True False (\<lambda>_. False) 0 ?p demo_two) = Inl EINVAL"
    by (simp add: do_poll_def Let_def demo_two_def demo_defs set_flag_def)
  moreover obtain rc s' where eq: "do_poll True False (\<lambda>_. False) 0 ?p demo_two = (rc, s')" by fastforce
  moreover have "VPF_blocked \<notin> pause_flags (vcpus demo_two (current demo_two 0))"
    "poll_evtchn (vcpus demo_two (current demo_two 0)) = 0"
    "vcpu_id (vcpus demo_two (current demo_two 0)) \<notin> poll_mask (domains demo_two (v_domain (vcpus demo_two (current demo_two 0))))"
    by (simp_all add: demo_two_def demo_defs)
  note do_poll_effect [OF eq refl this(1,2) refl this(3)]
  ultimately show ?thesis by simp
qed

text \<open>
  The single-shot timer hypercall never arms the timer more than 2^50 nanoseconds (about
  13 days) ahead: a zero timeout stops the timer, a negative or more distant one is replaced
  by 100 milliseconds from now, any other is kept, on the calling CPU. No computation
  overflows while the clock is below 2^62.
\<close>

theorem do_set_timer_op_bound:
  assumes "- (2 ^ 63) \<le> timeout" and "timeout < 2 ^ 63" and "0 \<le> clock s" and "clock s < 2 ^ 62"
    and "v = current s cpu" and "\<not> at_killed (singleshot_timer (vcpus s v))"
  shows "singleshot_timer (vcpus (do_set_timer_op cpu timeout s) v) =
    (let t = singleshot_timer (vcpus s v) in
     if timeout = 0 then t\<lparr>at_expires := None\<rparr>
     else if timeout < 0 \<or> timeout \<ge> clock s + 2 ^ 50 then t\<lparr>at_expires := Some (clock s + 100000000)\<rparr>
     else t\<lparr>at_cpu := cpu, at_expires := Some timeout\<rparr>)"
proof -
  have off: "s64 (timeout - clock s) = timeout - clock s" if "timeout > 0"
    using that assms by (intro s64_id) simp_all
  have ms: "s64 (clock s + MILLISECS 100) = clock s + 100000000"
    using assms by (simp add: MILLISECS_def s64_id)
  have far: "0 < timeout - clock s \<and> u32 ((timeout - clock s) div 2 ^ 50) \<noteq> 0 \<longleftrightarrow> timeout \<ge> clock s + 2 ^ 50"
    if "timeout > 0"
  proof -
    have "u32 ((timeout - clock s) div 2 ^ 50) = (timeout - clock s) div 2 ^ 50" if "0 < timeout - clock s"
      using that assms(2,3) by (simp add: u32_def)
    moreover have "(timeout - clock s) div 2 ^ 50 = 0 \<longleftrightarrow> timeout - clock s < 2 ^ 50" if "0 < timeout - clock s"
      using that by (simp add: zdiv_eq_0_iff)
    ultimately show ?thesis by auto
  qed
  show ?thesis
  proof (cases "timeout > 0")
    case True
    then show ?thesis
      using assms(5,6) far by (simp add: do_set_timer_op_def Let_def off ms atimer_set_def atimer_migrate_def)
  next
    case False
    then show ?thesis
      using assms(5,6) by (simp add: do_set_timer_op_def Let_def ms atimer_set_def atimer_stop_def)
  qed
qed

theorem do_set_timer_op_bound_witness:
  "at_expires (singleshot_timer (vcpus (do_set_timer_op 0 (2 ^ 60) demo_two) 9)) = Some 100001000"
proof -
  have "clock demo_two = 1000" "current demo_two 0 = 9" "singleshot_timer (vcpus demo_two 9) = demo_timer"
    by (simp_all add: demo_two_def fp_demo_def demo_vcpu_def)
  then show ?thesis
    using do_set_timer_op_bound [of "2 ^ 60" demo_two 9 0] by (simp add: demo_timer_def)
qed

end
