(* ===== verification/Domain.thy ===== *)
theory Domain
  imports Schedule
begin

text \<open>
  Pausing, shutting down and resuming domains (common/domain.c), the domain watchdogs and the
  SCHEDOP hypercall (common/schedule.c). \<open>me\<close> is the calling CPU; \<open>relax\<close> is what the other CPUs do
  while a call waits for a vcpu to be descheduled.
\<close>

section \<open>Pausing\<close>

definition add_pause :: "nat \<Rightarrow> int \<Rightarrow> ('v, 'd, 'p, 'g) xen \<Rightarrow> ('v, 'd, 'p, 'g) xen" where
  "add_pause v n s = upd_vcpu v (\<lambda>x. x\<lparr>pause_count := pause_count x + n\<rparr>) s"

definition vcpu_pause ::
  "('v, 'd, 'p, 'g) sched_env \<Rightarrow> (nat \<Rightarrow> ('v, 'd, 'p, 'g) xen \<Rightarrow> ('v, 'd, 'p, 'g) xen) \<Rightarrow> nat \<Rightarrow> nat
    \<Rightarrow> ('v, 'd, 'p, 'g) xen \<Rightarrow> ('v, 'd, 'p, 'g) xen" where
  "vcpu_pause E relax me v s =
     (let s0 = (if v = current s me then panic Assert_failed s else s)
      in vcpu_sleep_sync E relax v (add_pause v 1 s0))"

definition vcpu_pause_nosync ::
  "('v, 'd, 'p, 'g) sched_env \<Rightarrow> nat \<Rightarrow> ('v, 'd, 'p, 'g) xen \<Rightarrow> ('v, 'd, 'p, 'g) xen" where
  "vcpu_pause_nosync E v s = vcpu_sleep_nosync E v (add_pause v 1 s)"

definition vcpu_unpause ::
  "('v, 'd, 'p, 'g) sched_env \<Rightarrow> nat \<Rightarrow> ('v, 'd, 'p, 'g) xen \<Rightarrow> ('v, 'd, 'p, 'g) xen" where
  "vcpu_unpause E v s =
     (let s1 = add_pause v (- 1) s
      in if pause_count (vcpus s1 v) = 0 then vcpu_wake E v s1 else s1)"

definition vcpu_pause_by_systemcontroller ::
  "('v, 'd, 'p, 'g) sched_env \<Rightarrow> (nat \<Rightarrow> ('v, 'd, 'p, 'g) xen \<Rightarrow> ('v, 'd, 'p, 'g) xen) \<Rightarrow> nat \<Rightarrow> nat
    \<Rightarrow> ('v, 'd, 'p, 'g) xen \<Rightarrow> rc \<times> ('v, 'd, 'p, 'g) xen" where
  "vcpu_pause_by_systemcontroller E relax me v s =
     (let new = v_controller_pause_count (vcpus s v) + 1
      in if new > 255 then (Inl EOVERFLOW, s)
         else (OK, vcpu_pause E relax me v (upd_vcpu v (\<lambda>x. x\<lparr>v_controller_pause_count := new\<rparr>) s)))"

definition vcpu_unpause_by_systemcontroller ::
  "('v, 'd, 'p, 'g) sched_env \<Rightarrow> nat \<Rightarrow> ('v, 'd, 'p, 'g) xen \<Rightarrow> rc \<times> ('v, 'd, 'p, 'g) xen" where
  "vcpu_unpause_by_systemcontroller E v s =
     (let new = v_controller_pause_count (vcpus s v) - 1
      in if new < 0 then (Inl EINVAL, s)
         else (OK, vcpu_unpause E v (upd_vcpu v (\<lambda>x. x\<lparr>v_controller_pause_count := new\<rparr>) s)))"

definition do_domain_pause ::
  "(nat \<Rightarrow> ('v, 'd, 'p, 'g) xen \<Rightarrow> ('v, 'd, 'p, 'g) xen) \<Rightarrow> nat \<Rightarrow> ('v, 'd, 'p, 'g) xen \<Rightarrow> ('v, 'd, 'p, 'g) xen" where
  "do_domain_pause sleep_fn d s =
     fold sleep_fn (dom_vcpus (domains s d)) (upd_dom d (\<lambda>x. x\<lparr>d_pause_count := d_pause_count x + 1\<rparr>) s)"

definition domain_pause ::
  "('v, 'd, 'p, 'g) sched_env \<Rightarrow> (nat \<Rightarrow> ('v, 'd, 'p, 'g) xen \<Rightarrow> ('v, 'd, 'p, 'g) xen) \<Rightarrow> nat \<Rightarrow> nat
    \<Rightarrow> ('v, 'd, 'p, 'g) xen \<Rightarrow> ('v, 'd, 'p, 'g) xen" where
  "domain_pause E relax me d s =
     do_domain_pause (vcpu_sleep_sync E relax) d
       (if d = v_domain (vcpus s (current s me)) then panic Assert_failed s else s)"

definition domain_pause_nosync ::
  "('v, 'd, 'p, 'g) sched_env \<Rightarrow> nat \<Rightarrow> ('v, 'd, 'p, 'g) xen \<Rightarrow> ('v, 'd, 'p, 'g) xen" where
  "domain_pause_nosync E d s = do_domain_pause (vcpu_sleep_nosync E) d s"

definition domain_unpause ::
  "('v, 'd, 'p, 'g) sched_env \<Rightarrow> nat \<Rightarrow> ('v, 'd, 'p, 'g) xen \<Rightarrow> ('v, 'd, 'p, 'g) xen" where
  "domain_unpause E d s =
     (let s1 = upd_dom d (\<lambda>x. x\<lparr>d_pause_count := d_pause_count x - 1\<rparr>) s
      in if d_pause_count (domains s1 d) = 0 then fold (vcpu_wake E) (dom_vcpus (domains s1 d)) s1 else s1)"

text \<open>The controller's count of pauses is kept between 0 and 255.\<close>

definition domain_pause_by_systemcontroller ::
  "(nat \<Rightarrow> ('v, 'd, 'p, 'g) xen \<Rightarrow> ('v, 'd, 'p, 'g) xen) \<Rightarrow> nat \<Rightarrow> ('v, 'd, 'p, 'g) xen
    \<Rightarrow> rc \<times> ('v, 'd, 'p, 'g) xen" where
  "domain_pause_by_systemcontroller pause_fn d s =
     (let new = d_controller_pause_count (domains s d) + 1
      in if new > 255 then (Inl EOVERFLOW, s)
         else (OK, pause_fn d (upd_dom d (\<lambda>x. x\<lparr>d_controller_pause_count := new\<rparr>) s)))"

definition domain_unpause_by_systemcontroller ::
  "('v, 'd, 'p, 'g) sched_env \<Rightarrow> nat \<Rightarrow> ('v, 'd, 'p, 'g) xen \<Rightarrow> rc \<times> ('v, 'd, 'p, 'g) xen" where
  "domain_unpause_by_systemcontroller E d s =
     (let new = d_controller_pause_count (domains s d) - 1
      in if new < 0 then (Inl EINVAL, s)
         else (OK, domain_unpause E d
                 (upd_dom d (\<lambda>x. x\<lparr>d_controller_pause_count := new,
                                     creation_finished := (creation_finished x \<or> new = 0)\<rparr>) s)))"

definition domain_pause_except_self ::
  "('v, 'd, 'p, 'g) sched_env \<Rightarrow> (nat \<Rightarrow> ('v, 'd, 'p, 'g) xen \<Rightarrow> ('v, 'd, 'p, 'g) xen) \<Rightarrow> nat \<Rightarrow> nat
    \<Rightarrow> ('v, 'd, 'p, 'g) xen \<Rightarrow> ('v, 'd, 'p, 'g) xen" where
  "domain_pause_except_self E relax me d s =
     (let curr = current s me
      in if v_domain (vcpus s curr) = d
         then fold (\<lambda>v s. if v \<noteq> curr then vcpu_pause E relax me v s else s) (dom_vcpus (domains s d)) s
         else domain_pause E relax me d s)"

definition domain_unpause_except_self ::
  "('v, 'd, 'p, 'g) sched_env \<Rightarrow> nat \<Rightarrow> nat \<Rightarrow> ('v, 'd, 'p, 'g) xen \<Rightarrow> ('v, 'd, 'p, 'g) xen" where
  "domain_unpause_except_self E me d s =
     (let curr = current s me
      in if v_domain (vcpus s curr) = d
         then fold (\<lambda>v s. if v \<noteq> curr then vcpu_unpause E v s else s) (dom_vcpus (domains s d)) s
         else domain_unpause E d s)"

section \<open>Shutdown\<close>

definition SHUTDOWN_suspend :: int where "SHUTDOWN_suspend = 2"
definition SHUTDOWN_crash :: int where "SHUTDOWN_crash = 3"
definition SHUTDOWN_watchdog :: int where "SHUTDOWN_watchdog = 4"

definition domain_finalise_shutdown :: "nat \<Rightarrow> ('v, 'd, 'p, 'g) xen \<Rightarrow> ('v, 'd, 'p, 'g) xen" where
  "domain_finalise_shutdown d s =
     (if is_shut_down (domains s d) then s
      else if \<exists>v\<in>set (dom_vcpus (domains s d)). \<not> paused_for_shutdown (vcpus s v) then s
      else
        let s1 = upd_dom d (\<lambda>x. x\<lparr>is_shut_down := True\<rparr>) s
        in if shutdown_code (domains s1 d) = Some SHUTDOWN_suspend \<and> suspend_evtchn (domains s1 d) \<noteq> 0
           then send (Suspend_event d) s1 else send Dom_exc s1)"

definition vcpu_check_shutdown ::
  "('v, 'd, 'p, 'g) sched_env \<Rightarrow> nat \<Rightarrow> ('v, 'd, 'p, 'g) xen \<Rightarrow> ('v, 'd, 'p, 'g) xen" where
  "vcpu_check_shutdown E v s =
     (let d = v_domain (vcpus s v)
      in if is_shutting_down (domains s d)
         then domain_finalise_shutdown d
                (upd_vcpu v (\<lambda>x. x\<lparr>paused_for_shutdown := True, defer_shutdown := False\<rparr>)
                  (if \<not> paused_for_shutdown (vcpus s v) then vcpu_pause_nosync E v s else s))
         else s)"

text \<open>
  What domain_shutdown does to one vcpu, and the whole of it. The shutdown of the hardware
  domain halts or restarts the host.
\<close>

definition shutdown_vcpu ::
  "('v, 'd, 'p, 'g) sched_env \<Rightarrow> int \<Rightarrow> nat \<Rightarrow> ('v, 'd, 'p, 'g) xen \<Rightarrow> ('v, 'd, 'p, 'g) xen" where
  "shutdown_vcpu E reason v s =
     (if reason \<noteq> SHUTDOWN_crash \<and> defer_shutdown (vcpus s v) then s
      else
        let s1 = (if reason = SHUTDOWN_crash then upd_vcpu v (\<lambda>x. x\<lparr>defer_shutdown := False\<rparr>) s else s)
        in upd_vcpu v (\<lambda>x. x\<lparr>paused_for_shutdown := True\<rparr>) (vcpu_pause_nosync E v s1))"

definition domain_shutdown ::
  "('v, 'd, 'p, 'g) sched_env \<Rightarrow> nat \<Rightarrow> int \<Rightarrow> ('v, 'd, 'p, 'g) xen \<Rightarrow> ('v, 'd, 'p, 'g) xen" where
  "domain_shutdown E d reason s =
     (let s1 = (if shutdown_code (domains s d) = None
                then upd_dom d (\<lambda>x. x\<lparr>shutdown_code := Some reason\<rparr>) s else s);
          reason' = the (shutdown_code (domains s1 d));
          s2 = (if d = hardware_domain (glob s1) then panic Host_shutdown s1 else s1)
      in if is_shutting_down (domains s2 d) then s2
         else
           let s3 = upd_dom d (\<lambda>x. x\<lparr>is_shutting_down := True\<rparr>) s2
           in domain_finalise_shutdown d (fold (shutdown_vcpu E reason') (dom_vcpus (domains s3 d)) s3))"

definition domain_crash ::
  "('v, 'd, 'p, 'g) sched_env \<Rightarrow> nat \<Rightarrow> ('v, 'd, 'p, 'g) xen \<Rightarrow> ('v, 'd, 'p, 'g) xen" where
  "domain_crash E d s = domain_shutdown E d SHUTDOWN_crash s"

definition resume_vcpu ::
  "('v, 'd, 'p, 'g) sched_env \<Rightarrow> nat \<Rightarrow> ('v, 'd, 'p, 'g) xen \<Rightarrow> ('v, 'd, 'p, 'g) xen" where
  "resume_vcpu E v s =
     upd_vcpu v (\<lambda>x. x\<lparr>paused_for_shutdown := False\<rparr>)
       (if paused_for_shutdown (vcpus s v) then vcpu_unpause E v s else s)"

definition domain_resume ::
  "('v, 'd, 'p, 'g) sched_env \<Rightarrow> (nat \<Rightarrow> ('v, 'd, 'p, 'g) xen \<Rightarrow> ('v, 'd, 'p, 'g) xen) \<Rightarrow> nat \<Rightarrow> nat
    \<Rightarrow> ('v, 'd, 'p, 'g) xen \<Rightarrow> ('v, 'd, 'p, 'g) xen" where
  "domain_resume E relax me d s =
     (let s1 = domain_pause E relax me d s;
          s2 = upd_dom d (\<lambda>x. x\<lparr>is_shutting_down := False, is_shut_down := False, shutdown_code := None\<rparr>) s1
      in domain_unpause E d (fold (resume_vcpu E) (dom_vcpus (domains s2 d)) s2))"

definition vcpu_start_shutdown_deferral ::
  "('v, 'd, 'p, 'g) sched_env \<Rightarrow> nat \<Rightarrow> ('v, 'd, 'p, 'g) xen \<Rightarrow> bool \<times> ('v, 'd, 'p, 'g) xen" where
  "vcpu_start_shutdown_deferral E v s =
     (if defer_shutdown (vcpus s v) then (True, s)
      else
        let s1 = upd_vcpu v (\<lambda>x. x\<lparr>defer_shutdown := True\<rparr>) s;
            s2 = (if is_shutting_down (domains s1 (v_domain (vcpus s1 v))) then vcpu_check_shutdown E v s1 else s1)
        in (defer_shutdown (vcpus s2 v), s2))"

definition vcpu_end_shutdown_deferral ::
  "('v, 'd, 'p, 'g) sched_env \<Rightarrow> nat \<Rightarrow> ('v, 'd, 'p, 'g) xen \<Rightarrow> ('v, 'd, 'p, 'g) xen" where
  "vcpu_end_shutdown_deferral E v s =
     (let s1 = upd_vcpu v (\<lambda>x. x\<lparr>defer_shutdown := False\<rparr>) s
      in if is_shutting_down (domains s1 (v_domain (vcpus s1 v))) then vcpu_check_shutdown E v s1 else s1)"

text \<open>
  Resetting a vcpu: \<open>arch\<close> is the result of arch_vcpu_reset, which may set up the registers
  but nothing modelled here.
\<close>

definition vcpu_reset ::
  "('v, 'd, 'p, 'g) sched_env \<Rightarrow> (nat \<Rightarrow> ('v, 'd, 'p, 'g) xen \<Rightarrow> ('v, 'd, 'p, 'g) xen) \<Rightarrow> nat \<Rightarrow> rc \<Rightarrow> nat
    \<Rightarrow> ('v, 'd, 'p, 'g) xen \<Rightarrow> rc \<times> ('v, 'd, 'p, 'g) xen" where
  "vcpu_reset E relax me arch v s =
     (let s1 = set_flag VPF_in_reset v (vcpu_pause E relax me v s);
          d = v_domain (vcpus s1 v);
          s2 = (case arch of
                  Inl e \<Rightarrow> s1
                | Inr _ \<Rightarrow>
                    clear_flag VPF_in_reset v (clear_flag VPF_blocked v
                      (upd_vcpu v (\<lambda>x. x\<lparr>poll_evtchn := 0\<rparr>)
                        (upd_dom d (\<lambda>x. x\<lparr>poll_mask := poll_mask x - {vcpu_id (vcpus s1 v)}\<rparr>)
                          (set_flag VPF_down v s1)))))
      in (arch, vcpu_unpause E v s2))"

section \<open>Watchdogs\<close>

definition NR_DOMAIN_WATCHDOG_TIMERS :: nat where
  "NR_DOMAIN_WATCHDOG_TIMERS = 2"

definition domain_watchdog_timeout ::
  "('v, 'd, 'p, 'g) sched_env \<Rightarrow> nat \<Rightarrow> ('v, 'd, 'p, 'g) xen \<Rightarrow> ('v, 'd, 'p, 'g) xen" where
  "domain_watchdog_timeout E d s =
     (if is_shutting_down (domains s d) \<or> d_is_dying (domains s d) \<noteq> DOMDYING_alive then s
      else domain_shutdown E d SHUTDOWN_watchdog s)"

definition set_watchdog :: "nat \<Rightarrow> nat \<Rightarrow> int \<Rightarrow> ('v, 'd, 'p, 'g) xen \<Rightarrow> ('v, 'd, 'p, 'g) xen" where
  "set_watchdog d i timeout s =
     upd_dom d (\<lambda>x. x\<lparr>watchdog_timer := (watchdog_timer x)
                       (i := atimer_set (s64 (clock s + SECONDS timeout)) (watchdog_timer x i))\<rparr>) s"

text \<open>The id and the timeout are unsigned 32-bit numbers; a new watchdog returns its id.\<close>

definition domain_watchdog ::
  "nat \<Rightarrow> nat \<Rightarrow> int \<Rightarrow> ('v, 'd, 'p, 'g) xen \<Rightarrow> (errno + int) \<times> ('v, 'd, 'p, 'g) xen" where
  "domain_watchdog d i timeout s =
     (if i > NR_DOMAIN_WATCHDOG_TIMERS then (Inl EINVAL, s)
      else if i = 0 then
        (case find (\<lambda>k. k \<notin> watchdog_inuse_map (domains s d)) [0..<NR_DOMAIN_WATCHDOG_TIMERS] of
           None \<Rightarrow> (Inl ENOSPC, s)
         | Some k \<Rightarrow>
             (Inr (int k + 1),
              set_watchdog d k timeout
                (upd_dom d (\<lambda>x. x\<lparr>watchdog_inuse_map := insert k (watchdog_inuse_map x)\<rparr>) s)))
      else
        let k = i - 1
        in if k \<notin> watchdog_inuse_map (domains s d) then (Inl EINVAL, s)
           else if timeout = 0 then
             (Inr 0, upd_dom d (\<lambda>x. x\<lparr>watchdog_timer := (watchdog_timer x)(k := atimer_stop (watchdog_timer x k)),
                                       watchdog_inuse_map := watchdog_inuse_map x - {k}\<rparr>) s)
           else (Inr 0, set_watchdog d k timeout s))"

definition watchdog_domain_init :: "nat \<Rightarrow> ('v, 'd, 'p, 'g) xen \<Rightarrow> ('v, 'd, 'p, 'g) xen" where
  "watchdog_domain_init d s =
     upd_dom d (\<lambda>x. x\<lparr>watchdog_inuse_map := {},
                       watchdog_timer := (\<lambda>i. if i < NR_DOMAIN_WATCHDOG_TIMERS then atimer_init 0 else watchdog_timer x i)\<rparr>) s"

definition watchdog_domain_destroy :: "nat \<Rightarrow> ('v, 'd, 'p, 'g) xen \<Rightarrow> ('v, 'd, 'p, 'g) xen" where
  "watchdog_domain_destroy d s =
     upd_dom d (\<lambda>x. x\<lparr>watchdog_timer :=
       (\<lambda>i. if i < NR_DOMAIN_WATCHDOG_TIMERS then atimer_kill (watchdog_timer x i) else watchdog_timer x i)\<rparr>) s"

section \<open>The SCHEDOP hypercall\<close>

text \<open>The argument of a command is \<open>None\<close> when it cannot be copied from the guest.\<close>

datatype sched_cmd =
    SCHEDOP_yield
  | SCHEDOP_block
  | SCHEDOP_shutdown "int option"
  | SCHEDOP_shutdown_code "int option"
  | SCHEDOP_poll "sched_poll option"
  | SCHEDOP_remote_shutdown "(nat \<times> int) option"
  | SCHEDOP_watchdog "(nat \<times> int) option"
  | SCHEDOP_pin_override "int option"
  | SCHEDOP_unknown

definition domain_by_id :: "('v, 'd, 'p, 'g) xen \<Rightarrow> nat \<Rightarrow> nat option" where
  "domain_by_id s i = find (\<lambda>d. domain_id (domains s d) = i) (dom_list s)"

definition rcu_lock_remote_domain_by_id :: "nat \<Rightarrow> nat \<Rightarrow> ('v, 'd, 'p, 'g) xen \<Rightarrow> errno + nat" where
  "rcu_lock_remote_domain_by_id me i s =
     (case domain_by_id s i of
        None \<Rightarrow> Inl ESRCH
      | Some d \<Rightarrow> if d = v_domain (vcpus s (current s me)) then Inl EPERM else Inr d)"

definition rcu_lock_live_remote_domain_by_id :: "nat \<Rightarrow> nat \<Rightarrow> ('v, 'd, 'p, 'g) xen \<Rightarrow> errno + nat" where
  "rcu_lock_live_remote_domain_by_id me i s =
     (case rcu_lock_remote_domain_by_id me i s of
        Inl e \<Rightarrow> Inl e
      | Inr d \<Rightarrow> if d_is_dying (domains s d) \<noteq> DOMDYING_alive then Inl EINVAL else Inr d)"

definition as_long :: "rc \<Rightarrow> errno + int" where
  "as_long rc = (case rc of Inl e \<Rightarrow> Inl e | Inr _ \<Rightarrow> Inr 0)"

text \<open>
  \<open>okay\<close>, \<open>pending\<close> and \<open>port_pending\<close> are as for do_poll, and \<open>xsm\<close> is the security module's
  answer for the calling and the target domain.
\<close>

definition do_sched_op ::
  "('v, 'd, 'p, 'g) sched_env \<Rightarrow> bool \<Rightarrow> bool \<Rightarrow> (nat \<Rightarrow> bool) \<Rightarrow> (nat \<Rightarrow> nat \<Rightarrow> rc) \<Rightarrow> nat \<Rightarrow> sched_cmd
    \<Rightarrow> ('v, 'd, 'p, 'g) xen \<Rightarrow> ((errno + int) \<times> ('v, 'd, 'p, 'g) xen) option" where
  "do_sched_op E okay pending port_pending xsm me cmd s =
     (let curr = current s me; d = v_domain (vcpus s curr)
      in case cmd of
           SCHEDOP_yield \<Rightarrow> Some (Inr 0, vcpu_yield E me s)
         | SCHEDOP_block \<Rightarrow> Some (Inr 0, vcpu_block pending me s)
         | SCHEDOP_shutdown None \<Rightarrow> Some (Inl EFAULT, s)
         | SCHEDOP_shutdown (Some reason) \<Rightarrow> Some (Inr 0, domain_shutdown E d (reason mod 256) s)
         | SCHEDOP_shutdown_code None \<Rightarrow> Some (Inl EFAULT, s)
         | SCHEDOP_shutdown_code (Some reason) \<Rightarrow>
             Some (Inr 0, if shutdown_code (domains s d) = None
                          then upd_dom d (\<lambda>x. x\<lparr>shutdown_code := Some (reason mod 256)\<rparr>) s else s)
         | SCHEDOP_poll None \<Rightarrow> Some (Inl EFAULT, s)
         | SCHEDOP_poll (Some p) \<Rightarrow>
             (let (rc, s1) = do_poll okay pending port_pending me p s in Some (as_long rc, s1))
         | SCHEDOP_remote_shutdown None \<Rightarrow> Some (Inl EFAULT, s)
         | SCHEDOP_remote_shutdown (Some (i, reason)) \<Rightarrow>
             (case domain_by_id s i of
                None \<Rightarrow> Some (Inl ESRCH, s)
              | Some t \<Rightarrow>
                  (case xsm d t of
                     Inl e \<Rightarrow> Some (Inl e, s)
                   | Inr _ \<Rightarrow> Some (Inr 0, domain_shutdown E t (reason mod 256) s)))
         | SCHEDOP_watchdog None \<Rightarrow> Some (Inl EFAULT, s)
         | SCHEDOP_watchdog (Some (i, timeout)) \<Rightarrow> Some (domain_watchdog d i timeout s)
         | SCHEDOP_pin_override arg \<Rightarrow>
             (if d \<noteq> hardware_domain (glob s) then Some (Inl EPERM, s)
              else case arg of
                     None \<Rightarrow> Some (Inl EFAULT, s)
                   | Some cpu \<Rightarrow> do { (rc, s1) \<leftarrow> vcpu_pin_override E curr cpu s; Some (as_long rc, s1) })
         | SCHEDOP_unknown \<Rightarrow> Some (Inl ENOSYS, s))"

end
