(* ===== verification/Domain_Inv.thy ===== *)
theory Domain_Inv
  imports Domain Schedule_Runs
begin

text \<open>
  Pausing and shutting down seen apart from the scheduler: what every operation of
  common/domain.c does to the pause counts and shutdown flags of vcpus and domains, for
  every scheduler that meets the contract.
\<close>

section \<open>The view of pauses and shutdown\<close>

record vcpu_view =
  pv_domain :: nat
  pv_count :: int
  pv_ctl :: int
  pv_shut :: bool
  pv_defer :: bool

record dom_view =
  pd_vcpus :: "nat list"
  pd_count :: int
  pd_ctl :: int
  pd_going :: bool
  pd_down :: bool
  pd_code :: "int option"
  pd_evtchn :: nat

definition pv :: "('v, 'd, 'p, 'g) xen \<Rightarrow> nat \<Rightarrow> vcpu_view" where
  "pv s v =
     \<lparr>pv_domain = v_domain (vcpus s v), pv_count = pause_count (vcpus s v),
      pv_ctl = v_controller_pause_count (vcpus s v), pv_shut = paused_for_shutdown (vcpus s v),
      pv_defer = defer_shutdown (vcpus s v)\<rparr>"

definition pd :: "('v, 'd, 'p, 'g) xen \<Rightarrow> nat \<Rightarrow> dom_view" where
  "pd s d =
     \<lparr>pd_vcpus = dom_vcpus (domains s d), pd_count = d_pause_count (domains s d),
      pd_ctl = d_controller_pause_count (domains s d), pd_going = is_shutting_down (domains s d),
      pd_down = is_shut_down (domains s d), pd_code = shutdown_code (domains s d),
      pd_evtchn = suspend_evtchn (domains s d)\<rparr>"

lemma settings_pv: "settings s' = settings s \<Longrightarrow> pv s' = pv s"
  by (rule ext) (simp only: pv_def settings_reads [of s' s])

lemma settings_pd: "settings s' = settings s \<Longrightarrow> pd s' = pd s"
  by (rule ext) (simp only: pd_def settings_dom_reads [of s' s])

lemma pv_upd_vcpu: "pv (upd_vcpu v f s) = (pv s)(v := pv (upd_vcpu v f s) v)"
  by (rule ext) (simp add: pv_def)

lemma pv_simps [simp]:
  "pv (upd_dom d g s) = pv s" "pv (panic f s) = pv s" "pv (send n s) = pv s"
  by (simp_all add: pv_def fun_eq_iff send_def)

lemma pd_simps [simp]:
  "pd (upd_vcpu v f s) = pd s" "pd (panic e s) = pd s" "pd (send n s) = pd s"
  by (simp_all add: pd_def fun_eq_iff send_def)

lemma pv_add_pause [simp]: "pv (add_pause v n s) = (pv s)(v := (pv s v)\<lparr>pv_count := pv_count (pv s v) + n\<rparr>)"
  by (simp add: add_pause_def pv_def fun_eq_iff)

lemma pv_set_shut:
  "pv (upd_vcpu v (\<lambda>x. x\<lparr>paused_for_shutdown := b\<rparr>) s) = (pv s)(v := (pv s v)\<lparr>pv_shut := b\<rparr>)"
  "pv (upd_vcpu v (\<lambda>x. x\<lparr>defer_shutdown := b\<rparr>) s) = (pv s)(v := (pv s v)\<lparr>pv_defer := b\<rparr>)"
  "pv (upd_vcpu v (\<lambda>x. x\<lparr>paused_for_shutdown := b, defer_shutdown := c\<rparr>) s) = (pv s)(v := (pv s v)\<lparr>pv_shut := b, pv_defer := c\<rparr>)"
  by (simp_all add: pv_def fun_eq_iff)

lemma pd_set_flags:
  "pd (upd_dom d (\<lambda>x. x\<lparr>is_shutting_down := b\<rparr>) s) = (pd s)(d := (pd s d)\<lparr>pd_going := b\<rparr>)"
  "pd (upd_dom d (\<lambda>x. x\<lparr>is_shutting_down := b, is_shut_down := c, shutdown_code := e\<rparr>) s)
     = (pd s)(d := (pd s d)\<lparr>pd_going := b, pd_down := c, pd_code := e\<rparr>)"
  by (simp_all add: pd_def fun_eq_iff)

lemma pd_add_pause [simp]: "pd (add_pause v n s) = pd s"
  by (simp add: add_pause_def)

text \<open>A loop over distinct vcpus that treats each vcpu separately.\<close>

lemma pv_fold:
  assumes "\<And>v s. pv (g v s) = (pv s)(v := h (pv s v))" and "distinct vs"
  shows "pv (fold g vs s) w = (if w \<in> set vs then h (pv s w) else pv s w)"
  using assms(2) by (induction vs arbitrary: s) (auto simp: assms(1))

lemma pd_fold:
  assumes "\<And>v s. pd (g v s) = pd s"
  shows "pd (fold g vs s) = pd s"
  by (induction vs arbitrary: s) (simp_all add: assms)

lemma pv_fold_same:
  assumes "\<And>v s. pv (g v s) = pv s"
  shows "pv (fold g vs s) = pv s"
  by (induction vs arbitrary: s) (simp_all add: assms)

lemma sent_fold:
  assumes "\<And>v s. glob (g v s) = glob s"
  shows "glob (fold g vs s) = glob s"
  by (induction vs arbitrary: s) (simp_all add: assms)

section \<open>The operations\<close>

text \<open>
  While one CPU waits for a vcpu to be descheduled, the others leave the pauses and the
  shutdown state alone.
\<close>

definition relax_ok :: "(nat \<Rightarrow> ('v, 'd, 'p, 'g) xen \<Rightarrow> ('v, 'd, 'p, 'g) xen) \<Rightarrow> bool" where
  "relax_ok relax \<longleftrightarrow> (\<forall>v s. pv (relax v s) = pv s \<and> pd (relax v s) = pd s)"

text \<open>What a shutdown does to a vcpu: a deferring vcpu is left alone unless the domain crashed.\<close>

definition shut_vcpu :: "int \<Rightarrow> vcpu_view \<Rightarrow> vcpu_view" where
  "shut_vcpu reason x =
     (if reason \<noteq> SHUTDOWN_crash \<and> pv_defer x then x
      else x\<lparr>pv_count := pv_count x + 1, pv_shut := True, pv_defer := False\<rparr>)"

text \<open>The code that a shutdown for reason \<open>r\<close> takes: an earlier one wins.\<close>

definition shut_code :: "int \<Rightarrow> dom_view \<Rightarrow> int" where
  "shut_code r x = (case pd_code x of None \<Rightarrow> r | Some c \<Rightarrow> c)"

context sched_contract
begin

lemma pv_sleep_wake [simp]:
  "pv (vcpu_sleep_nosync E v s) = pv s" "pv (vcpu_wake E v s) = pv s"
  "pd (vcpu_sleep_nosync E v s) = pd s" "pd (vcpu_wake E v s) = pd s"
  "glob (vcpu_sleep_nosync E v s) = glob s" "glob (vcpu_wake E v s) = glob s"
  using settings_pv settings_pd settings_global(1) settings_sleep_nosync settings_wake by blast+

lemma pv_sleep_sync:
  "relax_ok relax \<Longrightarrow> pv (vcpu_sleep_sync E relax v s) = pv s"
  "relax_ok relax \<Longrightarrow> pd (vcpu_sleep_sync E relax v s) = pd s"
  by (simp_all add: vcpu_sleep_sync_def Let_def relax_ok_def)

lemma pv_pause_nosync [simp]:
  "pv (vcpu_pause_nosync E v s) = (pv s)(v := (pv s v)\<lparr>pv_count := pv_count (pv s v) + 1\<rparr>)"
  "pd (vcpu_pause_nosync E v s) = pd s" "glob (vcpu_pause_nosync E v s) = glob s"
  by (simp_all add: vcpu_pause_nosync_def) (simp add: add_pause_def)

lemma pv_unpause [simp]:
  "pv (vcpu_unpause E v s) = (pv s)(v := (pv s v)\<lparr>pv_count := pv_count (pv s v) - 1\<rparr>)"
  "pd (vcpu_unpause E v s) = pd s"
  by (simp_all add: vcpu_unpause_def Let_def)

lemma pd_upd_count:
  "pd (upd_dom d (\<lambda>x. x\<lparr>d_pause_count := d_pause_count x + n\<rparr>) s) = (pd s)(d := (pd s d)\<lparr>pd_count := pd_count (pd s d) + n\<rparr>)"
  by (simp add: pd_def fun_eq_iff)

lemma pd_domain_pause:
  "pd (domain_pause_nosync E d s) = (pd s)(d := (pd s d)\<lparr>pd_count := pd_count (pd s d) + 1\<rparr>)"
  "pv (domain_pause_nosync E d s) = pv s"
  "relax_ok relax \<Longrightarrow> pd (domain_pause E relax me d s) = (pd s)(d := (pd s d)\<lparr>pd_count := pd_count (pd s d) + 1\<rparr>)"
  "relax_ok relax \<Longrightarrow> pv (domain_pause E relax me d s) = pv s"
  by (simp_all add: domain_pause_nosync_def domain_pause_def do_domain_pause_def pd_fold pv_fold_same
      pv_sleep_sync pd_upd_count)

lemma pd_domain_unpause:
  "pd (domain_unpause E d s) = (pd s)(d := (pd s d)\<lparr>pd_count := pd_count (pd s d) - 1\<rparr>)"
  "pv (domain_unpause E d s) = pv s"
  using pd_upd_count [of d "- 1" s] by (simp_all add: domain_unpause_def Let_def pd_fold pv_fold_same)

lemma pv_finalise:
  "pv (domain_finalise_shutdown d s) = pv s"
  "pd (domain_finalise_shutdown d s) = (pd s)(d := (pd s d)\<lparr>pd_down :=
     pd_down (pd s d) \<or> (\<forall>v\<in>set (pd_vcpus (pd s d)). pv_shut (pv s v))\<rparr>)"
  by (auto simp: domain_finalise_shutdown_def Let_def pv_def pd_def fun_eq_iff send_def)

lemma pv_check_shutdown:
  "pv (vcpu_check_shutdown E v s) =
     (if pd_going (pd s (pv_domain (pv s v)))
      then (pv s)(v := (pv s v)\<lparr>pv_count := pv_count (pv s v) + (if pv_shut (pv s v) then 0 else 1),
                                 pv_shut := True, pv_defer := False\<rparr>)
      else pv s)"
  "pd (vcpu_check_shutdown E v s) =
     (let d = pv_domain (pv s v) in
      if pd_going (pd s d)
      then (pd s)(d := (pd s d)\<lparr>pd_down := pd_down (pd s d)
             \<or> (\<forall>w\<in>set (pd_vcpus (pd s d)). w \<noteq> v \<longrightarrow> pv_shut (pv s w))\<rparr>)
      else pd s)"
proof -
  let ?d = "pv_domain (pv s v)"
  let ?t = "if \<not> paused_for_shutdown (vcpus s v) then vcpu_pause_nosync E v s else s"
  let ?u = "upd_vcpu v (\<lambda>x. x\<lparr>paused_for_shutdown := True, defer_shutdown := False\<rparr>) ?t"
  have d: "v_domain (vcpus s v) = ?d" "is_shutting_down (domains s e) = pd_going (pd s e)"
    "paused_for_shutdown (vcpus s v) = pv_shut (pv s v)" for e
    by (simp_all add: pv_def pd_def)
  have u: "pv ?u = (pv s)(v := (pv s v)\<lparr>pv_count := pv_count (pv s v) + (if pv_shut (pv s v) then 0 else 1),
      pv_shut := True, pv_defer := False\<rparr>)" "pd ?u = pd s"
    by (auto simp: pv_set_shut d)
  show "pv (vcpu_check_shutdown E v s) =
     (if pd_going (pd s ?d)
      then (pv s)(v := (pv s v)\<lparr>pv_count := pv_count (pv s v) + (if pv_shut (pv s v) then 0 else 1),
                                 pv_shut := True, pv_defer := False\<rparr>)
      else pv s)"
    unfolding vcpu_check_shutdown_def Let_def d(1,2) by (simp only: pv_finalise u split: if_split) simp
  show "pd (vcpu_check_shutdown E v s) =
     (let d = ?d in
      if pd_going (pd s d)
      then (pd s)(d := (pd s d)\<lparr>pd_down := pd_down (pd s d)
             \<or> (\<forall>w\<in>set (pd_vcpus (pd s d)). w \<noteq> v \<longrightarrow> pv_shut (pv s w))\<rparr>)
      else pd s)"
    unfolding vcpu_check_shutdown_def Let_def d(1,2)
    by (simp only: pv_finalise u split: if_split) (simp add: fun_eq_iff)
qed

lemma pv_shutdown_vcpu:
  "pv (shutdown_vcpu E r v s) = (pv s)(v := shut_vcpu r (pv s v))" "pd (shutdown_vcpu E r v s) = pd s"
  "glob (shutdown_vcpu E r v s) = glob s"
proof -
  have d: "defer_shutdown (vcpus s v) = pv_defer (pv s v)" by (simp add: pv_def)
  show "pv (shutdown_vcpu E r v s) = (pv s)(v := shut_vcpu r (pv s v))"
    unfolding shutdown_vcpu_def Let_def shut_vcpu_def d by (auto simp: pv_set_shut)
  show "pd (shutdown_vcpu E r v s) = pd s" "glob (shutdown_vcpu E r v s) = glob s"
    by (simp_all add: shutdown_vcpu_def Let_def)
qed

lemma domain_shutdown_parts:
  fixes r :: int
  assumes "distinct (pd_vcpus (pd s d))"
  defines "code \<equiv> shut_code r (pd s d)"
  obtains t u where "domain_shutdown E d r s = (if pd_going (pd s d) then t else domain_finalise_shutdown d u)"
    and "pv t = pv s" "pd t = (pd s)(d := (pd s d)\<lparr>pd_code := Some code\<rparr>)"
    and "pv u = (\<lambda>w. if w \<in> set (pd_vcpus (pd s d)) then shut_vcpu code (pv s w) else pv s w)"
    and "pd u = (pd s)(d := (pd s d)\<lparr>pd_code := Some code, pd_going := True\<rparr>)" "glob u = glob s"
proof -
  define s1 where "s1 = (if shutdown_code (domains s d) = None
    then upd_dom d (\<lambda>x. x\<lparr>shutdown_code := Some r\<rparr>) s else s)"
  define s2 where "s2 = (if d = hardware_domain (glob s1) then panic Host_shutdown s1 else s1)"
  define s3 where "s3 = upd_dom d (\<lambda>x. x\<lparr>is_shutting_down := True\<rparr>) s2"
  have code: "the (shutdown_code (domains s1 d)) = code"
    by (auto simp: s1_def code_def shut_code_def pd_def split: option.splits)
  have s2: "pv s2 = pv s" "pd s2 = (pd s)(d := (pd s d)\<lparr>pd_code := Some code\<rparr>)" "glob s2 = glob s"
    by (auto simp: s2_def s1_def code_def shut_code_def pd_def fun_eq_iff split: option.splits)
  have s3: "pv s3 = pv s" "pd s3 = (pd s2)(d := (pd s2 d)\<lparr>pd_going := True\<rparr>)" "glob s3 = glob s"
    using s2(1,3) unfolding s3_def by (simp_all add: pd_set_flags)
  have going: "is_shutting_down (domains s2 d) = pd_going (pd s d)"
    using arg_cong [OF s2(2), where f = "\<lambda>P. pd_going (P d)"] by (simp add: pd_def)
  have vs: "dom_vcpus (domains s3 d) = pd_vcpus (pd s d)"
    using arg_cong [OF s3(2), where f = "\<lambda>P. pd_vcpus (P d)"] s2(2) by (simp add: pd_def)
  show thesis
  proof (rule that)
    let ?u = "fold (shutdown_vcpu E code) (pd_vcpus (pd s d)) s3"
    show "domain_shutdown E d r s = (if pd_going (pd s d) then s2 else domain_finalise_shutdown d ?u)"
      unfolding domain_shutdown_def Let_def s1_def [symmetric] s2_def [symmetric] s3_def [symmetric] code going vs ..
    show "pv ?u = (\<lambda>w. if w \<in> set (pd_vcpus (pd s d)) then shut_vcpu code (pv s w) else pv s w)"
      using pv_fold [where g = "shutdown_vcpu E code" and h = "shut_vcpu code" and s = s3, OF pv_shutdown_vcpu(1) assms(1)]
      by (simp add: fun_eq_iff s3)
    show "pd ?u = (pd s)(d := (pd s d)\<lparr>pd_code := Some code, pd_going := True\<rparr>)" "glob ?u = glob s"
      by (simp_all add: s3 s2 pd_fold sent_fold pv_shutdown_vcpu)
  qed (simp_all add: s2)
qed

lemma pv_domain_shutdown:
  fixes r :: int
  assumes "distinct (pd_vcpus (pd s d))"
  defines "code \<equiv> shut_code r (pd s d)"
  shows "pv (domain_shutdown E d r s) =
      (if pd_going (pd s d) then pv s
       else (\<lambda>w. if w \<in> set (pd_vcpus (pd s d)) then shut_vcpu code (pv s w) else pv s w))"
    and "pd (domain_shutdown E d r s) = (pd s)(d := (pd s d)\<lparr>pd_code := Some code, pd_going := True,
      pd_down := pd_down (pd s d) \<or> \<not> pd_going (pd s d)
        \<and> (\<forall>v\<in>set (pd_vcpus (pd s d)). pv_shut (shut_vcpu code (pv s v)))\<rparr>)"
proof -
  obtain t u where eq: "domain_shutdown E d r s = (if pd_going (pd s d) then t else domain_finalise_shutdown d u)"
    and t: "pv t = pv s" "pd t = (pd s)(d := (pd s d)\<lparr>pd_code := Some code\<rparr>)"
    and u: "pv u = (\<lambda>w. if w \<in> set (pd_vcpus (pd s d)) then shut_vcpu code (pv s w) else pv s w)"
      "pd u = (pd s)(d := (pd s d)\<lparr>pd_code := Some code, pd_going := True\<rparr>)"
    by (rule domain_shutdown_parts [OF assms(1), of r, folded code_def]) (rule that)
  show "pv (domain_shutdown E d r s) = (if pd_going (pd s d) then pv s
       else (\<lambda>w. if w \<in> set (pd_vcpus (pd s d)) then shut_vcpu code (pv s w) else pv s w))"
    by (simp add: eq t pv_finalise u)
  show "pd (domain_shutdown E d r s) = (pd s)(d := (pd s d)\<lparr>pd_code := Some code, pd_going := True,
      pd_down := pd_down (pd s d) \<or> \<not> pd_going (pd s d)
        \<and> (\<forall>v\<in>set (pd_vcpus (pd s d)). pv_shut (shut_vcpu code (pv s v)))\<rparr>)"
    by (auto simp: eq t pv_finalise u fun_eq_iff)
qed

text \<open>A shutdown that completes at once sends one notification.\<close>

lemma sent_domain_shutdown:
  fixes r :: int
  assumes "distinct (pd_vcpus (pd s d))" and "\<not> pd_going (pd s d)" and "\<not> pd_down (pd s d)"
  defines "code \<equiv> shut_code r (pd s d)"
  assumes all: "\<forall>v\<in>set (pd_vcpus (pd s d)). pv_shut (shut_vcpu code (pv s v))"
  shows "sent (glob (domain_shutdown E d r s)) =
    (if code = SHUTDOWN_suspend \<and> pd_evtchn (pd s d) \<noteq> 0 then Suspend_event d else Dom_exc) # sent (glob s)"
proof -
  obtain t u where eq: "domain_shutdown E d r s = (if pd_going (pd s d) then t else domain_finalise_shutdown d u)"
    and u: "pv u = (\<lambda>w. if w \<in> set (pd_vcpus (pd s d)) then shut_vcpu code (pv s w) else pv s w)"
      "pd u = (pd s)(d := (pd s d)\<lparr>pd_code := Some code, pd_going := True\<rparr>)" "glob u = glob s"
    by (rule domain_shutdown_parts [OF assms(1), of r, folded code_def]) (rule that)
  have p: "pd u d = (pd s d)\<lparr>pd_code := Some code, pd_going := True\<rparr>" by (simp add: u)
  have "\<not> is_shut_down (domains u d)" "dom_vcpus (domains u d) = pd_vcpus (pd s d)"
    "shutdown_code (domains u d) = Some code" "suspend_evtchn (domains u d) = pd_evtchn (pd s d)"
    using arg_cong [OF p, where f = pd_down] arg_cong [OF p, where f = pd_vcpus] arg_cong [OF p, where f = pd_code]
      arg_cong [OF p, where f = pd_evtchn] assms(3) by (simp_all add: pd_def)
  moreover have "paused_for_shutdown (vcpus u v)" if "v \<in> set (pd_vcpus (pd s d))" for v
    using all that arg_cong [OF fun_cong [OF u(1), of v], where f = pv_shut] by (simp add: pv_def)
  ultimately show ?thesis
    using assms(2) u(3) by (auto simp: eq domain_finalise_shutdown_def Let_def send_def)
qed

lemma pv_resume_vcpu:
  "pv (resume_vcpu E v s) =
     (pv s)(v := (pv s v)\<lparr>pv_count := pv_count (pv s v) - (if pv_shut (pv s v) then 1 else 0), pv_shut := False\<rparr>)"
  "pd (resume_vcpu E v s) = pd s"
proof -
  have d: "paused_for_shutdown (vcpus s v) = pv_shut (pv s v)" by (simp add: pv_def)
  show "pv (resume_vcpu E v s) =
     (pv s)(v := (pv s v)\<lparr>pv_count := pv_count (pv s v) - (if pv_shut (pv s v) then 1 else 0), pv_shut := False\<rparr>)"
    "pd (resume_vcpu E v s) = pd s"
    unfolding resume_vcpu_def d by (auto simp: pv_set_shut)
qed

lemma pv_domain_resume:
  assumes "relax_ok relax" and "distinct (pd_vcpus (pd s d))"
  shows "pv (domain_resume E relax me d s) = (\<lambda>w. if w \<in> set (pd_vcpus (pd s d))
      then (pv s w)\<lparr>pv_count := pv_count (pv s w) - (if pv_shut (pv s w) then 1 else 0), pv_shut := False\<rparr>
      else pv s w)"
    and "pd (domain_resume E relax me d s) = (pd s)(d := (pd s d)\<lparr>pd_going := False, pd_down := False, pd_code := None\<rparr>)"
proof -
  define s1 where "s1 = domain_pause E relax me d s"
  define s2 where "s2 = upd_dom d (\<lambda>x. x\<lparr>is_shutting_down := False, is_shut_down := False, shutdown_code := None\<rparr>) s1"
  have s1: "pv s1 = pv s" "pd s1 = (pd s)(d := (pd s d)\<lparr>pd_count := pd_count (pd s d) + 1\<rparr>)"
    using pd_domain_pause(3,4) [OF assms(1)] by (simp_all add: s1_def)
  have s2: "pv s2 = pv s" "pd s2 = (pd s)(d := (pd s d)\<lparr>pd_count := pd_count (pd s d) + 1, pd_going := False,
      pd_down := False, pd_code := None\<rparr>)"
    using s1 by (simp_all add: s2_def pd_set_flags)
  have vs: "dom_vcpus (domains s2 d) = pd_vcpus (pd s d)"
    using arg_cong [OF s2(2), where f = "\<lambda>P. pd_vcpus (P d)"] by (simp add: pd_def)
  have eq: "domain_resume E relax me d s = domain_unpause E d (fold (resume_vcpu E) (pd_vcpus (pd s d)) s2)"
    unfolding domain_resume_def Let_def s1_def [symmetric] s2_def [symmetric] vs ..
  show "pv (domain_resume E relax me d s) = (\<lambda>w. if w \<in> set (pd_vcpus (pd s d))
      then (pv s w)\<lparr>pv_count := pv_count (pv s w) - (if pv_shut (pv s w) then 1 else 0), pv_shut := False\<rparr>
      else pv s w)"
    using pv_fold [where g = "resume_vcpu E" and s = s2 and h = "\<lambda>x. x\<lparr>pv_count := pv_count x -
        (if pv_shut x then 1 else 0), pv_shut := False\<rparr>", OF pv_resume_vcpu(1) assms(2)]
    by (simp add: fun_eq_iff eq pd_domain_unpause s2)
  show "pd (domain_resume E relax me d s) = (pd s)(d := (pd s d)\<lparr>pd_going := False, pd_down := False, pd_code := None\<rparr>)"
    by (simp add: eq pd_domain_unpause pd_fold pv_resume_vcpu s2 fun_eq_iff)
qed

lemma pv_start_deferral:
  "pv (snd (vcpu_start_shutdown_deferral E v s)) =
     (if pv_defer (pv s v) then pv s
      else if pd_going (pd s (pv_domain (pv s v)))
      then (pv s)(v := (pv s v)\<lparr>pv_count := pv_count (pv s v) + (if pv_shut (pv s v) then 0 else 1),
                                 pv_shut := True, pv_defer := False\<rparr>)
      else (pv s)(v := (pv s v)\<lparr>pv_defer := True\<rparr>))"
  "pd (snd (vcpu_start_shutdown_deferral E v s)) =
     (if pv_defer (pv s v) then pd s else pd (vcpu_check_shutdown E v s))"
proof -
  have d: "defer_shutdown (vcpus s v) = pv_defer (pv s v)" "v_domain (vcpus s v) = pv_domain (pv s v)"
    "is_shutting_down (domains s e) = pd_going (pd s e)" for e
    by (simp_all add: pv_def pd_def)
  show "pv (snd (vcpu_start_shutdown_deferral E v s)) =
     (if pv_defer (pv s v) then pv s
      else if pd_going (pd s (pv_domain (pv s v)))
      then (pv s)(v := (pv s v)\<lparr>pv_count := pv_count (pv s v) + (if pv_shut (pv s v) then 0 else 1),
                                 pv_shut := True, pv_defer := False\<rparr>)
      else (pv s)(v := (pv s v)\<lparr>pv_defer := True\<rparr>))"
    by (simp add: vcpu_start_shutdown_deferral_def Let_def d pv_check_shutdown pv_set_shut)
  show "pd (snd (vcpu_start_shutdown_deferral E v s)) =
     (if pv_defer (pv s v) then pd s else pd (vcpu_check_shutdown E v s))"
    by (simp add: vcpu_start_shutdown_deferral_def Let_def d pv_check_shutdown pv_set_shut)
qed

lemma pv_end_deferral:
  "pv (vcpu_end_shutdown_deferral E v s) =
     (if pd_going (pd s (pv_domain (pv s v)))
      then (pv s)(v := (pv s v)\<lparr>pv_count := pv_count (pv s v) + (if pv_shut (pv s v) then 0 else 1),
                                 pv_shut := True, pv_defer := False\<rparr>)
      else (pv s)(v := (pv s v)\<lparr>pv_defer := False\<rparr>))"
  "pd (vcpu_end_shutdown_deferral E v s) = pd (vcpu_check_shutdown E v s)"
proof -
  have d: "v_domain (vcpus s v) = pv_domain (pv s v)" "is_shutting_down (domains s e) = pd_going (pd s e)" for e
    by (simp_all add: pv_def pd_def)
  show "pv (vcpu_end_shutdown_deferral E v s) =
     (if pd_going (pd s (pv_domain (pv s v)))
      then (pv s)(v := (pv s v)\<lparr>pv_count := pv_count (pv s v) + (if pv_shut (pv s v) then 0 else 1),
                                 pv_shut := True, pv_defer := False\<rparr>)
      else (pv s)(v := (pv s v)\<lparr>pv_defer := False\<rparr>))"
    "pd (vcpu_end_shutdown_deferral E v s) = pd (vcpu_check_shutdown E v s)"
    by (simp_all add: vcpu_end_shutdown_deferral_def Let_def d pv_check_shutdown pv_set_shut)
qed

end

section \<open>The shutdown invariant\<close>

text \<open>
  A domain that is not shutting down has no vcpu paused for shutdown. In one that is, every
  vcpu is paused or defers, and the domain is shut down exactly when all are paused.
\<close>

definition dom_shut_ok :: "(nat \<Rightarrow> vcpu_view) \<Rightarrow> dom_view \<Rightarrow> bool" where
  "dom_shut_ok V x \<longleftrightarrow>
     (if pd_going x then (\<forall>v\<in>set (pd_vcpus x). pv_shut (V v) \<or> pv_defer (V v))
        \<and> (pd_down x \<longleftrightarrow> (\<forall>v\<in>set (pd_vcpus x). pv_shut (V v)))
      else \<not> pd_down x \<and> (\<forall>v\<in>set (pd_vcpus x). \<not> pv_shut (V v)))"

definition shutdown_ok :: "('v, 'd, 'p, 'g) xen \<Rightarrow> bool" where
  "shutdown_ok s \<longleftrightarrow> (\<forall>d. distinct (pd_vcpus (pd s d)) \<and> (\<forall>v\<in>set (pd_vcpus (pd s d)). pv_domain (pv s v) = d)
     \<and> dom_shut_ok (pv s) (pd s d))"

inductive shutdown_step ::
  "('v, 'd, 'p, 'g) sched_env \<Rightarrow> ('v, 'd, 'p, 'g) xen \<Rightarrow> ('v, 'd, 'p, 'g) xen \<Rightarrow> bool" for E where
  shutdown: "shutdown_step E s (domain_shutdown E d r s)"
| resume: "relax_ok relax \<Longrightarrow> shutdown_step E s (domain_resume E relax me d s)"
| start_deferral: "v \<in> set (pd_vcpus (pd s (pv_domain (pv s v)))) \<Longrightarrow>
    shutdown_step E s (snd (vcpu_start_shutdown_deferral E v s))"
| end_deferral: "v \<in> set (pd_vcpus (pd s (pv_domain (pv s v)))) \<Longrightarrow>
    shutdown_step E s (vcpu_end_shutdown_deferral E v s)"
| pause: "shutdown_step E s (vcpu_pause_nosync E v s)"
| unpause: "shutdown_step E s (vcpu_unpause E v s)"
| dom_pause: "shutdown_step E s (domain_pause_nosync E d s)"
| dom_unpause: "shutdown_step E s (domain_unpause E d s)"
| other: "pv s' = pv s \<Longrightarrow> pd s' = pd s \<Longrightarrow> shutdown_step E s s'"

inductive shutdown_steps ::
  "('v, 'd, 'p, 'g) sched_env \<Rightarrow> ('v, 'd, 'p, 'g) xen \<Rightarrow> ('v, 'd, 'p, 'g) xen \<Rightarrow> bool" for E where
  none: "shutdown_steps E s s"
| more: "shutdown_steps E s t \<Longrightarrow> shutdown_step E t u \<Longrightarrow> shutdown_steps E s u"

text \<open>A step that changes one domain and only its vcpus keeps the invariant if it does so for that domain.\<close>

lemma shutdown_ok_step:
  assumes "shutdown_ok s" and "pd s' = (pd s)(d := x)" and "pd_vcpus x = pd_vcpus (pd s d)"
    and "\<And>v. pv_domain (pv s' v) = pv_domain (pv s v)"
    and "\<And>v. v \<notin> set (pd_vcpus (pd s d)) \<Longrightarrow> pv_shut (pv s' v) = pv_shut (pv s v) \<and> pv_defer (pv s' v) = pv_defer (pv s v)"
    and "dom_shut_ok (pv s') x"
  shows "shutdown_ok s'"
proof -
  have "dom_shut_ok (pv s') (pd s e)" if "e \<noteq> d" for e
  proof -
    have "v \<notin> set (pd_vcpus (pd s d))" if "v \<in> set (pd_vcpus (pd s e))" for v
      using assms(1) that \<open>e \<noteq> d\<close> unfolding shutdown_ok_def by metis
    with assms(1,5) show ?thesis
      unfolding shutdown_ok_def dom_shut_ok_def by auto
  qed
  with assms show ?thesis
    unfolding shutdown_ok_def by auto
qed

lemma shutdown_ok_cong:
  assumes "shutdown_ok s"
    and "\<And>v. pv_domain (pv s' v) = pv_domain (pv s v) \<and> pv_shut (pv s' v) = pv_shut (pv s v) \<and> pv_defer (pv s' v) = pv_defer (pv s v)"
    and "\<And>d. pd_vcpus (pd s' d) = pd_vcpus (pd s d) \<and> pd_going (pd s' d) = pd_going (pd s d) \<and> pd_down (pd s' d) = pd_down (pd s d)"
  shows "shutdown_ok s'"
  using assms by (simp add: shutdown_ok_def dom_shut_ok_def)

context sched_contract
begin

lemma shutdown_ok_shutdown:
  assumes "shutdown_ok s"
  shows "shutdown_ok (domain_shutdown E d r s)"
proof -
  have di: "distinct (pd_vcpus (pd s d))" and ok: "dom_shut_ok (pv s) (pd s d)"
    using assms by (simp_all add: shutdown_ok_def)
  note eqs = pv_domain_shutdown [OF di, of r]
  show ?thesis
  proof (rule shutdown_ok_step [OF assms eqs(2)])
    show "dom_shut_ok (pv (domain_shutdown E d r s)) ((pd s d)\<lparr>pd_code := Some (shut_code r (pd s d)), pd_going := True,
      pd_down := pd_down (pd s d) \<or> \<not> pd_going (pd s d)
        \<and> (\<forall>v\<in>set (pd_vcpus (pd s d)). pv_shut (shut_vcpu (shut_code r (pd s d)) (pv s v)))\<rparr>)"
      using ok unfolding eqs(1) by (auto simp: dom_shut_ok_def shut_vcpu_def)
  qed (auto simp: eqs(1) shut_vcpu_def)
qed

lemma shutdown_ok_resume:
  assumes "shutdown_ok s" and "relax_ok relax"
  shows "shutdown_ok (domain_resume E relax me d s)"
proof -
  have di: "distinct (pd_vcpus (pd s d))" using assms by (simp add: shutdown_ok_def)
  note eqs = pv_domain_resume [OF assms(2) di, of me]
  show ?thesis
  proof (rule shutdown_ok_step [OF assms(1) eqs(2)])
    show "dom_shut_ok (pv (domain_resume E relax me d s)) ((pd s d)\<lparr>pd_going := False, pd_down := False, pd_code := None\<rparr>)"
      unfolding eqs(1) by (simp add: dom_shut_ok_def)
  qed (simp_all add: eqs(1))
qed

text \<open>Both ends of a deferral come down to this: the vcpu stops deferring in a domain that is shutting down.\<close>

lemma shutdown_ok_check:
  assumes "shutdown_ok s" and v: "v \<in> set (pd_vcpus (pd s (pv_domain (pv s v))))"
    and pvt: "pv t = (if pd_going (pd s (pv_domain (pv s v)))
      then (pv s)(v := (pv s v)\<lparr>pv_count := n, pv_shut := True, pv_defer := False\<rparr>)
      else (pv s)(v := (pv s v)\<lparr>pv_defer := b\<rparr>))"
    and pdt: "pd t = pd (vcpu_check_shutdown E v s)"
  shows "shutdown_ok t"
proof (cases "pd_going (pd s (pv_domain (pv s v)))")
  case True
  let ?d = "pv_domain (pv s v)"
  have ok: "dom_shut_ok (pv s) (pd s ?d)" using assms(1) by (simp add: shutdown_ok_def)
  let ?x = "(pd s ?d)\<lparr>pd_down := pd_down (pd s ?d) \<or> (\<forall>w\<in>set (pd_vcpus (pd s ?d)). w \<noteq> v \<longrightarrow> pv_shut (pv s w))\<rparr>"
  have pdt': "pd t = (pd s)(?d := ?x)"
    using True by (simp add: pdt pv_check_shutdown Let_def)
  show ?thesis
  proof (rule shutdown_ok_step [OF assms(1) pdt'])
    show "dom_shut_ok (pv t) ?x"
      using ok True by (auto simp: dom_shut_ok_def pvt)
  qed (use v True in \<open>auto simp: pvt\<close>)
next
  case False
  then have ok: "dom_shut_ok (pv s) (pd s (pv_domain (pv s v)))" and pvt': "pv t = (pv s)(v := (pv s v)\<lparr>pv_defer := b\<rparr>)"
    using assms(1) pvt by (simp_all add: shutdown_ok_def)
  show ?thesis
  proof (rule shutdown_ok_step [OF assms(1)])
    show "pd t = (pd s)(pv_domain (pv s v) := pd s (pv_domain (pv s v)))"
      using False by (simp add: pdt pv_check_shutdown Let_def)
    show "dom_shut_ok (pv t) (pd s (pv_domain (pv s v)))"
      using ok False by (simp add: dom_shut_ok_def pvt')
  qed (use v in \<open>auto simp: pvt'\<close>)
qed

lemma shutdown_ok_single:
  assumes "shutdown_ok s" and "shutdown_step E s s'"
  shows "shutdown_ok s'"
  using assms(2)
proof cases
  case (start_deferral v)
  show ?thesis
  proof (cases "pv_defer (pv s v)")
    case True
    then show ?thesis
      using assms(1) start_deferral(1) pv_start_deferral [of v s] by (auto intro: shutdown_ok_cong)
  next
    case False
    show ?thesis
      using pv_start_deferral [of v s] False unfolding start_deferral(1)
      by (intro shutdown_ok_check [OF assms(1) start_deferral(2)]) auto
  qed
next
  case (end_deferral v)
  show ?thesis
    using pv_end_deferral [of v s] unfolding end_deferral(1)
    by (intro shutdown_ok_check [OF assms(1) end_deferral(2)]) auto
qed (auto intro!: shutdown_ok_cong [OF assms(1)] shutdown_ok_shutdown [OF assms(1)] shutdown_ok_resume [OF assms(1)]
    simp: pd_domain_pause pd_domain_unpause split: if_splits)

lemma shutdown_ok_run: "shutdown_steps E s s' \<Longrightarrow> shutdown_ok s \<Longrightarrow> shutdown_ok s'"
  by (induction rule: shutdown_steps.induct) (auto intro: shutdown_ok_single)

end

end
