(* ===== verification/Domain_Props.thy ===== *)
theory Domain_Props
  imports Domain_Inv Schedule_Fp
begin

text \<open>
  What pausing, shutting down and resuming domains guarantee for every scheduler that meets the
  contract; the examples run the fixed-priority scheduler.
\<close>

section \<open>Pauses by the system controller\<close>

text \<open>
  The controller pauses and unpauses a domain by hypercall. The specification is a counter
  from 0 to 255 that refuses to leave this range.
\<close>

datatype ctl_call = Ctl_pause | Ctl_unpause

fun ctl_spec :: "ctl_call list \<Rightarrow> int \<Rightarrow> rc list \<times> int" where
  "ctl_spec [] n = ([], n)"
| "ctl_spec (Ctl_pause # cs) n =
     (if n = 255 then (Inl EOVERFLOW # fst (ctl_spec cs n), snd (ctl_spec cs n))
      else (OK # fst (ctl_spec cs (n + 1)), snd (ctl_spec cs (n + 1))))"
| "ctl_spec (Ctl_unpause # cs) n =
     (if n = 0 then (Inl EINVAL # fst (ctl_spec cs n), snd (ctl_spec cs n))
      else (OK # fst (ctl_spec cs (n - 1)), snd (ctl_spec cs (n - 1))))"

definition ctl_call ::
  "('v, 'd, 'p, 'g) sched_env \<Rightarrow> (nat \<Rightarrow> ('v, 'd, 'p, 'g) xen \<Rightarrow> ('v, 'd, 'p, 'g) xen) \<Rightarrow> nat \<Rightarrow> nat \<Rightarrow> ctl_call
    \<Rightarrow> ('v, 'd, 'p, 'g) xen \<Rightarrow> rc \<times> ('v, 'd, 'p, 'g) xen" where
  "ctl_call E relax me d c s =
     (case c of
        Ctl_pause \<Rightarrow> domain_pause_by_systemcontroller (domain_pause E relax me) d s
      | Ctl_unpause \<Rightarrow> domain_unpause_by_systemcontroller E d s)"

fun ctl_run ::
  "('v, 'd, 'p, 'g) sched_env \<Rightarrow> (nat \<Rightarrow> ('v, 'd, 'p, 'g) xen \<Rightarrow> ('v, 'd, 'p, 'g) xen) \<Rightarrow> nat \<Rightarrow> nat \<Rightarrow> ctl_call list
    \<Rightarrow> ('v, 'd, 'p, 'g) xen \<Rightarrow> rc list \<times> ('v, 'd, 'p, 'g) xen" where
  "ctl_run E relax me d [] s = ([], s)"
| "ctl_run E relax me d (c # cs) s =
     (let (r, s1) = ctl_call E relax me d c s; (rs, s2) = ctl_run E relax me d cs s1 in (r # rs, s2))"

lemma pd_set_ctl:
  "pd (upd_dom d (\<lambda>x. x\<lparr>d_controller_pause_count := n\<rparr>) s) = (pd s)(d := (pd s d)\<lparr>pd_ctl := n\<rparr>)"
  "pd (upd_dom d (\<lambda>x. x\<lparr>d_controller_pause_count := n, creation_finished := f x\<rparr>) s) = (pd s)(d := (pd s d)\<lparr>pd_ctl := n\<rparr>)"
  by (simp_all add: pd_def fun_eq_iff)

lemma ctl_call_effect:
  fixes c :: ctl_call and me :: nat
  assumes "sched_contract E" and "relax_ok relax" and "0 \<le> pd_ctl (pd s d)" and "pd_ctl (pd s d) \<le> 255"
  defines "m \<equiv> snd (ctl_spec [c] (pd_ctl (pd s d)))" and "s1 \<equiv> snd (ctl_call E relax me d c s)"
  shows "ctl_spec [c] (pd_ctl (pd s d)) = ([fst (ctl_call E relax me d c s)], m)"
    and "pd s1 = (pd s)(d := (pd s d)\<lparr>pd_ctl := m, pd_count := pd_count (pd s d) + (m - pd_ctl (pd s d))\<rparr>)"
    and "pv s1 = pv s" and "0 \<le> m" and "m \<le> 255"
proof -
  have n: "d_controller_pause_count (domains s d) = pd_ctl (pd s d)" by (simp add: pd_def)
  note defs = m_def s1_def ctl_call_def domain_pause_by_systemcontroller_def domain_unpause_by_systemcontroller_def Let_def n
  note parts = sched_contract.pd_domain_pause(3,4) [OF assms(1,2)] sched_contract.pd_domain_unpause [OF assms(1)] pd_set_ctl
  show "ctl_spec [c] (pd_ctl (pd s d)) = ([fst (ctl_call E relax me d c s)], m)"
    "pv s1 = pv s" "0 \<le> m" "m \<le> 255"
    using assms(3,4) by (cases c; simp add: defs parts)+
  show "pd s1 = (pd s)(d := (pd s d)\<lparr>pd_ctl := m, pd_count := pd_count (pd s d) + (m - pd_ctl (pd s d))\<rparr>)"
    using assms(3,4) by (cases c; simp add: defs parts fun_eq_iff)
qed

lemma ctl_spec_Cons:
  "ctl_spec [c] n = ([r], m) \<Longrightarrow> ctl_spec (c # cs) n = (r # fst (ctl_spec cs m), snd (ctl_spec cs m))"
  by (cases c) (auto split: if_splits)

text \<open>
  C16. Any sequence of controller pauses and unpauses of a domain returns what a counter from 0
  to 255 returns: -EOVERFLOW exactly at 255, -EINVAL exactly at 0. The domain's count of
  controller pauses is that counter, never leaves its range, and each unit of it is one unit
  of the domain's pause count; nothing else about pauses changes, in this or another domain.
\<close>

theorem controller_pause_refines:
  assumes "sched_contract E" and "relax_ok relax" and "0 \<le> pd_ctl (pd s d)" and "pd_ctl (pd s d) \<le> 255"
  shows "\<exists>s' n. ctl_run E relax me d cs s = (fst (ctl_spec cs (pd_ctl (pd s d))), s')
    \<and> n = snd (ctl_spec cs (pd_ctl (pd s d))) \<and> 0 \<le> n \<and> n \<le> 255
    \<and> pd s' = (pd s)(d := (pd s d)\<lparr>pd_ctl := n, pd_count := pd_count (pd s d) + (n - pd_ctl (pd s d))\<rparr>)
    \<and> pv s' = pv s"
  using assms(3,4)
proof (induction cs arbitrary: s)
  case Nil
  then show ?case by (simp add: fun_eq_iff)
next
  case (Cons c cs)
  define s1 where "s1 = snd (ctl_call E relax me d c s)"
  define m where "m = snd (ctl_spec [c] (pd_ctl (pd s d)))"
  note c = ctl_call_effect(1-3) [OF assms(1,2) Cons.prems, where c = c and me = me, folded s1_def m_def]
  note bounds = ctl_call_effect(4,5) [OF assms(1,2) Cons.prems, where c = c, folded m_def]
  have "pd_ctl (pd s1 d) = m" by (simp add: c)
  moreover have "ctl_call E relax me d c s = (fst (ctl_call E relax me d c s), s1)" by (simp add: s1_def)
  ultimately show ?case
    using Cons.IH [of s1] bounds by (auto simp: ctl_spec_Cons [OF c(1)] c(2,3) Let_def split: prod.splits)
qed

theorem controller_pause_refines_witness:
  "fst (ctl_run fp_env (\<lambda>_ s. s) 0 2 [Ctl_unpause, Ctl_pause, Ctl_pause, Ctl_unpause] demo_two)
    = [Inl EINVAL, OK, OK, OK]"
proof -
  have "pd_ctl (pd demo_two 2) = 0"
    by (simp add: pd_def demo_two_def fp_demo_def demo_domain_def)
  then show ?thesis
    using controller_pause_refines [OF fps.sched_contract_axioms, of "\<lambda>_ s. s" demo_two 2 0
        "[Ctl_unpause, Ctl_pause, Ctl_pause, Ctl_unpause]"]
    by (auto simp: relax_ok_def)
qed

section \<open>Shutdown and resume\<close>

text \<open>
  C8. Over any sequence of shutdowns, crashes, resumes, starts and ends of shutdown deferral, and
  pauses: a domain is shut down exactly when it is shutting down and every vcpu of it is paused
  for shutdown; while it is shutting down each vcpu is paused or defers; otherwise none is
  paused for shutdown.
\<close>

theorem shutdown_state_consistent:
  assumes "sched_contract E" and "shutdown_steps E s s'" and "shutdown_ok s"
  shows "shutdown_ok s'"
  using assms(2,3) by (rule sched_contract.shutdown_ok_run [OF assms(1)])

lemmas fp_shutdown_views =
  sched_contract.pv_start_deferral [OF fps.sched_contract_axioms]
  sched_contract.pv_check_shutdown [OF fps.sched_contract_axioms]
  sched_contract.pv_domain_shutdown [OF fps.sched_contract_axioms]

lemma demo_two_shutdown_ok: "shutdown_ok demo_two"
  by (auto simp: shutdown_ok_def dom_shut_ok_def pd_def pv_def demo_two_def fp_demo_def demo_domain_def demo_vcpu_def)

theorem shutdown_state_consistent_witness:
  "shutdown_ok (vcpu_end_shutdown_deferral fp_env 2
     (domain_shutdown fp_env 2 SHUTDOWN_suspend (snd (vcpu_start_shutdown_deferral fp_env 2 demo_two))))"
proof -
  let ?t = "snd (vcpu_start_shutdown_deferral fp_env 2 demo_two)"
  let ?u = "domain_shutdown fp_env 2 SHUTDOWN_suspend ?t"
  have v: "v_domain (vcpus demo_two 2) = 2" "dom_vcpus (domains demo_two 2) = [2]"
    by (simp_all add: demo_two_def fp_demo_def demo_domain_def demo_vcpu_def)
  then have s: "pv_domain (pv demo_two 2) = 2" "pd_vcpus (pd demo_two 2) = [2]"
    by (simp_all add: pv_def pd_def)
  have t: "pv_domain (pv ?t 2) = 2" "pd_vcpus (pd ?t 2) = [2]"
    using s by (auto simp: fp_shutdown_views Let_def)
  then have u: "pv_domain (pv ?u 2) = 2" "pd_vcpus (pd ?u 2) = [2]"
    by (simp_all add: fp_shutdown_views shut_vcpu_def)
  have "shutdown_step fp_env demo_two ?t" "shutdown_step fp_env ?t ?u"
    "shutdown_step fp_env ?u (vcpu_end_shutdown_deferral fp_env 2 ?u)"
    using s u by (auto intro!: shutdown_step.start_deferral shutdown_step.shutdown shutdown_step.end_deferral)
  then have "shutdown_steps fp_env demo_two (vcpu_end_shutdown_deferral fp_env 2 ?u)"
    by (blast intro: shutdown_steps.intros)
  then show ?thesis
    by (rule shutdown_state_consistent [OF fps.sched_contract_axioms _ demo_two_shutdown_ok])
qed



end
