(* ===== verification/Cpupool.thy ===== *)
theory Cpupool
  imports Domain
begin

text \<open>
  Cpupools (common/cpupool.c) and the part of common/schedule.c that attaches vcpus, domains
  and CPUs to a scheduler. A pool or a scheduler instance is named by its address; a fresh
  address is a result of the allocator.
\<close>

section \<open>Allocation results and updates\<close>

text \<open>What the allocations of a call return: \<open>None\<close> or \<open>False\<close> when one fails.\<close>

record alloc =
  al_pool :: "nat option"
  al_sched :: "nat option"
  al_init :: bool
  al_domdata :: "nat \<Rightarrow> bool"
  al_array :: "nat \<Rightarrow> bool"
  al_vdata :: "nat \<Rightarrow> bool"
  al_pdata :: bool
  al_info :: bool

definition upd_pool :: "nat \<Rightarrow> (cpupool \<Rightarrow> cpupool) \<Rightarrow> ('v, 'd, 'p, 'g) xen \<Rightarrow> ('v, 'd, 'p, 'g) xen" where
  "upd_pool c f s = s\<lparr>pools := (pools s)(c := f (pools s c))\<rparr>"

definition upd_glob :: "(globals \<Rightarrow> globals) \<Rightarrow> ('v, 'd, 'p, 'g) xen \<Rightarrow> ('v, 'd, 'p, 'g) xen" where
  "upd_glob f s = s\<lparr>glob := f (glob s)\<rparr>"

definition assert :: "bool \<Rightarrow> ('v, 'd, 'p, 'g) xen \<Rightarrow> ('v, 'd, 'p, 'g) xen" where
  "assert b s = (if b then s else panic Assert_failed s)"

section \<open>Scheduler instances\<close>

text \<open>\<open>registered\<close> says which schedulers the hypervisor was built with.\<close>

definition scheduler_alloc ::
  "('v, 'd, 'p, 'g) sched_env \<Rightarrow> (nat \<Rightarrow> bool) \<Rightarrow> alloc \<Rightarrow> nat \<Rightarrow> ('v, 'd, 'p, 'g) xen
    \<Rightarrow> (errno + nat) \<times> ('v, 'd, 'p, 'g) xen" where
  "scheduler_alloc E registered A sched_id s =
     (if \<not> registered sched_id then (Inl ENOENT, s)
      else
        case al_sched A of
          None \<Rightarrow> (Inl ENOMEM, s)
        | Some a \<Rightarrow>
            (case op_init (E sched_id) (al_init A) a (s\<lparr>sched_kind := (sched_kind s)(a := sched_id)\<rparr>) of
               (Inl e, s1) \<Rightarrow> (Inl e, s1)
             | (Inr _, s1) \<Rightarrow> (Inr a, s1)))"

definition scheduler_free ::
  "('v, 'd, 'p, 'g) sched_env \<Rightarrow> nat \<Rightarrow> ('v, 'd, 'p, 'g) xen \<Rightarrow> ('v, 'd, 'p, 'g) xen" where
  "scheduler_free E a s =
     op_deinit (E (sched_kind s a)) a (if a = default_ops s then panic Bug_on s else s)"

section \<open>Vcpus, domains and CPUs of a scheduler\<close>

text \<open>The result is 1 when the private data cannot be allocated.\<close>

definition sched_init_vcpu ::
  "('v, 'd, 'p, 'g) sched_env \<Rightarrow> alloc \<Rightarrow> nat \<Rightarrow> nat \<Rightarrow> ('v, 'd, 'p, 'g) xen \<Rightarrow> nat \<times> ('v, 'd, 'p, 'g) xen" where
  "sched_init_vcpu E A v cpu s =
     (let d = v_domain (vcpus s v);
          pinned = is_idle_domain s d \<or> is_pinned (domains s d);
          s1 = upd_vcpu v (\<lambda>x. x\<lparr>processor := cpu,
                                  cpu_hard_affinity := (if pinned then {cpu} else cpumask_setall (nr_cpu_ids s)),
                                  cpu_soft_affinity := cpumask_setall (nr_cpu_ids s),
                                  periodic_timer := atimer_init cpu, singleshot_timer := atimer_init cpu,
                                  poll_timer := atimer_init cpu\<rparr>) s;
          ops = dom_scheduler s1 d;
          data = op_alloc_vdata (E (sched_kind s1 ops)) (al_vdata A v) ops v (d_priv (domains s1 d)) s1;
          s2 = upd_vcpu v (\<lambda>x. x\<lparr>v_priv := data\<rparr>) s1
      in if data = None then (1, s2)
         else if is_idle_domain s2 d
         then (0, upd_vcpu v (\<lambda>x. x\<lparr>is_running := True\<rparr>) (upd_pcpu cpu (\<lambda>x. x\<lparr>sd_curr := v\<rparr>) s2))
         else (0, SCHED_OP (op_insert_vcpu (E (sched_kind s2 (dom_scheduler s2 d)))) (dom_scheduler s2 d) v s2))"

definition sched_destroy_vcpu ::
  "('v, 'd, 'p, 'g) sched_env \<Rightarrow> nat \<Rightarrow> ('v, 'd, 'p, 'g) xen \<Rightarrow> ('v, 'd, 'p, 'g) xen" where
  "sched_destroy_vcpu E v s =
     (let s1 = upd_vcpu v (\<lambda>x. x\<lparr>periodic_timer := atimer_kill (periodic_timer x),
                                  singleshot_timer := atimer_kill (singleshot_timer x),
                                  poll_timer := atimer_kill (poll_timer x)\<rparr>) s;
          s2 = (if is_urgent (vcpus s1 v)
                then add_urgent (processor (vcpus s1 v)) (- 1) (upd_vcpu v (\<lambda>x. x\<lparr>is_urgent := False\<rparr>) s1)
                else s1);
          s3 = SCHED_OP (op_remove_vcpu (vcpu_ops E s2 v)) (vcpu_scheduler s2 v) v s2
      in op_free_vdata (vcpu_ops E s3 v) (vcpu_scheduler s3 v) v s3)"

text \<open>
  Moving one vcpu of a domain to its new pool: the timers, affinity, processor and private
  data are replaced, and the new scheduler takes it. The old private block is freed by then.
\<close>

definition move_vcpu ::
  "('v, 'd, 'p, 'g) sched_env \<Rightarrow> nat \<Rightarrow> (nat \<Rightarrow> 'v option) \<Rightarrow> nat \<Rightarrow> nat \<Rightarrow> ('v, 'd, 'p, 'g) xen \<Rightarrow> ('v, 'd, 'p, 'g) xen" where
  "move_vcpu E c data new_p v s =
     (let s1 = upd_vcpu v (\<lambda>x. x\<lparr>periodic_timer := atimer_migrate new_p (periodic_timer x),
                                  singleshot_timer := atimer_migrate new_p (singleshot_timer x),
                                  poll_timer := atimer_migrate new_p (poll_timer x),
                                  cpu_hard_affinity := cpumask_setall (nr_cpu_ids s), cpu_soft_affinity := cpumask_setall (nr_cpu_ids s),
                                  processor := new_p, v_priv := data v\<rparr>) s;
          ops = cp_sched (pools s1 c)
      in SCHED_OP (op_insert_vcpu (E (sched_kind s1 ops))) ops v s1)"

fun move_vcpus ::
  "('v, 'd, 'p, 'g) sched_env \<Rightarrow> nat \<Rightarrow> (nat \<Rightarrow> 'v option) \<Rightarrow> nat \<Rightarrow> nat list \<Rightarrow> ('v, 'd, 'p, 'g) xen \<Rightarrow> ('v, 'd, 'p, 'g) xen" where
  "move_vcpus E c data new_p [] s = s"
| "move_vcpus E c data new_p (v # vs) s =
     move_vcpus E c data (cpumask_cycle (nr_cpu_ids s) new_p (cpu_valid (pools s c))) vs
       (move_vcpu E c data new_p v s)"

definition sched_move_domain ::
  "('v, 'd, 'p, 'g) sched_env \<Rightarrow> (nat \<Rightarrow> ('v, 'd, 'p, 'g) xen \<Rightarrow> ('v, 'd, 'p, 'g) xen) \<Rightarrow> alloc \<Rightarrow> nat
    \<Rightarrow> nat \<Rightarrow> nat \<Rightarrow> ('v, 'd, 'p, 'g) xen \<Rightarrow> rc \<times> ('v, 'd, 'p, 'g) xen" where
  "sched_move_domain E relax A me d c s =
     (let vs = dom_vcpus (domains s d);
          ops = cp_sched (pools s c);
          H = E (sched_kind s ops);
          domdata = op_alloc_domdata H (al_domdata A d) ops d s;
          data = (\<lambda>v. op_alloc_vdata H (al_vdata A v) ops v domdata s)
      in if \<exists>v\<in>set vs. affinity_broken (vcpus s v) then (Inl EBUSY, s)
         else if domdata = None then (Inl ENOMEM, s)
         else if \<not> al_array A d then (Inl ENOMEM, s)
         else if \<exists>v\<in>set vs. data v = None then (Inl ENOMEM, s)
         else
           let s1 = domain_pause E relax me d s;
               old_ops = dom_scheduler s1 d;
               s2 = fold (SCHED_OP (op_remove_vcpu (E (sched_kind s1 old_ops))) old_ops) vs s1;
               s3 = upd_dom d (\<lambda>x. x\<lparr>d_cpupool := Some c, d_priv := domdata\<rparr>) s2;
               s4 = move_vcpus E c data (cpumask_first (nr_cpu_ids s3) (cpu_valid (pools s3 c))) vs s3
           in (OK, domain_unpause E d s4))"

text \<open>\<open>rnd\<close> is the value of get_random(): how far cpumask_any walks through the mask.\<close>

fun cpumask_walk :: "nat \<Rightarrow> cpumask \<Rightarrow> nat \<Rightarrow> nat \<Rightarrow> nat" where
  "cpumask_walk nr m 0 cpu = cpu"
| "cpumask_walk nr m (Suc w) cpu =
     (let nxt = cpumask_next nr cpu m in if nxt \<ge> nr then cpu else cpumask_walk nr m w nxt)"

definition cpumask_any :: "nat \<Rightarrow> nat \<Rightarrow> cpumask \<Rightarrow> nat" where
  "cpumask_any nr rnd m =
     (let cpu = cpumask_first nr m; w = card (m \<inter> {0..<nr})
      in if w > 1 \<and> cpu < nr then cpumask_walk nr m (rnd mod w) cpu else cpu)"

definition restore_vcpu ::
  "('v, 'd, 'p, 'g) sched_env \<Rightarrow> nat \<Rightarrow> nat \<Rightarrow> ('v, 'd, 'p, 'g) xen \<Rightarrow> ('v, 'd, 'p, 'g) xen" where
  "restore_vcpu E rnd v s =
     (let s0 = assert (\<not> vcpu_runnable s v) s;
          s1 = (if affinity_broken (vcpus s0 v)
                then upd_vcpu v (\<lambda>x. x\<lparr>cpu_hard_affinity := cpu_hard_affinity_saved x, affinity_broken := False\<rparr>) s0
                else s0);
          cpus = cpu_hard_affinity (vcpus s1 v) \<inter> cpupool_domain_cpumask s1 (v_domain (vcpus s1 v));
          s2 = upd_vcpu v (\<lambda>x. x\<lparr>processor := cpumask_any (nr_cpu_ids s1) rnd cpus\<rparr>) s1
      in upd_vcpu v (\<lambda>x. x\<lparr>processor := op_pick_cpu (vcpu_ops E s2 v) (vcpu_scheduler s2 v) v s2\<rparr>) s2)"

definition restore_vcpu_affinity ::
  "('v, 'd, 'p, 'g) sched_env \<Rightarrow> nat \<Rightarrow> nat \<Rightarrow> ('v, 'd, 'p, 'g) xen \<Rightarrow> ('v, 'd, 'p, 'g) xen" where
  "restore_vcpu_affinity E rnd d s =
     fold (restore_vcpu E rnd) (dom_vcpus (domains s d)) (assert (system_state (glob s) = SYS_STATE_resume) s)"

text \<open>
  The two loops of cpu_disable_scheduler. A vcpu that is pinned by an override ends the loop
  over its domain only.
\<close>

fun disable_vcpus ::
  "('v, 'd, 'p, 'g) sched_env \<Rightarrow> nat \<Rightarrow> nat \<Rightarrow> nat list \<Rightarrow> rc \<Rightarrow> ('v, 'd, 'p, 'g) xen
    \<Rightarrow> (rc \<times> ('v, 'd, 'p, 'g) xen) option" where
  "disable_vcpus E c cpu [] ret s = Some (ret, s)"
| "disable_vcpus E c cpu (v # vs) ret s =
     (let x = vcpus s v;
          lost = cpu_hard_affinity x \<inter> cpu_valid (pools s c) = {} \<and> cpu \<in> cpu_hard_affinity x;
          suspend = system_state (glob s) = SYS_STATE_suspend;
          s1 = (if lost then
                  upd_vcpu v (\<lambda>x. x\<lparr>cpu_hard_affinity := cpumask_setall (nr_cpu_ids s)\<rparr>)
                    (if suspend
                     then upd_vcpu v (\<lambda>x. x\<lparr>cpu_hard_affinity_saved := cpu_hard_affinity x, affinity_broken := True\<rparr>) s
                     else s)
                else s)
      in if lost \<and> affinity_broken x then Some (Inl EADDRINUSE, s)
         else if processor (vcpus s1 v) \<noteq> cpu then disable_vcpus E c cpu vs ret s1
         else if suspend then
           let others = cpu_online_map (glob s1) - {cpu};
               s2 = (if others = {} then panic Bug_on s1 else s1)
           in disable_vcpus E c cpu vs ret (vcpu_move_nosched E v (cpumask_first (nr_cpu_ids s2) others) s2)
         else
           do {
             s2 \<leftarrow> vcpu_migrate E v (vcpu_sleep_nosync E v (set_flag VPF_migrating v s1));
             disable_vcpus E c cpu vs (if processor (vcpus s2 v) = cpu then Inl EAGAIN else ret) s2
           })"

fun disable_domains ::
  "('v, 'd, 'p, 'g) sched_env \<Rightarrow> nat \<Rightarrow> nat \<Rightarrow> nat list \<Rightarrow> rc \<Rightarrow> ('v, 'd, 'p, 'g) xen
    \<Rightarrow> (rc \<times> ('v, 'd, 'p, 'g) xen) option" where
  "disable_domains E c cpu [] ret s = Some (ret, s)"
| "disable_domains E c cpu (d # ds) ret s =
     do { (ret1, s1) \<leftarrow> disable_vcpus E c cpu (dom_vcpus (domains s d)) ret s;
          disable_domains E c cpu ds ret1 s1 }"

definition cpu_disable_scheduler ::
  "('v, 'd, 'p, 'g) sched_env \<Rightarrow> nat \<Rightarrow> ('v, 'd, 'p, 'g) xen \<Rightarrow> (rc \<times> ('v, 'd, 'p, 'g) xen) option" where
  "cpu_disable_scheduler E cpu s =
     (case pcpu_pool s cpu of
        None \<Rightarrow> Some (OK, s)
      | Some c \<Rightarrow> disable_domains E c cpu (domains_in_cpupool s c) OK s)"

text \<open>
  Handing a CPU to another scheduler. The blocks that the old scheduler frees at the end are
  no longer referenced.
\<close>

definition schedule_cpu_switch ::
  "('v, 'd, 'p, 'g) sched_env \<Rightarrow> alloc \<Rightarrow> nat \<Rightarrow> nat option \<Rightarrow> ('v, 'd, 'p, 'g) xen
    \<Rightarrow> rc \<times> ('v, 'd, 'p, 'g) xen" where
  "schedule_cpu_switch E A cpu c s =
     (let old_ops = pcpu_sched s cpu;
          new_ops = (case c of None \<Rightarrow> default_ops s | Some p \<Rightarrow> cp_sched (pools s p));
          old_pool = pcpu_pool s cpu;
          H = E (sched_kind s new_ops);
          s0 = assert (c \<noteq> old_pool) s;
          s1 = assert (cpu \<in> cpupool_free_cpus (glob s0)) s0;
          s2 = (case (case c of None \<Rightarrow> old_pool | Some p \<Rightarrow> Some p) of
                  None \<Rightarrow> panic Null_deref s1
                | Some p \<Rightarrow> assert (cpu \<notin> cpu_valid (pools s1 p)) s1);
          out = (\<lambda>s. let s' = s\<lparr>pcpu_pool := (pcpu_pool s)(cpu := c)\<rparr>
                     in if c \<noteq> None then cpu_raise_softirq cpu SCHEDULE_SOFTIRQ s' else s')
      in if old_ops = new_ops then (OK, out s2)
         else
           case op_alloc_pdata H (al_pdata A) new_ops cpu s2 of
             (Inl e, s3) \<Rightarrow> (Inl e, s3)
           | (Inr ppriv, s3) \<Rightarrow>
               let idle = idle_vcpu s3 cpu
               in case op_alloc_vdata H (al_vdata A idle) new_ops idle (d_priv (domains s3 (v_domain (vcpus s3 idle)))) s3 of
                    None \<Rightarrow> (Inl ENOMEM, s3)
                  | Some vpriv \<Rightarrow>
                      let s4 = SCHED_OP (op_tick_suspend (E (sched_kind s3 old_ops))) old_ops cpu s3;
                          ppriv_old = sd_priv (percpu s4 cpu);
                          s5 = op_switch_sched H new_ops cpu ppriv vpriv s4;
                          s6 = SCHED_OP (op_tick_resume H) new_ops cpu s5;
                          s7 = (case op_deinit_pdata (E (sched_kind s6 old_ops)) of
                                  None \<Rightarrow> s6 | Some f \<Rightarrow> f old_ops ppriv_old cpu s6)
                      in (OK, out s7))"

section \<open>The list of pools\<close>

definition CPUPOOLID_NONE :: int where "CPUPOOLID_NONE = - 1"

text \<open>The list is sorted by id; without \<open>exact\<close> the first pool with a larger or equal id is found.\<close>

definition cpupool_find :: "int \<Rightarrow> bool \<Rightarrow> ('v, 'd, 'p, 'g) xen \<Rightarrow> nat option" where
  "cpupool_find i exact s =
     (case find (\<lambda>c. cpupool_id (pools s c) \<ge> i) (pool_list s) of
        None \<Rightarrow> None
      | Some c \<Rightarrow> if \<not> exact \<or> cpupool_id (pools s c) = i then Some c else None)"

definition cpupool_find_by_id :: "int \<Rightarrow> ('v, 'd, 'p, 'g) xen \<Rightarrow> nat option" where
  "cpupool_find_by_id i s = cpupool_find i True s"

definition cpupool_get :: "int \<Rightarrow> bool \<Rightarrow> ('v, 'd, 'p, 'g) xen \<Rightarrow> nat option \<times> ('v, 'd, 'p, 'g) xen" where
  "cpupool_get i exact s =
     (case cpupool_find i exact s of
        None \<Rightarrow> (None, s)
      | Some c \<Rightarrow> (Some c, upd_pool c (\<lambda>x. x\<lparr>cp_refcnt := cp_refcnt x + 1\<rparr>) s))"

definition cpupool_get_by_id :: "int \<Rightarrow> ('v, 'd, 'p, 'g) xen \<Rightarrow> nat option \<times> ('v, 'd, 'p, 'g) xen" where
  "cpupool_get_by_id i s = cpupool_get i True s"

definition cpupool_get_next_by_id :: "int \<Rightarrow> ('v, 'd, 'p, 'g) xen \<Rightarrow> nat option \<times> ('v, 'd, 'p, 'g) xen" where
  "cpupool_get_next_by_id i s = cpupool_get i False s"

definition cpupool_put ::
  "('v, 'd, 'p, 'g) sched_env \<Rightarrow> nat \<Rightarrow> ('v, 'd, 'p, 'g) xen \<Rightarrow> ('v, 'd, 'p, 'g) xen" where
  "cpupool_put E c s =
     (let s1 = upd_pool c (\<lambda>x. x\<lparr>cp_refcnt := cp_refcnt x - 1\<rparr>) s
      in if cp_refcnt (pools s1 c) = 0 then scheduler_free E (cp_sched (pools s1 c)) s1 else s1)"

text \<open>The pools before the place of a new pool; a pool without a given id goes to the end.\<close>

definition create_before :: "int \<Rightarrow> ('v, 'd, 'p, 'g) xen \<Rightarrow> nat list" where
  "create_before poolid s =
     takeWhile (\<lambda>c. poolid = CPUPOOLID_NONE \<or> cpupool_id (pools s c) < poolid) (pool_list s)"

definition cpupool_create ::
  "('v, 'd, 'p, 'g) sched_env \<Rightarrow> (nat \<Rightarrow> bool) \<Rightarrow> alloc \<Rightarrow> int \<Rightarrow> nat \<Rightarrow> ('v, 'd, 'p, 'g) xen
    \<Rightarrow> (errno + nat) \<times> ('v, 'd, 'p, 'g) xen" where
  "cpupool_create E registered A poolid sched_id s =
     (case al_pool A of
        None \<Rightarrow> (Inl ENOMEM, s)
      | Some c \<Rightarrow>
          let before = create_before poolid s;
              rest = drop (length before) (pool_list s);
              newid = (if poolid = CPUPOOLID_NONE
                       then s32 ((if before = [] then 0 else cpupool_id (pools s (last before))) + 1)
                       else poolid)
          in if rest \<noteq> [] \<and> cpupool_id (pools s (hd rest)) = poolid then (Inl EEXIST, s)
             else
               case (if poolid = 0 then (Inr (default_ops s), s) else scheduler_alloc E registered A sched_id s) of
                 (Inl e, s1) \<Rightarrow> (Inl e, s1)
               | (Inr ops, s1) \<Rightarrow>
                   (Inr c, s1\<lparr>pools := (pools s1)(c := \<lparr>cpupool_id = newid, cpu_valid = {}, cpu_suspended = {},
                                                        n_dom = 0, cp_sched = ops, cp_refcnt = 2\<rparr>),
                              pool_list := before @ c # rest\<rparr>))"

definition cpupool_destroy ::
  "('v, 'd, 'p, 'g) sched_env \<Rightarrow> nat \<Rightarrow> ('v, 'd, 'p, 'g) xen \<Rightarrow> rc \<times> ('v, 'd, 'p, 'g) xen" where
  "cpupool_destroy E c s =
     (if c \<notin> set (pool_list s) then (Inl ENOENT, s)
      else if n_dom (pools s c) \<noteq> 0 \<or> cpu_valid (pools s c) \<noteq> {} then (Inl EBUSY, s)
      else (OK, cpupool_put E c (s\<lparr>pool_list := remove1 c (pool_list s)\<rparr>)))"

section \<open>Domains of a pool\<close>

definition add_n_dom :: "nat \<Rightarrow> int \<Rightarrow> ('v, 'd, 'p, 'g) xen \<Rightarrow> ('v, 'd, 'p, 'g) xen" where
  "add_n_dom c n s = upd_pool c (\<lambda>x. x\<lparr>n_dom := n_dom x + n\<rparr>) s"

definition cpupool_move_domain ::
  "('v, 'd, 'p, 'g) sched_env \<Rightarrow> (nat \<Rightarrow> ('v, 'd, 'p, 'g) xen \<Rightarrow> ('v, 'd, 'p, 'g) xen) \<Rightarrow> alloc \<Rightarrow> nat
    \<Rightarrow> nat \<Rightarrow> nat \<Rightarrow> ('v, 'd, 'p, 'g) xen \<Rightarrow> rc \<times> ('v, 'd, 'p, 'g) xen" where
  "cpupool_move_domain E relax A me d c s =
     (if d_cpupool (domains s d) = Some c then (OK, s)
      else
        let old = the (d_cpupool (domains s d));
            (ret, s1) = sched_move_domain E relax A me d c (add_n_dom old (- 1) s)
        in (ret, if ret = OK then add_n_dom c 1 s1 else add_n_dom (the (d_cpupool (domains s1 d))) 1 s1))"

definition cpupool_add_domain :: "nat \<Rightarrow> int \<Rightarrow> ('v, 'd, 'p, 'g) xen \<Rightarrow> rc \<times> ('v, 'd, 'p, 'g) xen" where
  "cpupool_add_domain d poolid s =
     (if poolid = CPUPOOLID_NONE then (OK, s)
      else
        case cpupool_find_by_id poolid s of
          None \<Rightarrow> (Inl ESRCH, s)
        | Some c \<Rightarrow>
            if cpu_valid (pools s c) = {} then (Inl ENODEV, s)
            else (OK, upd_dom d (\<lambda>x. x\<lparr>d_cpupool := Some c\<rparr>) (add_n_dom c 1 s)))"

definition cpupool_rm_domain :: "nat \<Rightarrow> ('v, 'd, 'p, 'g) xen \<Rightarrow> ('v, 'd, 'p, 'g) xen" where
  "cpupool_rm_domain d s =
     (case d_cpupool (domains s d) of
        None \<Rightarrow> s
      | Some c \<Rightarrow> upd_dom d (\<lambda>x. x\<lparr>d_cpupool := None\<rparr>) (add_n_dom c (- 1) s))"

definition sched_init_domain ::
  "('v, 'd, 'p, 'g) sched_env \<Rightarrow> alloc \<Rightarrow> nat \<Rightarrow> int \<Rightarrow> ('v, 'd, 'p, 'g) xen \<Rightarrow> rc \<times> ('v, 'd, 'p, 'g) xen" where
  "sched_init_domain E A d poolid s =
     (case cpupool_add_domain d poolid (assert (d_cpupool (domains s d) = None) s) of
        (Inl e, s1) \<Rightarrow> (Inl e, s1)
      | (Inr _, s1) \<Rightarrow>
          op_init_domain (E (sched_kind s1 (dom_scheduler s1 d))) (al_domdata A d) (dom_scheduler s1 d) d s1)"

definition sched_destroy_domain ::
  "('v, 'd, 'p, 'g) sched_env \<Rightarrow> nat \<Rightarrow> ('v, 'd, 'p, 'g) xen \<Rightarrow> ('v, 'd, 'p, 'g) xen" where
  "sched_destroy_domain E d s =
     (let s1 = assert (d_cpupool (domains s d) \<noteq> None \<or> is_idle_domain s d) s
      in cpupool_rm_domain d (op_destroy_domain (E (sched_kind s1 (dom_scheduler s1 d))) (dom_scheduler s1 d) d s1))"

section \<open>CPUs of a pool\<close>

text \<open>The end of a CPU's move: the reference taken at its start is dropped.\<close>

definition end_move ::
  "('v, 'd, 'p, 'g) sched_env \<Rightarrow> ('v, 'd, 'p, 'g) xen \<Rightarrow> ('v, 'd, 'p, 'g) xen" where
  "end_move E s =
     (let c = the (cpupool_cpu_moving (glob s));
          s1 = cpupool_put E c (upd_glob (\<lambda>g. g\<lparr>cpupool_moving_cpu := None\<rparr>) s)
      in upd_glob (\<lambda>g. g\<lparr>cpupool_cpu_moving := None\<rparr>) s1)"

definition free_cpu :: "nat \<Rightarrow> ('v, 'd, 'p, 'g) xen \<Rightarrow> ('v, 'd, 'p, 'g) xen" where
  "free_cpu cpu s = upd_glob (\<lambda>g. g\<lparr>cpupool_free_cpus := insert cpu (cpupool_free_cpus g)\<rparr>) s"

definition unfree_cpu :: "nat \<Rightarrow> ('v, 'd, 'p, 'g) xen \<Rightarrow> ('v, 'd, 'p, 'g) xen" where
  "unfree_cpu cpu s = upd_glob (\<lambda>g. g\<lparr>cpupool_free_cpus := cpupool_free_cpus g - {cpu}\<rparr>) s"

definition cpupool_assign_cpu_locked ::
  "('v, 'd, 'p, 'g) sched_env \<Rightarrow> alloc \<Rightarrow> nat \<Rightarrow> nat \<Rightarrow> ('v, 'd, 'p, 'g) xen \<Rightarrow> rc \<times> ('v, 'd, 'p, 'g) xen" where
  "cpupool_assign_cpu_locked E A c cpu s =
     (if cpupool_moving_cpu (glob s) = Some cpu \<and> Some c \<noteq> cpupool_cpu_moving (glob s)
      then (Inl EADDRNOTAVAIL, s)
      else
        case schedule_cpu_switch E A cpu (Some c) s of
          (Inl e, s1) \<Rightarrow> (Inl e, s1)
        | (Inr _, s1) \<Rightarrow>
            let s2 = unfree_cpu cpu s1;
                s3 = (if cpupool_moving_cpu (glob s2) = Some cpu then end_move E s2 else s2)
            in (OK, upd_pool c (\<lambda>x. x\<lparr>cpu_valid := insert cpu (cpu_valid x)\<rparr>) s3))"

definition cpupool_unassign_cpu_helper ::
  "('v, 'd, 'p, 'g) sched_env \<Rightarrow> alloc \<Rightarrow> nat \<Rightarrow> ('v, 'd, 'p, 'g) xen \<Rightarrow> (rc \<times> ('v, 'd, 'p, 'g) xen) option" where
  "cpupool_unassign_cpu_helper E A c s =
     (let cpu = the (cpupool_moving_cpu (glob s))
      in if Some c \<noteq> cpupool_cpu_moving (glob s) then Some (Inl EADDRNOTAVAIL, s)
         else
           do {
             (ret, s1) \<leftarrow> cpu_disable_scheduler E cpu s;
             let s2 = free_cpu cpu s1;
             Some (if ret = OK
                   then (case schedule_cpu_switch E A cpu None s2 of
                           (Inl e, s3) \<Rightarrow> (Inl e, unfree_cpu cpu s3)
                         | (Inr _, s3) \<Rightarrow> (OK, end_move E s3))
                   else (ret, s2))
           })"

text \<open>
  Running a function on another CPU: the calling vcpu is paused until the tasklet there has
  run. The tasklet itself is \<open>continue_hypercall_tasklet_handler\<close>, a step of the CPU \<open>me\<close>.
\<close>

definition continue_hypercall_on_cpu ::
  "('v, 'd, 'p, 'g) sched_env \<Rightarrow> alloc \<Rightarrow> nat \<Rightarrow> nat \<Rightarrow> ('v, 'd, 'p, 'g) xen \<Rightarrow> rc \<times> ('v, 'd, 'p, 'g) xen" where
  "continue_hypercall_on_cpu E A me cpu s =
     (if cpu \<ge> nr_cpu_ids s \<or> cpu \<notin> cpu_online_map (glob s) then (Inl EINVAL, s)
      else if \<not> al_info A then (Inl ENOMEM, s)
      else (OK, vcpu_pause_nosync E (current s me) s))"

definition continue_hypercall_tasklet_handler ::
  "('v, 'd, 'p, 'g) sched_env \<Rightarrow> (nat \<Rightarrow> ('v, 'd, 'p, 'g) xen \<Rightarrow> ('v, 'd, 'p, 'g) xen) \<Rightarrow> nat \<Rightarrow> nat
    \<Rightarrow> (('v, 'd, 'p, 'g) xen \<Rightarrow> (rc \<times> ('v, 'd, 'p, 'g) xen) option) \<Rightarrow> nat \<Rightarrow> ('v, 'd, 'p, 'g) xen
    \<Rightarrow> (rc \<times> ('v, 'd, 'p, 'g) xen) option" where
  "continue_hypercall_tasklet_handler E relax me cpu func v s =
     do {
       let s1 = vcpu_sleep_sync E relax v s;
       (ret, s2) \<leftarrow> (if cpu = me then func s1 else Some (Inl EINVAL, s1));
       Some (ret, vcpu_unpause E v s2)
     }"

text \<open>The dying domains of a pool that loses its last CPU go to pool 0; another domain stops it.\<close>

fun evict_domains ::
  "('v, 'd, 'p, 'g) sched_env \<Rightarrow> (nat \<Rightarrow> ('v, 'd, 'p, 'g) xen \<Rightarrow> ('v, 'd, 'p, 'g) xen) \<Rightarrow> alloc \<Rightarrow> nat
    \<Rightarrow> nat list \<Rightarrow> ('v, 'd, 'p, 'g) xen \<Rightarrow> rc \<times> ('v, 'd, 'p, 'g) xen" where
  "evict_domains E relax A me [] s = (OK, s)"
| "evict_domains E relax A me (d # ds) s =
     (if d_is_dying (domains s d) = DOMDYING_alive then (Inl EBUSY, s)
      else
        case cpupool_move_domain E relax A me d (cpupool0 (glob s)) s of
          (Inl e, s1) \<Rightarrow> (Inl e, s1)
        | (Inr _, s1) \<Rightarrow> evict_domains E relax A me ds s1)"

definition cpupool_unassign_cpu ::
  "('v, 'd, 'p, 'g) sched_env \<Rightarrow> (nat \<Rightarrow> ('v, 'd, 'p, 'g) xen \<Rightarrow> ('v, 'd, 'p, 'g) xen) \<Rightarrow> alloc \<Rightarrow> nat
    \<Rightarrow> nat \<Rightarrow> nat \<Rightarrow> ('v, 'd, 'p, 'g) xen \<Rightarrow> rc \<times> ('v, 'd, 'p, 'g) xen" where
  "cpupool_unassign_cpu E relax A me c cpu s =
     (let moving = cpupool_moving_cpu (glob s)
      in if moving \<noteq> None \<and> moving \<noteq> Some cpu then (Inl EADDRNOTAVAIL, s)
         else if cpu \<in> cpupool_locked_cpus (glob s) then (Inl EADDRNOTAVAIL, s)
         else if cpu \<notin> cpu_valid (pools s c) \<and> moving \<noteq> Some cpu then (OK, s)
         else
           case (if n_dom (pools s c) > 0 \<and> card (cpu_valid (pools s c)) = 1 \<and> moving \<noteq> Some cpu
                 then evict_domains E relax A me (domains_in_cpupool s c) s else (OK, s)) of
             (Inl e, s1) \<Rightarrow> (Inl e, s1)
           | (Inr _, s1) \<Rightarrow>
               let s2 = upd_glob (\<lambda>g. g\<lparr>cpupool_moving_cpu := Some cpu, cpupool_cpu_moving := Some c\<rparr>)
                          (upd_pool c (\<lambda>x. x\<lparr>cp_refcnt := cp_refcnt x + 1, cpu_valid := cpu_valid x - {cpu}\<rparr>) s1);
                   valid0 = cpu_valid (pools s2 (cpupool0 (glob s2)));
                   first = cpumask_first (nr_cpu_ids s2) valid0;
                   work_cpu = (if me \<noteq> cpu then me
                               else if first \<noteq> cpu then first else cpumask_next (nr_cpu_ids s2) cpu valid0)
               in continue_hypercall_on_cpu E A me work_cpu s2)"

definition cpupool_cpu_add ::
  "('v, 'd, 'p, 'g) sched_env \<Rightarrow> alloc \<Rightarrow> nat \<Rightarrow> ('v, 'd, 'p, 'g) xen \<Rightarrow> rc \<times> ('v, 'd, 'p, 'g) xen" where
  "cpupool_cpu_add E A cpu s =
     (let s1 = free_cpu cpu (upd_glob (\<lambda>g. g\<lparr>cpupool_locked_cpus := cpupool_locked_cpus g - {cpu}\<rparr>) s)
      in if system_state (glob s1) = SYS_STATE_resume then
           (case find (\<lambda>c. cpu \<in> cpu_suspended (pools s1 c)) (pool_list s1) of
              None \<Rightarrow> (OK, if cpu \<in> cpupool_free_cpus (glob s1) then s1 else panic Null_deref s1)
            | Some c \<Rightarrow>
                (case cpupool_assign_cpu_locked E A c cpu s1 of
                   (Inl e, s2) \<Rightarrow> (Inl e, s2)
                 | (Inr _, s2) \<Rightarrow>
                     let s3 = upd_pool c (\<lambda>x. x\<lparr>cpu_suspended := cpu_suspended x - {cpu}\<rparr>) s2
                     in (OK, assert (cpu \<in> cpupool_free_cpus (glob s3) \<or> cpu \<in> cpu_valid (pools s3 c)) s3)))
         else cpupool_assign_cpu_locked E A (cpupool0 (glob s1)) cpu s1)"

definition cpupool_cpu_remove :: "nat \<Rightarrow> ('v, 'd, 'p, 'g) xen \<Rightarrow> rc \<times> ('v, 'd, 'p, 'g) xen" where
  "cpupool_cpu_remove cpu s =
     (let lock = upd_glob (\<lambda>g. g\<lparr>cpupool_locked_cpus := insert cpu (cpupool_locked_cpus g)\<rparr>);
          p0 = cpupool0 (glob s)
      in if system_state (glob s) = SYS_STATE_suspend then
           let s1 = (case find (\<lambda>c. cpu \<in> cpu_valid (pools s c)) (pool_list s) of
                       None \<Rightarrow> if cpu \<in> cpupool_free_cpus (glob s) then s else panic Null_deref s
                     | Some c \<Rightarrow> upd_pool c (\<lambda>x. x\<lparr>cpu_suspended := insert cpu (cpu_suspended x),
                                                     cpu_valid := cpu_valid x - {cpu}\<rparr>) s);
               s2 = assert (cpu \<in> cpu_online_map (glob s1) \<or> cpu \<in> cpu_suspended (pools s1 p0)) s1
           in (OK, lock s2)
         else if cpu \<in> cpu_valid (pools s p0)
         then (OK, lock (upd_pool p0 (\<lambda>x. x\<lparr>cpu_valid := cpu_valid x - {cpu}\<rparr>) s))
         else (Inl ENODEV, s))"

definition cpu_callback ::
  "('v, 'd, 'p, 'g) sched_env \<Rightarrow> alloc \<Rightarrow> cpu_action \<Rightarrow> nat \<Rightarrow> ('v, 'd, 'p, 'g) xen \<Rightarrow> rc \<times> ('v, 'd, 'p, 'g) xen" where
  "cpu_callback E A action cpu s =
     (case action of
        CPU_DOWN_FAILED \<Rightarrow> cpupool_cpu_add E A cpu s
      | CPU_ONLINE \<Rightarrow> cpupool_cpu_add E A cpu s
      | CPU_DOWN_PREPARE \<Rightarrow> cpupool_cpu_remove cpu s
      | _ \<Rightarrow> (OK, s))"

section \<open>The control operation\<close>

definition XEN_SYSCTL_CPUPOOL_PAR_ANY :: nat where
  "XEN_SYSCTL_CPUPOOL_PAR_ANY = 4294967295"

definition cpumask_last :: "nat \<Rightarrow> cpumask \<Rightarrow> nat" where
  "cpumask_last nr m = (case rev (filter (\<lambda>c. c \<in> m) [0..<nr]) of [] \<Rightarrow> nr | c # cs \<Rightarrow> c)"

text \<open>
  The operations with their arguments, unsigned 32-bit numbers, and what they write back.
  \<open>copy\<close> says whether the CPU map can be copied to the caller.
\<close>

datatype cpupool_op =
    CPUPOOL_OP_CREATE nat nat | CPUPOOL_OP_DESTROY nat | CPUPOOL_OP_INFO nat
  | CPUPOOL_OP_ADDCPU nat nat | CPUPOOL_OP_RMCPU nat nat | CPUPOOL_OP_MOVEDOMAIN nat nat
  | CPUPOOL_OP_FREEINFO | CPUPOOL_OP_unknown

datatype cpupool_reply =
    No_reply | Created int | Pool_info int nat int cpumask | Free_info cpumask

definition reply :: "rc \<Rightarrow> errno + cpupool_reply" where
  "reply rc = (case rc of Inl e \<Rightarrow> Inl e | Inr _ \<Rightarrow> Inr No_reply)"

definition cpupool_do_sysctl ::
  "('v, 'd, 'p, 'g) sched_env \<Rightarrow> (nat \<Rightarrow> bool) \<Rightarrow> (nat \<Rightarrow> ('v, 'd, 'p, 'g) xen \<Rightarrow> ('v, 'd, 'p, 'g) xen) \<Rightarrow> alloc
    \<Rightarrow> bool \<Rightarrow> nat \<Rightarrow> cpupool_op \<Rightarrow> ('v, 'd, 'p, 'g) xen \<Rightarrow> (errno + cpupool_reply) \<times> ('v, 'd, 'p, 'g) xen" where
  "cpupool_do_sysctl E registered relax A copy me op s =
     (case op of
        CPUPOOL_OP_CREATE i sched_id \<Rightarrow>
          (let poolid = (if i = XEN_SYSCTL_CPUPOOL_PAR_ANY then CPUPOOLID_NONE else s32 (int i))
           in case cpupool_create E registered A poolid sched_id s of
                (Inl e, s1) \<Rightarrow> (Inl e, s1)
              | (Inr c, s1) \<Rightarrow> (Inr (Created (cpupool_id (pools s1 c))), cpupool_put E c s1))
      | CPUPOOL_OP_DESTROY i \<Rightarrow>
          (case cpupool_get_by_id (s32 (int i)) s of
             (None, s1) \<Rightarrow> (Inl ENOENT, s1)
           | (Some c, s1) \<Rightarrow> (let (ret, s2) = cpupool_destroy E c s1 in (reply ret, cpupool_put E c s2)))
      | CPUPOOL_OP_INFO i \<Rightarrow>
          (case cpupool_get_next_by_id (s32 (int i)) s of
             (None, s1) \<Rightarrow> (Inl ENOENT, s1)
           | (Some c, s1) \<Rightarrow>
               (if copy
                then Inr (Pool_info (cpupool_id (pools s1 c)) (sched_kind s1 (cp_sched (pools s1 c)))
                           (n_dom (pools s1 c)) (cpu_valid (pools s1 c)))
                else Inl EFAULT, cpupool_put E c s1))
      | CPUPOOL_OP_ADDCPU i n \<Rightarrow>
          (let cpu = (if n = XEN_SYSCTL_CPUPOOL_PAR_ANY
                      then cpumask_first (nr_cpu_ids s) (cpupool_free_cpus (glob s)) else n)
           in if cpu \<ge> nr_cpu_ids s then (Inl EINVAL, s)
              else if cpu \<notin> cpupool_free_cpus (glob s) then (Inl ENODEV, s)
              else
                case cpupool_find_by_id (s32 (int i)) s of
                  None \<Rightarrow> (Inl ENOENT, s)
                | Some c \<Rightarrow> (let (ret, s1) = cpupool_assign_cpu_locked E A c cpu s in (reply ret, s1)))
      | CPUPOOL_OP_RMCPU i n \<Rightarrow>
          (case cpupool_get_by_id (s32 (int i)) s of
             (None, s1) \<Rightarrow> (Inl ENOENT, s1)
           | (Some c, s1) \<Rightarrow>
               let cpu = (if n = XEN_SYSCTL_CPUPOOL_PAR_ANY
                          then cpumask_last (nr_cpu_ids s1) (cpu_valid (pools s1 c)) else n);
                   (ret, s2) = (if cpu < nr_cpu_ids s1 then cpupool_unassign_cpu E relax A me c cpu s1
                                else (Inl EINVAL, s1))
               in (reply ret, cpupool_put E c s2))
      | CPUPOOL_OP_MOVEDOMAIN i domid \<Rightarrow>
          (case rcu_lock_remote_domain_by_id me domid s of
             Inl e \<Rightarrow> (Inl e, s)
           | Inr d \<Rightarrow>
               (case d_cpupool (domains s d) of
                  None \<Rightarrow> (Inl EINVAL, s)
                | Some old \<Rightarrow>
                    if s32 (int i) = cpupool_id (pools s old) then (Inr No_reply, s)
                    else
                      case cpupool_find_by_id (s32 (int i)) s of
                        None \<Rightarrow> (Inl ENOENT, s)
                      | Some c \<Rightarrow>
                          if cpu_valid (pools s c) = {} then (Inl ENOENT, s)
                          else (let (ret, s1) = cpupool_move_domain E relax A me d c s in (reply ret, s1))))
      | CPUPOOL_OP_FREEINFO \<Rightarrow> (if copy then Inr (Free_info (cpupool_free_cpus (glob s))) else Inl EFAULT, s)
      | CPUPOOL_OP_unknown \<Rightarrow> (Inl ENOSYS, s))"

section \<open>Killing a domain\<close>

text \<open>
  \<open>relinquish\<close> is the result of domain_relinquish_resources. Event channels, grant tables and
  memory are torn down outside this model; the domain keeps the pause taken at the start.
\<close>

definition domain_kill ::
  "('v, 'd, 'p, 'g) sched_env \<Rightarrow> (nat \<Rightarrow> ('v, 'd, 'p, 'g) xen \<Rightarrow> ('v, 'd, 'p, 'g) xen) \<Rightarrow> alloc \<Rightarrow> nat \<Rightarrow> rc
    \<Rightarrow> nat \<Rightarrow> ('v, 'd, 'p, 'g) xen \<Rightarrow> rc \<times> ('v, 'd, 'p, 'g) xen" where
  "domain_kill E relax A me relinquish d s =
     (if d = v_domain (vcpus s (current s me)) then (Inl EINVAL, s)
      else if d_is_dying (domains s d) = DOMDYING_dead then (OK, s)
      else
        let s1 = (if d_is_dying (domains s d) = DOMDYING_alive
                  then upd_dom d (\<lambda>x. x\<lparr>d_is_dying := DOMDYING_dying\<rparr>) (domain_pause E relax me d s) else s)
        in case relinquish of
             Inl e \<Rightarrow> (Inl e, s1)
           | Inr _ \<Rightarrow>
               (case cpupool_move_domain E relax A me d (cpupool0 (glob s1)) s1 of
                  (Inl e, s2) \<Rightarrow> (Inl ERESTART, s2)
                | (Inr _, s2) \<Rightarrow> (OK, send Dom_exc (upd_dom d (\<lambda>x. x\<lparr>d_is_dying := DOMDYING_dead\<rparr>) s2))))"

end
