(* ===== verification/Cpupool_Inv.thy ===== *)
theory Cpupool_Inv
  imports Cpupool Schedule_Runs
begin

text \<open>
  The cpupools as an abstract state: which pools there are, which CPUs and domains each has,
  which CPU is moving between pools, and the state of the system that hotplug depends on. What
  the operations of common/cpupool.c do to it, for every scheduler whose hooks leave it alone, and
  the well-formedness that they keep.
\<close>

section \<open>The abstract state\<close>

record pool_state =
  pw_pools :: "nat \<Rightarrow> cpupool"
  pw_list :: "nat list"
  pw_cpu :: "nat \<Rightarrow> nat option"
  pw_dom :: "nat \<Rightarrow> nat option"
  pw_zero :: nat
  pw_free :: cpumask
  pw_locked :: cpumask
  pw_moving :: "nat option"
  pw_target :: "nat option"
  pw_online :: cpumask
  pw_system :: system_state
  pw_nr :: nat

definition pool_view :: "('v, 'd, 'p, 'g) xen \<Rightarrow> pool_state" where
  "pool_view s =
     \<lparr>pw_pools = pools s, pw_list = pool_list s, pw_cpu = pcpu_pool s, pw_dom = (\<lambda>d. d_cpupool (domains s d)),
      pw_zero = cpupool0 (glob s), pw_free = cpupool_free_cpus (glob s), pw_locked = cpupool_locked_cpus (glob s),
      pw_moving = cpupool_moving_cpu (glob s), pw_target = cpupool_cpu_moving (glob s),
      pw_online = cpu_online_map (glob s), pw_system = system_state (glob s), pw_nr = nr_cpu_ids s\<rparr>"

lemma pool_view_sel [simp]:
  "pw_pools (pool_view s) = pools s" "pw_list (pool_view s) = pool_list s" "pw_cpu (pool_view s) = pcpu_pool s"
  "pw_dom (pool_view s) d = d_cpupool (domains s d)" "pw_zero (pool_view s) = cpupool0 (glob s)"
  "pw_free (pool_view s) = cpupool_free_cpus (glob s)" "pw_locked (pool_view s) = cpupool_locked_cpus (glob s)"
  "pw_moving (pool_view s) = cpupool_moving_cpu (glob s)" "pw_target (pool_view s) = cpupool_cpu_moving (glob s)"
  "pw_online (pool_view s) = cpu_online_map (glob s)" "pw_system (pool_view s) = system_state (glob s)"
  "pw_nr (pool_view s) = nr_cpu_ids s"
  by (simp_all add: pool_view_def)

text \<open>The fields that equal views share.\<close>

lemma pool_view_reads:
  assumes "pool_view s' = pool_view s"
  shows "pools s' = pools s" "pool_list s' = pool_list s" "pcpu_pool s' = pcpu_pool s"
    "d_cpupool (domains s' d) = d_cpupool (domains s d)" "cpupool0 (glob s') = cpupool0 (glob s)"
    "cpupool_free_cpus (glob s') = cpupool_free_cpus (glob s)"
    "cpupool_locked_cpus (glob s') = cpupool_locked_cpus (glob s)"
    "cpupool_moving_cpu (glob s') = cpupool_moving_cpu (glob s)"
    "cpupool_cpu_moving (glob s') = cpupool_cpu_moving (glob s)"
    "cpu_online_map (glob s') = cpu_online_map (glob s)" "system_state (glob s') = system_state (glob s)"
    "nr_cpu_ids s' = nr_cpu_ids s"
  using arg_cong [OF assms, where f = pw_pools] arg_cong [OF assms, where f = pw_list]
    arg_cong [OF assms, where f = pw_cpu] arg_cong [OF assms, where f = "\<lambda>P. pw_dom P d"]
    arg_cong [OF assms, where f = pw_zero] arg_cong [OF assms, where f = pw_free]
    arg_cong [OF assms, where f = pw_locked] arg_cong [OF assms, where f = pw_moving]
    arg_cong [OF assms, where f = pw_target] arg_cong [OF assms, where f = pw_online]
    arg_cong [OF assms, where f = pw_system] arg_cong [OF assms, where f = pw_nr] by simp_all

text \<open>Updates elsewhere keep the view.\<close>

lemma pool_view_simps [simp]:
  "pool_view (upd_vcpu v f s) = pool_view s" "pool_view (upd_pcpu c h s) = pool_view s"
  "pool_view (panic e s) = pool_view s" "pool_view (cpu_raise_softirq c nr s) = pool_view s"
  "pool_view (send n s) = pool_view s" "pool_view (assert b s) = pool_view s"
  "pool_view (add_urgent c m s) = pool_view s"
  by (simp_all add: pool_view_def upd_vcpu_def upd_pcpu_def panic_def cpu_raise_softirq_def send_def assert_def
      add_urgent_def split: option.splits)

lemma pool_view_dom: "d_cpupool (g (domains s d)) = d_cpupool (domains s d) \<Longrightarrow> pool_view (upd_dom d g s) = pool_view s"
  by (simp add: pool_view_def upd_dom_def fun_eq_iff)

lemma pool_view_set_pool:
  "pool_view (upd_dom d (\<lambda>x. x\<lparr>d_cpupool := c\<rparr>) s) = (pool_view s)\<lparr>pw_dom := (pw_dom (pool_view s))(d := c)\<rparr>"
  "pool_view (upd_dom d (\<lambda>x. x\<lparr>d_cpupool := c, d_priv := p\<rparr>) s) = (pool_view s)\<lparr>pw_dom := (pw_dom (pool_view s))(d := c)\<rparr>"
  by (simp_all add: pool_view_def fun_eq_iff)

lemma pool_view_upd_pool:
  "pool_view (upd_pool c f s) = (pool_view s)\<lparr>pw_pools := (pools s)(c := f (pools s c))\<rparr>"
  by (simp add: pool_view_def upd_pool_def)

lemma pool_view_free:
  "pool_view (free_cpu cpu s) = (pool_view s)\<lparr>pw_free := insert cpu (cpupool_free_cpus (glob s))\<rparr>"
  "pool_view (unfree_cpu cpu s) = (pool_view s)\<lparr>pw_free := cpupool_free_cpus (glob s) - {cpu}\<rparr>"
  by (simp_all add: pool_view_def free_cpu_def unfree_cpu_def upd_glob_def)

lemma pool_view_pcpu_pool: "pool_view (s\<lparr>pcpu_pool := x\<rparr>) = (pool_view s)\<lparr>pw_cpu := x\<rparr>"
  by (simp add: pool_view_def)

lemma pool_view_of_erase: "pool_view (erase s) = pool_view s"
  by (simp add: pool_view_def erase_def)

lemma pool_view_erase: "erase s' = erase s \<Longrightarrow> pool_view s' = pool_view s"
  using pool_view_of_erase [of s'] pool_view_of_erase [of s] by simp

section \<open>The generic layer keeps the view\<close>

sublocale sched_contract \<subseteq> pvw: generic_inv E "\<lambda>s. pool_view s = P" for P
proof
  show "pool_view s = P" if "erase s = erase s'" "pool_view s' = P" for s s' :: "('v, 'd, 'p, 'g) xen"
    using that pool_view_erase by blast
qed (simp_all add: pool_view_dom vcpu_runstate_change_def Let_def vcpu_urgent_count_update_def, simp_all add: pool_view_def)

text \<open>What the hooks that attach CPUs, domains and instances may touch.\<close>

locale pool_contract = sched_contract E for E :: "('v, 'd, 'p, 'g) sched_env" +
  assumes init_frame: "pool_view (snd (op_init (E k) b a s)) = pool_view s"
    and deinit_frame: "pool_view (op_deinit (E k) a s) = pool_view s"
    and alloc_pdata_frame: "pool_view (snd (op_alloc_pdata (E k) b ops cpu s)) = pool_view s"
    and deinit_pdata_frame: "op_deinit_pdata (E k) = Some f \<Longrightarrow> pool_view (f ops p cpu s) = pool_view s"
    and switch_frame: "pool_view (op_switch_sched (E k) ops cpu p v s) = pool_view s"
    and init_domain_frame: "pool_view (snd (op_init_domain (E k) b ops d s)) = pool_view s"
    and destroy_domain_frame: "pool_view (op_destroy_domain (E k) ops d s) = pool_view s"
    and tick_suspend_frame: "op_tick_suspend (E k) = Some g \<Longrightarrow> pool_view (g ops cpu s) = pool_view s"
    and tick_resume_frame: "op_tick_resume (E k) = Some g \<Longrightarrow> pool_view (g ops cpu s) = pool_view s"

section \<open>Well-formed pools\<close>

text \<open>
  The pools are listed by increasing id; the domain count of a pool is right; a CPU that a pool
  may use is bound to that pool and not free; the CPU being moved belongs to no pool.
\<close>

definition pool_wf :: "pool_state \<Rightarrow> bool" where
  "pool_wf P \<longleftrightarrow>
     sorted_wrt (\<lambda>a b. cpupool_id (pw_pools P a) < cpupool_id (pw_pools P b)) (pw_list P)
     \<and> (\<forall>c\<in>set (pw_list P). finite {d. pw_dom P d = Some c}
          \<and> n_dom (pw_pools P c) = int (card {d. pw_dom P d = Some c}))
     \<and> (\<forall>c\<in>set (pw_list P). \<forall>cpu\<in>cpu_valid (pw_pools P c). pw_cpu P cpu = Some c \<and> cpu \<notin> pw_free P)
     \<and> (\<forall>cpu. pw_moving P = Some cpu \<longrightarrow> (\<forall>c\<in>set (pw_list P). cpu \<notin> cpu_valid (pw_pools P c)))"

text \<open>Hence no CPU belongs to two pools.\<close>

lemma pool_wf_disjoint:
  "pool_wf P \<Longrightarrow> a \<in> set (pw_list P) \<Longrightarrow> b \<in> set (pw_list P) \<Longrightarrow> cpu \<in> cpu_valid (pw_pools P a) \<Longrightarrow>
    cpu \<in> cpu_valid (pw_pools P b) \<Longrightarrow> a = b"
  unfolding pool_wf_def by (metis option.inject)

lemma pool_wf_rules:
  assumes "pool_wf P"
  shows "sorted_wrt (\<lambda>a b. cpupool_id (pw_pools P a) < cpupool_id (pw_pools P b)) (pw_list P)"
    and "c \<in> set (pw_list P) \<Longrightarrow> finite {d. pw_dom P d = Some c}"
    and "c \<in> set (pw_list P) \<Longrightarrow> n_dom (pw_pools P c) = int (card {d. pw_dom P d = Some c})"
    and "c \<in> set (pw_list P) \<Longrightarrow> cpu \<in> cpu_valid (pw_pools P c) \<Longrightarrow> pw_cpu P cpu = Some c"
    and "c \<in> set (pw_list P) \<Longrightarrow> cpu \<in> cpu_valid (pw_pools P c) \<Longrightarrow> cpu \<notin> pw_free P"
    and "c \<in> set (pw_list P) \<Longrightarrow> pw_moving P = Some cpu \<Longrightarrow> cpu \<notin> cpu_valid (pw_pools P c)"
  using assms unfolding pool_wf_def by blast+

lemma pool_wf_distinct: "pool_wf P \<Longrightarrow> distinct (pw_list P)"
  using pool_wf_rules(1) [of P] unfolding distinct_conv_nth sorted_wrt_iff_nth_less
  by (metis less_irrefl linorder_neqE_nat)

text \<open>A change that keeps the list, the ids and the domains need only be checked on the CPUs of the pools.\<close>

lemma pool_wf_change:
  assumes "pool_wf P" and "pw_list P' = pw_list P" and "pw_dom P' = pw_dom P"
    and "\<And>x. cpupool_id (pw_pools P' x) = cpupool_id (pw_pools P x)" and "\<And>x. n_dom (pw_pools P' x) = n_dom (pw_pools P x)"
    and "\<And>x cpu. x \<in> set (pw_list P) \<Longrightarrow> cpu \<in> cpu_valid (pw_pools P' x) \<Longrightarrow>
      pw_cpu P' cpu = Some x \<and> cpu \<notin> pw_free P' \<and> pw_moving P' \<noteq> Some cpu"
  shows "pool_wf P'"
  using assms unfolding pool_wf_def by auto

text \<open>Changes of the reference counts, of the instances and of the domain counts leave the CPUs alone.\<close>

lemma pool_wf_refcnt:
  "pool_wf P \<Longrightarrow> pool_wf (P\<lparr>pw_pools := (pw_pools P)(c := (pw_pools P c)\<lparr>cp_refcnt := n\<rparr>)\<rparr>)"
  by (rule pool_wf_change, assumption) (auto simp: pool_wf_rules split: if_splits)

lemma pool_wf_locked [simp]: "pool_wf (P\<lparr>pw_locked := L\<rparr>) = pool_wf P"
  by (simp add: pool_wf_def)

text \<open>Domain \<open>d\<close> goes from the pool \<open>pw_dom P d\<close> to \<open>c\<close>, either of which may be none.\<close>

definition pool_move :: "nat \<Rightarrow> nat option \<Rightarrow> pool_state \<Rightarrow> pool_state" where
  "pool_move d c P = P\<lparr>pw_dom := (pw_dom P)(d := c),
     pw_pools := (\<lambda>x. (pw_pools P x)\<lparr>n_dom := n_dom (pw_pools P x) - (if pw_dom P d = Some x then 1 else 0)
                                         + (if c = Some x then 1 else 0)\<rparr>)\<rparr>"

lemma pool_wf_move:
  assumes "pool_wf P"
  shows "pool_wf (pool_move d c P)"
proof -
  have dom: "{e. ((pw_dom P)(d := c)) e = Some x} =
      (if c = Some x then insert d {e. pw_dom P e = Some x} else {e. pw_dom P e = Some x} - {d})" for x
    by auto
  have "finite {e. ((pw_dom P)(d := c)) e = Some x} \<and>
      n_dom (pw_pools P x) - (if pw_dom P d = Some x then 1 else 0) + (if c = Some x then 1 else 0)
        = int (card {e. ((pw_dom P)(d := c)) e = Some x})" if "x \<in> set (pw_list P)" for x
  proof -
    note fin = pool_wf_rules(2,3) [OF assms that]
    show ?thesis
    proof (cases "pw_dom P d = Some x")
      case True
      then have "d \<in> {e. pw_dom P e = Some x}" by simp
      moreover from this have "0 < card {e. pw_dom P e = Some x}" using fin(1) card_gt_0_iff by blast
      ultimately show ?thesis
        using fin True unfolding dom by (simp add: card_insert_if card_Diff_singleton of_nat_diff)
    next
      case False
      with fin show ?thesis unfolding dom by (simp add: card_insert_if)
    qed
  qed
  then show ?thesis
    using assms by (simp add: pool_wf_def pool_move_def)
qed

text \<open>A free CPU is given to pool \<open>c\<close>.\<close>

lemma pool_wf_assign:
  assumes "pool_wf P" and "cpu \<in> pw_free P"
  shows "pool_wf (P\<lparr>pw_cpu := (pw_cpu P)(cpu := Some c), pw_free := pw_free P - {cpu},
    pw_moving := (if pw_moving P = Some cpu then None else pw_moving P), pw_target := t,
    pw_pools := (pw_pools P)(c := (pw_pools P c)\<lparr>cpu_valid := insert cpu (cpu_valid (pw_pools P c))\<rparr>)\<rparr>)"
proof -
  have "x \<in> set (pw_list P) \<Longrightarrow> cpu \<notin> cpu_valid (pw_pools P x)" for x
    using pool_wf_rules(5) [OF assms(1)] assms(2) by blast
  then show ?thesis
    using pool_wf_rules(4-6) [OF assms(1)] by (intro pool_wf_change [OF assms(1)]) (auto split: if_splits)
qed

text \<open>A CPU of pool \<open>c\<close>, or the one already moving, starts to move out.\<close>

lemma pool_wf_unassign:
  assumes "pool_wf P" and "c \<in> set (pw_list P)" and "cpu \<in> cpu_valid (pw_pools P c) \<or> pw_moving P = Some cpu"
  shows "pool_wf (P\<lparr>pw_moving := Some cpu, pw_target := t,
    pw_pools := (pw_pools P)(c := (pw_pools P c)\<lparr>cp_refcnt := n, cpu_valid := cpu_valid (pw_pools P c) - {cpu}\<rparr>)\<rparr>)"
proof -
  have "x \<in> set (pw_list P) \<Longrightarrow> x \<noteq> c \<Longrightarrow> cpu \<notin> cpu_valid (pw_pools P x)" for x
    using pool_wf_disjoint [OF assms(1)] pool_wf_rules(6) [OF assms(1)] assms(2,3) by blast
  then show ?thesis
    using pool_wf_rules(4-6) [OF assms(1)] by (intro pool_wf_change [OF assms(1)]) (auto split: if_splits)
qed

text \<open>A CPU in no pool becomes free, or is taken from the free ones.\<close>

lemma pool_wf_free:
  assumes "pool_wf P" and "\<And>c. c \<in> set (pw_list P) \<Longrightarrow> cpu \<notin> cpu_valid (pw_pools P c)"
  shows "pool_wf (P\<lparr>pw_free := insert cpu (pw_free P)\<rparr>)"
    and "pool_wf (P\<lparr>pw_free := insert cpu (pw_free P), pw_cpu := (pw_cpu P)(cpu := b)\<rparr>)"
    and "pool_wf (P\<lparr>pw_free := insert cpu (pw_free P), pw_cpu := (pw_cpu P)(cpu := b), pw_moving := None, pw_target := None\<rparr>)"
  using assms by (auto simp: pool_wf_def)

lemma pool_wf_unfree: "pool_wf P \<Longrightarrow> pool_wf (P\<lparr>pw_free := pw_free P - X\<rparr>)"
  by (auto simp: pool_wf_def)

text \<open>A CPU leaves pool \<open>c\<close> because it goes offline.\<close>

lemma pool_wf_offline:
  "pool_wf P \<Longrightarrow> pool_wf (P\<lparr>pw_pools := (pw_pools P)(c := (pw_pools P c)\<lparr>cpu_suspended := X,
    cpu_valid := cpu_valid (pw_pools P c) - Y\<rparr>)\<rparr>)"
  "pool_wf P \<Longrightarrow> pool_wf (P\<lparr>pw_pools := (pw_pools P)(c := (pw_pools P c)\<lparr>cpu_valid := cpu_valid (pw_pools P c) - Y\<rparr>)\<rparr>)"
  "pool_wf P \<Longrightarrow> pool_wf (P\<lparr>pw_pools := (pw_pools P)(c := (pw_pools P c)\<lparr>cpu_suspended := X\<rparr>)\<rparr>)"
  by (rule pool_wf_change, assumption, (auto simp: pool_wf_rules split: if_splits)[5])+

text \<open>Pools are removed and added.\<close>

lemma pool_wf_remove: "pool_wf P \<Longrightarrow> pool_wf (P\<lparr>pw_list := remove1 c (pw_list P)\<rparr>)"
  using pool_wf_distinct [of P] by (auto simp: pool_wf_def sorted_wrt_filter distinct_remove1_removeAll removeAll_filter_not_eq)

lemma pool_wf_insert:
  assumes "pool_wf P" and "pw_list P = before @ rest" and "c \<notin> set (pw_list P)" and "\<And>d. pw_dom P d \<noteq> Some c"
    and "\<And>x. x \<in> set before \<Longrightarrow> cpupool_id (pw_pools P x) < i" and "\<And>x. x \<in> set rest \<Longrightarrow> i < cpupool_id (pw_pools P x)"
    and "cpupool_id new = i" "cpu_valid new = {}" "n_dom new = 0"
  shows "pool_wf (P\<lparr>pw_pools := (pw_pools P)(c := new), pw_list := before @ c # rest\<rparr>)"
proof -
  let ?f = "(pw_pools P)(c := new)"
  have ne: "x \<noteq> c" if "x \<in> set before \<or> x \<in> set rest" for x using that assms(2,3) by auto
  have "sorted_wrt (\<lambda>a b. cpupool_id (?f a) < cpupool_id (?f b)) (before @ rest)"
    by (rule sorted_wrt_mono_rel [OF _ pool_wf_rules(1) [OF assms(1), unfolded assms(2)]]) (use ne in auto)
  then have "sorted_wrt (\<lambda>a b. cpupool_id (?f a) < cpupool_id (?f b)) (before @ c # rest)"
    using assms(5-7) ne by (auto simp: sorted_wrt_append)
  then show ?thesis
    using assms(1-4,8,9) ne unfolding pool_wf_def by auto
qed

end
