(* ===== verification/Cpupool_Runs.thy ===== *)
theory Cpupool_Runs
  imports Cpupool_Inv
begin

text \<open>
  What each operation of common/cpupool.c does to the abstract state of the pools, and that every
  run of them keeps it well-formed.
\<close>

section \<open>Effects on the abstract state\<close>

text \<open>The pools are under cpupool_lock: other CPUs leave them alone while a call waits.\<close>

definition pool_relax :: "(nat \<Rightarrow> ('v, 'd, 'p, 'g) xen \<Rightarrow> ('v, 'd, 'p, 'g) xen) \<Rightarrow> bool" where
  "pool_relax relax \<longleftrightarrow> (\<forall>v s. pool_view (relax v s) = pool_view s \<and> nr_cpu_ids (relax v s) = nr_cpu_ids s)"

lemma pool_view_fold: "(\<And>v s. pool_view (g v s) = pool_view s) \<Longrightarrow> pool_view (fold g vs s) = pool_view s"
  by (induction vs arbitrary: s) simp_all

text \<open>Dropping a reference to a pool.\<close>

definition pool_put :: "nat \<Rightarrow> pool_state \<Rightarrow> pool_state" where
  "pool_put c P = P\<lparr>pw_pools := (pw_pools P)(c := (pw_pools P c)\<lparr>cp_refcnt := cp_refcnt (pw_pools P c) - 1\<rparr>)\<rparr>"

lemma pool_wf_put: "pool_wf P \<Longrightarrow> pool_wf (pool_put c P)"
  by (simp add: pool_put_def pool_wf_refcnt)

lemma pool_put_sel [simp]:
  "pw_list (pool_put c P) = pw_list P" "pw_cpu (pool_put c P) = pw_cpu P" "pw_dom (pool_put c P) = pw_dom P"
  "pw_free (pool_put c P) = pw_free P" "pw_moving (pool_put c P) = pw_moving P" "pw_zero (pool_put c P) = pw_zero P"
  "cpu_valid (pw_pools (pool_put c P) x) = cpu_valid (pw_pools P x)"
  by (simp_all add: pool_put_def)

lemma pool_view_lock:
  "pool_view (upd_glob (\<lambda>g. g\<lparr>cpupool_locked_cpus := insert cpu (cpupool_locked_cpus g)\<rparr>) s) =
     (pool_view s)\<lparr>pw_locked := insert cpu (cpupool_locked_cpus (glob s))\<rparr>"
  by (simp add: upd_glob_def pool_view_def)

lemma wf_cpu_remove:
  assumes "pool_wf (pool_view s)" and "cpupool_cpu_remove cpu s = (ret, s')"
  shows "pool_wf (pool_view s')"
proof -
  note off = pool_wf_offline(1,2) [OF assms(1), unfolded pool_view_sel]
  show ?thesis
    using assms unfolding cpupool_cpu_remove_def Let_def
    by (auto simp: pool_view_lock pool_view_upd_pool off split: if_splits option.splits)
qed

text \<open>Where a new pool goes: between the smaller and the larger ids.\<close>

lemma create_before_append: "pool_list s = create_before i s @ drop (length (create_before i s)) (pool_list s)"
  unfolding create_before_def by (metis append_take_drop_id takeWhile_eq_take)

lemma sorted_wrt_drop_hd:
  assumes "sorted_wrt (\<lambda>a b. (f a :: int) < f b) xs" and "ys = dropWhile (\<lambda>x. f x < i) xs" and "ys \<noteq> []" and "f (hd ys) \<noteq> i"
    and "x \<in> set ys"
  shows "i < f x"
proof -
  have "\<not> f (hd ys) < i" using assms(2,3) hd_dropWhile by blast
  then have "i < f (hd ys)" using assms(4) by simp
  moreover have "f (hd ys) \<le> f x"
  proof -
    have "sorted_wrt (\<lambda>a b. f a < f b) ys"
      using assms(1) unfolding assms(2) by (metis sorted_wrt_append takeWhile_dropWhile_id)
    with assms(3,5) show ?thesis by (cases ys) auto
  qed
  ultimately show ?thesis by simp
qed

lemma sorted_wrt_last:
  "sorted_wrt (\<lambda>a b. (f a :: int) < f b) xs \<Longrightarrow> x \<in> set xs \<Longrightarrow> f x \<le> f (last xs)"
proof (induction xs)
  case (Cons y ys)
  then show ?case by (cases "ys = []") (auto intro: less_imp_le)
qed simp

lemma create_place:
  fixes i :: int
  assumes "sorted_wrt (\<lambda>a b. cpupool_id (pools s a) < cpupool_id (pools s b)) (pool_list s)"
  defines "before \<equiv> create_before i s"
  defines "rest \<equiv> drop (length before) (pool_list s)"
  assumes "rest = [] \<or> cpupool_id (pools s (hd rest)) \<noteq> i"
  shows "i \<noteq> CPUPOOLID_NONE \<Longrightarrow> x \<in> set before \<Longrightarrow> cpupool_id (pools s x) < i"
    and "i \<noteq> CPUPOOLID_NONE \<Longrightarrow> x \<in> set rest \<Longrightarrow> i < cpupool_id (pools s x)"
    and "i = CPUPOOLID_NONE \<Longrightarrow> before = pool_list s \<and> rest = []"
proof -
  show "cpupool_id (pools s x) < i" if "i \<noteq> CPUPOOLID_NONE" "x \<in> set before"
    using that unfolding before_def create_before_def by (auto dest: set_takeWhileD)
  show "before = pool_list s \<and> rest = []" if "i = CPUPOOLID_NONE"
  proof -
    have "before = pool_list s" using that unfolding before_def create_before_def takeWhile_eq_all_conv by simp
    then show ?thesis by (simp add: rest_def)
  qed
  show "i < cpupool_id (pools s x)" if "i \<noteq> CPUPOOLID_NONE" "x \<in> set rest"
  proof -
    have "rest = dropWhile (\<lambda>c. cpupool_id (pools s c) < i) (pool_list s)"
      using that(1) unfolding rest_def before_def create_before_def by (simp add: dropWhile_eq_drop)
    moreover have "rest \<noteq> []" using that(2) by auto
    ultimately show ?thesis
      using sorted_wrt_drop_hd [OF assms(1)] assms(4) that(2) by blast
  qed
qed

text \<open>
  What the environment provides: a new pool gets an unused address, the pool ids leave room for
  one more.
\<close>

definition alloc_ok :: "alloc \<Rightarrow> ('v, 'd, 'p, 'g) xen \<Rightarrow> bool" where
  "alloc_ok A s \<longleftrightarrow>
     (\<forall>c. al_pool A = Some c \<longrightarrow> c \<notin> set (pool_list s) \<and> (\<forall>d. d_cpupool (domains s d) \<noteq> Some c))
     \<and> (\<forall>c\<in>set (pool_list s). - (2 ^ 31) \<le> cpupool_id (pools s c) \<and> cpupool_id (pools s c) < 2 ^ 31 - 1)"

context pool_contract
begin

lemma view_sleep_wake [simp]:
  "pool_view (vcpu_sleep_nosync E v s) = pool_view s" "pool_view (vcpu_wake E v s) = pool_view s"
  "pool_view (set_flag f v s) = pool_view s" "pool_view (vcpu_move_locked E v c s) = pool_view s"
  "pool_view (SCHED_OP (op_insert_vcpu (E k)) ops v s) = pool_view s"
  "pool_view (SCHED_OP (op_remove_vcpu (E k)) ops v s) = pool_view s"
  by (rule pvw.inv_sleep_nosync pvw.inv_vcpu_wake pvw.inv_flag pvw.inv_move_locked pool_view_erase; simp)+

lemma view_migrate: "vcpu_migrate E v s = Some s' \<Longrightarrow> pool_view s' = pool_view s"
  by (erule pvw.inv_migrate) (rule refl)

lemma view_sleep_sync: "pool_relax relax \<Longrightarrow> pool_view (vcpu_sleep_sync E relax v s) = pool_view s"
  by (simp add: vcpu_sleep_sync_def Let_def pool_relax_def)

lemma view_vcpu_pause [simp]:
  "pool_view (vcpu_pause_nosync E v s) = pool_view s" "pool_view (vcpu_unpause E v s) = pool_view s"
  by (simp_all add: vcpu_pause_nosync_def vcpu_unpause_def add_pause_def Let_def)

lemma view_domain_pause:
  "pool_relax relax \<Longrightarrow> pool_view (domain_pause E relax me d s) = pool_view s"
  "pool_view (domain_unpause E d s) = pool_view s"
  by (simp_all add: domain_pause_def do_domain_pause_def domain_unpause_def Let_def pool_view_fold view_sleep_sync
      pool_view_dom)

lemma view_put: "pool_view (cpupool_put E c s) = pool_put c (pool_view s)"
  by (simp add: cpupool_put_def Let_def scheduler_free_def deinit_frame pool_view_upd_pool pool_put_def)

lemma view_move_vcpus: "pool_view (move_vcpus E c data p vs s) = pool_view s"
  by (induction vs arbitrary: p s) (simp_all add: move_vcpu_def Let_def)

lemma view_sched_move_domain:
  assumes "pool_relax relax" and "sched_move_domain E relax A me d c s = (ret, s')"
  shows "pool_view s' = (if ret = OK then (pool_view s)\<lparr>pw_dom := (pw_dom (pool_view s))(d := Some c)\<rparr> else pool_view s)"
    and "ret \<noteq> OK \<Longrightarrow> s' = s"
  using assms(2) unfolding sched_move_domain_def Let_def
  by (auto split: if_splits simp: view_domain_pause(1) [OF assms(1)] view_domain_pause(2) view_move_vcpus
      pool_view_set_pool pool_view_fold)

lemma view_move_domain:
  assumes "pool_relax relax" and "d_cpupool (domains s d) \<noteq> None"
    and "cpupool_move_domain E relax A me d c s = (ret, s')"
  shows "pool_view s' = (if ret = OK then pool_move d (Some c) (pool_view s) else pool_view s)"
proof (cases "d_cpupool (domains s d) = Some c")
  case True
  with assms(3) show ?thesis
    by (auto simp: cpupool_move_domain_def pool_move_def pool_view_def fun_eq_iff)
next
  case False
  obtain a where a: "d_cpupool (domains s d) = Some a" "a \<noteq> c" using assms(2) False by auto
  obtain r s1 where m: "sched_move_domain E relax A me d c (add_n_dom a (- 1) s) = (r, s1)" by fastforce
  note v = view_sched_move_domain [OF assms(1) m]
  have n: "pool_view (add_n_dom x n t) = (pool_view t)\<lparr>pw_pools := (pools t)(x := (pools t x)\<lparr>n_dom := n_dom (pools t x) + n\<rparr>)\<rparr>"
    for x n and t :: "('v, 'd, 'p, 'g) xen"
    by (simp add: add_n_dom_def pool_view_upd_pool)
  have eq: "ret = r" "s' = (if r = OK then add_n_dom c 1 s1 else add_n_dom (the (d_cpupool (domains s1 d))) 1 s1)"
    using assms(3) a by (auto simp: cpupool_move_domain_def Let_def m)
  show ?thesis
  proof (cases "r = OK")
    case True
    then have "pools s1 = (pools s)(a := (pools s a)\<lparr>n_dom := n_dom (pools s a) - 1\<rparr>)"
      using arg_cong [OF v(1), where f = pw_pools] by (simp add: n)
    with True show ?thesis
      unfolding eq using v(1) a by (simp add: n pool_move_def fun_eq_iff)
  next
    case False
    then have "s1 = add_n_dom a (- 1) s" by (rule v(2))
    then show ?thesis
      unfolding eq using False a by (simp add: n) (simp add: add_n_dom_def upd_pool_def pool_view_def)
  qed
qed

lemma wf_move_domain:
  assumes "pool_relax relax" and "d_cpupool (domains s d) \<noteq> None" and "pool_wf (pool_view s)"
    and "cpupool_move_domain E relax A me d c s = (ret, s')"
  shows "pool_wf (pool_view s')" and "pool_list s' = pool_list s"
    and "d_cpupool (domains s e) \<noteq> None \<Longrightarrow> d_cpupool (domains s' e) \<noteq> None"
    and "cpu_valid (pools s' x) = cpu_valid (pools s x)" and "cpupool_moving_cpu (glob s') = cpupool_moving_cpu (glob s)"
proof -
  note v = view_move_domain [OF assms(1,2,4)]
  show "pool_wf (pool_view s')" using v assms(3) pool_wf_move by simp
  show "pool_list s' = pool_list s" using arg_cong [OF v, where f = pw_list] by (simp add: pool_move_def)
  show "cpu_valid (pools s' x) = cpu_valid (pools s x)"
    using arg_cong [OF v, where f = "\<lambda>P. cpu_valid (pw_pools P x)"] by (simp add: pool_move_def split: if_splits)
  show "cpupool_moving_cpu (glob s') = cpupool_moving_cpu (glob s)"
    using arg_cong [OF v, where f = pw_moving] by (simp add: pool_move_def)
  show "d_cpupool (domains s' e) \<noteq> None" if "d_cpupool (domains s e) \<noteq> None"
    using arg_cong [OF v, where f = "\<lambda>P. pw_dom P e"] that by (simp add: pool_move_def split: if_splits)
qed

lemma wf_evict:
  assumes "pool_relax relax" and "evict_domains E relax A me ds s = (ret, s')"
    and "pool_wf (pool_view s)" and "\<And>d. d \<in> set ds \<Longrightarrow> d_cpupool (domains s d) \<noteq> None"
  shows "pool_wf (pool_view s') \<and> pool_list s' = pool_list s \<and> (\<forall>x. cpu_valid (pools s' x) = cpu_valid (pools s x))
    \<and> cpupool_moving_cpu (glob s') = cpupool_moving_cpu (glob s)"
  using assms(2-)
proof (induction ds arbitrary: s)
  case Nil
  then show ?case by simp
next
  case (Cons d ds)
  show ?case
  proof (cases "d_is_dying (domains s d) = DOMDYING_alive")
    case True
    with Cons.prems(1,2) show ?thesis by auto
  next
    case False
    obtain r s1 where m: "cpupool_move_domain E relax A me d (cpupool0 (glob s)) s = (r, s1)" by fastforce
    have nn: "d_cpupool (domains s d) \<noteq> None" using Cons.prems(3) by simp
    note w = wf_move_domain [OF assms(1) nn Cons.prems(2) m]
    show ?thesis
    proof (cases r)
      case (Inl e)
      with Cons.prems(1) False w show ?thesis by (simp add: m)
    next
      case (Inr u)
      then have "evict_domains E relax A me ds s1 = (ret, s')"
        using Cons.prems(1) False by (simp add: m)
      from Cons.IH [OF this w(1)] w(3) Cons.prems(3) show ?thesis
        using w(2,4,5) by (simp del: not_None_eq)
    qed
  qed
qed

lemma view_disable_vcpus: "disable_vcpus E c cpu vs ret s = Some (r, s') \<Longrightarrow> pool_view s' = pool_view s"
proof (induction vs arbitrary: ret s)
  case Nil
  then show ?case by simp
next
  case (Cons v vs)
  let ?x = "vcpus s v"
  define lost where "lost \<longleftrightarrow> cpu_hard_affinity ?x \<inter> cpu_valid (pools s c) = {} \<and> cpu \<in> cpu_hard_affinity ?x"
  define suspend where "suspend \<longleftrightarrow> system_state (glob s) = SYS_STATE_suspend"
  define s1 where "s1 = (if lost then
      upd_vcpu v (\<lambda>x. x\<lparr>cpu_hard_affinity := cpumask_setall (nr_cpu_ids s)\<rparr>)
        (if suspend
         then upd_vcpu v (\<lambda>x. x\<lparr>cpu_hard_affinity_saved := cpu_hard_affinity x, affinity_broken := True\<rparr>) s else s)
      else s)"
  have s1: "pool_view s1 = pool_view s" by (simp add: s1_def)
  have mig: "vcpu_migrate E v (vcpu_sleep_nosync E v (set_flag VPF_migrating v s1)) = Some t \<Longrightarrow> pool_view t = pool_view s" for t
    using view_migrate [of v _ t] by (simp add: s1)
  have move: "pool_view (vcpu_move_nosched E v x (if b then panic Bug_on s1 else s1)) = pool_view s" for x b
    by (simp add: vcpu_move_nosched_def Let_def s1)
  show ?case
    using Cons.prems Cons.IH mig move s1
    unfolding disable_vcpus.simps Let_def lost_def [symmetric] suspend_def [symmetric] s1_def [symmetric]
    by (auto split: if_splits Option.bind_splits)
qed

lemma view_disable_domains: "disable_domains E c cpu ds ret s = Some (r, s') \<Longrightarrow> pool_view s' = pool_view s"
  by (induction ds arbitrary: ret s) (auto split: Option.bind_splits dest: view_disable_vcpus)

lemma view_disable_scheduler: "cpu_disable_scheduler E cpu s = Some (r, s') \<Longrightarrow> pool_view s' = pool_view s"
  by (auto simp: cpu_disable_scheduler_def split: option.splits dest: view_disable_domains)

lemma view_cpu_switch:
  assumes "schedule_cpu_switch E A cpu c s = (ret, s')"
  shows "pool_view s' = (if ret = OK then (pool_view s)\<lparr>pw_cpu := (pcpu_pool s)(cpu := c)\<rparr> else pool_view s)"
proof -
  let ?new = "case c of None \<Rightarrow> default_ops s | Some p \<Rightarrow> cp_sched (pools s p)"
  define s1 where "s1 = assert (cpu \<in> cpupool_free_cpus (glob (assert (c \<noteq> pcpu_pool s cpu) s))) (assert (c \<noteq> pcpu_pool s cpu) s)"
  define s2 where "s2 = (case (case c of None \<Rightarrow> pcpu_pool s cpu | Some p \<Rightarrow> Some p) of
                  None \<Rightarrow> panic Null_deref s1
                | Some p \<Rightarrow> assert (cpu \<notin> cpu_valid (pools s1 p)) s1)"
  define out where "out = (\<lambda>s::('v, 'd, 'p, 'g) xen. let s' = s\<lparr>pcpu_pool := (pcpu_pool s)(cpu := c)\<rparr>
                     in if c \<noteq> None then cpu_raise_softirq cpu SCHEDULE_SOFTIRQ s' else s')"
  have s2: "pool_view s2 = pool_view s"
    by (simp add: s2_def s1_def split: option.splits)
  have out: "pool_view (out t) = (pool_view s)\<lparr>pw_cpu := (pcpu_pool s)(cpu := c)\<rparr>" if "pool_view t = pool_view s" for t
    using that pool_view_reads(3) [OF that] by (simp add: out_def Let_def pool_view_pcpu_pool)
  obtain e s3 where al: "op_alloc_pdata (E (sched_kind s ?new)) (al_pdata A) ?new cpu s2 = (e, s3)" by fastforce
  have s3: "pool_view s3 = pool_view s"
    using alloc_pdata_frame [of "sched_kind s ?new" "al_pdata A" ?new cpu s2] by (simp add: al s2)
  have hooks: "pool_view (case op_deinit_pdata (E k) of None \<Rightarrow> t | Some f \<Rightarrow> f o1 p cpu t) = pool_view t"
    "pool_view (SCHED_OP (op_tick_suspend (E k)) o1 cpu t) = pool_view t"
    "pool_view (SCHED_OP (op_tick_resume (E k)) o1 cpu t) = pool_view t" for k o1 p t
    by (simp_all add: SCHED_OP_def deinit_pdata_frame tick_suspend_frame tick_resume_frame split: option.splits)
  define s5 where "s5 = (\<lambda>ppriv vpriv. SCHED_OP (op_tick_resume (E (sched_kind s ?new))) ?new cpu
      (op_switch_sched (E (sched_kind s ?new)) ?new cpu ppriv vpriv
        (SCHED_OP (op_tick_suspend (E (sched_kind s3 (pcpu_sched s cpu)))) (pcpu_sched s cpu) cpu s3)))"
  define s7 where "s7 = (\<lambda>ppriv vpriv. case op_deinit_pdata (E (sched_kind (s5 ppriv vpriv) (pcpu_sched s cpu))) of
      None \<Rightarrow> s5 ppriv vpriv
    | Some f \<Rightarrow> f (pcpu_sched s cpu)
        (sd_priv (percpu (SCHED_OP (op_tick_suspend (E (sched_kind s3 (pcpu_sched s cpu)))) (pcpu_sched s cpu) cpu s3) cpu))
        cpu (s5 ppriv vpriv))"
  have s7: "pool_view (s7 p v) = pool_view s" for p v
    unfolding s7_def hooks by (simp add: s5_def hooks switch_frame s3)
  have eq: "schedule_cpu_switch E A cpu c s =
      (if pcpu_sched s cpu = ?new then (OK, out s2)
       else case e of Inl x \<Rightarrow> (Inl x, s3)
          | Inr ppriv \<Rightarrow>
              (case op_alloc_vdata (E (sched_kind s ?new)) (al_vdata A (idle_vcpu s3 cpu)) ?new (idle_vcpu s3 cpu)
                      (d_priv (domains s3 (v_domain (vcpus s3 (idle_vcpu s3 cpu))))) s3 of
                 None \<Rightarrow> (Inl ENOMEM, s3) | Some vpriv \<Rightarrow> (OK, out (s7 ppriv vpriv))))"
    unfolding schedule_cpu_switch_def Let_def s1_def [symmetric] s2_def [symmetric] al out_def s7_def s5_def prod.case ..
  show ?thesis
    using assms s3 unfolding eq by (auto simp: out [OF s2] out [OF s7] split: if_splits sum.splits option.splits)
qed

lemma view_end_move:
  "pool_view (end_move E s) = (pool_put (the (cpupool_cpu_moving (glob s))) (pool_view s))\<lparr>pw_moving := None, pw_target := None\<rparr>"
proof -
  let ?c = "the (cpupool_cpu_moving (glob s))"
  let ?t = "upd_glob (\<lambda>g. g\<lparr>cpupool_moving_cpu := None\<rparr>) s"
  have "pool_view (upd_glob (\<lambda>g. g\<lparr>cpupool_cpu_moving := None\<rparr>) x) = (pool_view x)\<lparr>pw_target := None\<rparr>"
    for x :: "('v, 'd, 'p, 'g) xen"
    by (simp add: pool_view_def upd_glob_def)
  moreover have "pool_view ?t = (pool_view s)\<lparr>pw_moving := None\<rparr>"
    by (simp add: pool_view_def upd_glob_def)
  ultimately show ?thesis
    by (simp add: end_move_def Let_def view_put pool_put_def)
qed

lemma wf_assign:
  assumes "pool_wf (pool_view s)" and "cpu \<in> cpupool_free_cpus (glob s)"
    and "cpupool_assign_cpu_locked E A c cpu s = (ret, s')"
  shows "pool_wf (pool_view s')" and "pool_list s' = pool_list s"
proof -
  let ?P = "pool_view s"
  obtain r s1 where sw: "schedule_cpu_switch E A cpu (Some c) s = (r, s1)" by fastforce
  note v = view_cpu_switch [OF sw]
  have "pool_wf (pool_view s') \<and> pw_list (pool_view s') = pw_list ?P"
  proof (cases "cpupool_moving_cpu (glob s) = Some cpu \<and> Some c \<noteq> cpupool_cpu_moving (glob s) \<or> r \<noteq> OK")
    case True
    then have "pool_view s' = ?P"
      using assms(3) v by (auto simp: cpupool_assign_cpu_locked_def sw split: if_splits sum.splits)
    with assms(1) show ?thesis by simp
  next
    case False
    define s2 where "s2 = unfree_cpu cpu s1"
    define s3 where "s3 = (if cpupool_moving_cpu (glob s2) = Some cpu then end_move E s2 else s2)"
    have s': "s' = upd_pool c (\<lambda>x. x\<lparr>cpu_valid := insert cpu (cpu_valid x)\<rparr>) s3"
      using assms(3) False unfolding cpupool_assign_cpu_locked_def sw Let_def s2_def s3_def by (simp split: if_splits)
    have s1: "pool_view s1 = ?P\<lparr>pw_cpu := (pcpu_pool s)(cpu := Some c)\<rparr>" using v False by simp
    have f: "cpupool_free_cpus (glob s1) = cpupool_free_cpus (glob s)"
      using arg_cong [OF s1, where f = pw_free] by simp
    have s2: "pool_view s2 = ?P\<lparr>pw_cpu := (pcpu_pool s)(cpu := Some c), pw_free := pw_free ?P - {cpu}\<rparr>"
      by (simp add: s2_def pool_view_free s1 f)
    define Q where "Q = (if pw_moving ?P = Some cpu then pool_put (the (cpupool_cpu_moving (glob s2))) ?P else ?P)"
    have Q: "pool_wf Q" "cpu \<in> pw_free Q" "pw_list Q = pw_list ?P"
      using assms(1,2) by (simp_all add: Q_def pool_wf_put)
    have m: "cpupool_moving_cpu (glob s2) = pw_moving ?P"
      using arg_cong [OF s2, where f = pw_moving] by simp
    have "\<exists>t. pool_view s3 = Q\<lparr>pw_cpu := (pw_cpu Q)(cpu := Some c), pw_free := pw_free Q - {cpu},
        pw_moving := (if pw_moving Q = Some cpu then None else pw_moving Q), pw_target := t\<rparr>"
    proof (cases "pw_moving ?P = Some cpu")
      case True
      then show ?thesis
        unfolding s3_def m by (intro exI [of _ None] pool_state.equality) (simp_all add: view_end_move s2 Q_def pool_put_def)
    next
      case False
      then show ?thesis
        unfolding s3_def m by (intro exI [of _ "pw_target ?P"] pool_state.equality) (simp_all add: s2 Q_def)
    qed
    then obtain t where s3: "pool_view s3 = Q\<lparr>pw_cpu := (pw_cpu Q)(cpu := Some c), pw_free := pw_free Q - {cpu},
        pw_moving := (if pw_moving Q = Some cpu then None else pw_moving Q), pw_target := t\<rparr>" ..
    have "pools s3 = pw_pools Q" using arg_cong [OF s3, where f = pw_pools] by simp
    then show ?thesis
      using pool_wf_assign [OF Q(1,2), of c t] Q(3) by (simp add: s' pool_view_upd_pool s3)
  qed
  then show "pool_wf (pool_view s')" and "pool_list s' = pool_list s" by simp_all
qed

lemma wf_unassign_helper:
  assumes "pool_wf (pool_view s)" and "cpupool_moving_cpu (glob s) \<noteq> None"
    and "cpupool_unassign_cpu_helper E A c s = Some (ret, s')"
  shows "pool_wf (pool_view s')"
proof -
  obtain cpu where cpu: "cpupool_moving_cpu (glob s) = Some cpu" using assms(2) by auto
  show ?thesis
  proof (cases "Some c = cpupool_cpu_moving (glob s)")
    case False
    with assms(1,3) show ?thesis by (simp add: cpupool_unassign_cpu_helper_def Let_def)
  next
    case True
    then obtain r s1 where dis: "cpu_disable_scheduler E cpu s = Some (r, s1)"
      and rs: "(ret, s') = (if r = OK
         then (case schedule_cpu_switch E A cpu None (free_cpu cpu s1) of
                 (Inl e, s3) \<Rightarrow> (Inl e, unfree_cpu cpu s3)
               | (Inr _, s3) \<Rightarrow> (OK, end_move E s3))
         else (r, free_cpu cpu s1))"
      using assms(3) unfolding cpupool_unassign_cpu_helper_def Let_def cpu option.sel
      by (auto split: Option.bind_splits if_splits)
    let ?Q = "(pool_view s)\<lparr>pw_free := insert cpu (pw_free (pool_view s))\<rparr>"
    have none: "x \<in> set (pw_list (pool_view s)) \<Longrightarrow> cpu \<notin> cpu_valid (pw_pools (pool_view s) x)" for x
      using pool_wf_rules(6) [OF assms(1)] cpu by simp
    have v1: "pool_view s1 = pool_view s" by (rule view_disable_scheduler [OF dis])
    have f: "pool_view (free_cpu cpu s1) = ?Q"
      using pool_view_reads(6) [OF v1] by (simp add: pool_view_free v1)
    obtain e s3 where sw: "schedule_cpu_switch E A cpu None (free_cpu cpu s1) = (e, s3)" by fastforce
    note v3 = view_cpu_switch [OF sw, unfolded f]
    have p: "pcpu_pool (free_cpu cpu s1) = pcpu_pool s"
      using arg_cong [OF f, where f = pw_cpu] by simp
    have wf: "pool_wf (pool_view s3)"
      using v3 pool_wf_free(1,2) [OF assms(1) none] by (simp add: p)
    have m: "e = OK \<Longrightarrow> pool_view (end_move E s3) = pool_put (the (cpupool_cpu_moving (glob s3)))
        ((pool_view s)\<lparr>pw_free := insert cpu (pw_free (pool_view s)),
           pw_cpu := (pw_cpu (pool_view s))(cpu := None), pw_moving := None, pw_target := None\<rparr>)"
      by (simp add: view_end_move v3 pool_put_def p)
    have fr: "pool_view (unfree_cpu cpu s3) = (pool_view s3)\<lparr>pw_free := pw_free (pool_view s3) - {cpu}\<rparr>"
      by (simp add: pool_view_free)
    show ?thesis
      using rs wf m pool_wf_put [OF pool_wf_free(3) [OF assms(1) none]] pool_wf_free(1) [OF assms(1) none]
        pool_wf_unfree [OF wf, of "{cpu}"]
      by (auto simp: sw f fr split: if_splits sum.splits)
  qed
qed

lemma view_continue: "continue_hypercall_on_cpu E A me cpu s = (ret, s') \<Longrightarrow> pool_view s' = pool_view s"
  by (auto simp: continue_hypercall_on_cpu_def split: if_splits)

lemma in_pool_not_None: "d \<in> set (domains_in_cpupool s c) \<Longrightarrow> d_cpupool (domains s d) \<noteq> None"
  by (simp add: domains_in_cpupool_def)

lemma wf_unassign:
  assumes "pool_relax relax" and "pool_wf (pool_view s)" and c: "c \<in> set (pool_list s)"
    and "cpupool_unassign_cpu E relax A me c cpu s = (ret, s')"
  shows "pool_wf (pool_view s')"
proof -
  define moving where "moving = cpupool_moving_cpu (glob s)"
  obtain e s1 where ev: "(if n_dom (pools s c) > 0 \<and> card (cpu_valid (pools s c)) = 1 \<and> moving \<noteq> Some cpu
      then evict_domains E relax A me (domains_in_cpupool s c) s else (OK, s)) = (e, s1)" by fastforce
  have w: "pool_wf (pool_view s1) \<and> pool_list s1 = pool_list s \<and> (\<forall>x. cpu_valid (pools s1 x) = cpu_valid (pools s x))
      \<and> cpupool_moving_cpu (glob s1) = moving"
    using ev wf_evict [OF assms(1) _ assms(2) in_pool_not_None] assms(2) by (auto simp: moving_def split: if_splits)
  define s2 where "s2 = upd_glob (\<lambda>g. g\<lparr>cpupool_moving_cpu := Some cpu, cpupool_cpu_moving := Some c\<rparr>)
    (upd_pool c (\<lambda>x. x\<lparr>cp_refcnt := cp_refcnt x + 1, cpu_valid := cpu_valid x - {cpu}\<rparr>) s1)"
  have s2: "pool_view s2 = (pool_view s1)\<lparr>pw_moving := Some cpu, pw_target := Some c,
    pw_pools := (pools s1)(c := (pools s1 c)\<lparr>cp_refcnt := cp_refcnt (pools s1 c) + 1, cpu_valid := cpu_valid (pools s1 c) - {cpu}\<rparr>)\<rparr>"
    by (simp add: s2_def pool_view_def upd_glob_def upd_pool_def)
  have wf2: "pool_wf (pool_view s2)" if "cpu \<in> cpu_valid (pools s c) \<or> moving = Some cpu"
    using pool_wf_unassign [where P = "pool_view s1" and c = c and cpu = cpu and t = "Some c" and n = "cp_refcnt (pools s1 c) + 1"]
      w c that by (simp add: s2)
  show ?thesis
    using assms(2,4) w wf2 view_continue
    unfolding cpupool_unassign_cpu_def Let_def moving_def [symmetric] ev s2_def [symmetric] prod.case
    by (auto split: if_splits sum.splits)
qed

lemma wf_cpu_add:
  assumes "pool_wf (pool_view s)" and "\<And>c. c \<in> set (pool_list s) \<Longrightarrow> cpu \<notin> cpu_valid (pools s c)"
    and "cpupool_cpu_add E A cpu s = (ret, s')"
  shows "pool_wf (pool_view s')"
proof -
  define s1 where "s1 = free_cpu cpu (upd_glob (\<lambda>g. g\<lparr>cpupool_locked_cpus := cpupool_locked_cpus g - {cpu}\<rparr>) s)"
  have v: "pool_view s1 = (pool_view s)\<lparr>pw_free := insert cpu (pw_free (pool_view s)), pw_locked := cpupool_locked_cpus (glob s) - {cpu}\<rparr>"
    by (simp add: s1_def free_cpu_def upd_glob_def pool_view_def)
  have wf: "pool_wf (pool_view s1)" "cpu \<in> cpupool_free_cpus (glob s1)"
    using pool_wf_free(1) [OF assms(1), of cpu] assms(2) by (simp add: v) (simp add: s1_def free_cpu_def upd_glob_def)
  have susp: "pool_wf (pool_view t) \<Longrightarrow> pool_wf (pool_view (upd_pool c (\<lambda>x. x\<lparr>cpu_suspended := cpu_suspended x - {cpu}\<rparr>) t))" for t c
    using pool_wf_offline(3) [of "pool_view t" c "cpu_suspended (pools t c) - {cpu}"] by (simp add: pool_view_upd_pool)
  show ?thesis
    using assms(3) wf unfolding cpupool_cpu_add_def Let_def s1_def [symmetric]
    by (auto split: if_splits option.splits sum.splits prod.splits intro!: susp intro: wf_assign(1) [OF wf])
qed

lemma wf_callback:
  assumes "pool_wf (pool_view s)" and "cpu_callback E A action cpu s = (ret, s')"
    and "action = CPU_ONLINE \<or> action = CPU_DOWN_FAILED \<Longrightarrow> \<forall>c\<in>set (pool_list s). cpu \<notin> cpu_valid (pools s c)"
  shows "pool_wf (pool_view s')"
  using assms by (cases action) (auto simp: cpu_callback_def intro: wf_cpu_add wf_cpu_remove)

lemma view_scheduler_alloc: "scheduler_alloc E registered A k s = (r, s1) \<Longrightarrow> pool_view s1 = pool_view s"
proof -
  assume al: "scheduler_alloc E registered A k s = (r, s1)"
  have "pool_view (snd (op_init (E k) b a (s\<lparr>sched_kind := x\<rparr>))) = pool_view s" for b a x
    by (simp add: init_frame) (simp add: pool_view_def)
  then show ?thesis
    using al unfolding scheduler_alloc_def
    by (auto split: if_splits option.splits prod.splits sum.splits) (metis snd_conv)+
qed

lemma view_create_error: "cpupool_create E registered A i k s = (Inl e, s') \<Longrightarrow> pool_view s' = pool_view s"
  using view_scheduler_alloc [of registered A k s] unfolding cpupool_create_def Let_def
  by (auto split: if_splits option.splits prod.splits sum.splits)

lemma view_create:
  assumes "cpupool_create E registered A i k s = (Inr c, s')"
  defines "before \<equiv> create_before i s"
  defines "rest \<equiv> drop (length before) (pool_list s)"
  defines "newid \<equiv> (if i = CPUPOOLID_NONE
    then s32 ((if before = [] then 0 else cpupool_id (pools s (last before))) + 1) else i)"
  shows "al_pool A = Some c" and "rest = [] \<or> cpupool_id (pools s (hd rest)) \<noteq> i"
    and "\<exists>ops. pool_view s' = (pool_view s)\<lparr>pw_pools := (pools s)(c := \<lparr>cpupool_id = newid,
      cpu_valid = {}, cpu_suspended = {}, n_dom = 0, cp_sched = ops, cp_refcnt = 2\<rparr>), pw_list := before @ c # rest\<rparr>"
proof -
  show al: "al_pool A = Some c" and "rest = [] \<or> cpupool_id (pools s (hd rest)) \<noteq> i"
    using assms(1) unfolding cpupool_create_def Let_def before_def [symmetric] rest_def [symmetric]
    by (auto split: if_splits option.splits prod.splits sum.splits)
  obtain ops s1 where s1: "pool_view s1 = pool_view s" and s': "s' = s1\<lparr>pools := (pools s1)(c := \<lparr>cpupool_id = newid,
      cpu_valid = {}, cpu_suspended = {}, n_dom = 0, cp_sched = ops, cp_refcnt = 2\<rparr>), pool_list := before @ c # rest\<rparr>"
    using assms(1) al view_scheduler_alloc [of registered A k s] unfolding cpupool_create_def Let_def before_def [symmetric]
      rest_def [symmetric] newid_def [symmetric]
    by (auto split: if_splits prod.splits sum.splits)
  show "\<exists>ops. pool_view s' = (pool_view s)\<lparr>pw_pools := (pools s)(c := \<lparr>cpupool_id = newid,
      cpu_valid = {}, cpu_suspended = {}, n_dom = 0, cp_sched = ops, cp_refcnt = 2\<rparr>), pw_list := before @ c # rest\<rparr>"
    unfolding s' s1 [symmetric] using pool_view_reads(1) [OF s1] by (intro exI [of _ ops]) (simp add: pool_view_def)
qed

lemma wf_create:
  assumes "pool_wf (pool_view s)" and "cpupool_create E registered A i k s = (ret, s')" and "alloc_ok A s"
  shows "pool_wf (pool_view s')"
proof (cases ret)
  case (Inl e)
  with assms(1,2) view_create_error show ?thesis by metis
next
  case (Inr c)
  define before where "before = create_before i s"
  define rest where "rest = drop (length before) (pool_list s)"
  define newid where "newid = (if i = CPUPOOLID_NONE
    then s32 ((if before = [] then 0 else cpupool_id (pools s (last before))) + 1) else i)"
  note cr = view_create [OF assms(2) [unfolded Inr], folded before_def, folded rest_def newid_def]
  have so: "sorted_wrt (\<lambda>a b. cpupool_id (pools s a) < cpupool_id (pools s b)) (pool_list s)"
    using pool_wf_rules(1) [OF assms(1)] by simp
  note place = create_place [OF so, of i, folded before_def, folded rest_def, OF cr(2)]
  have app: "pool_list s = before @ rest" unfolding rest_def before_def by (rule create_before_append)
  have ids: "cpupool_id (pools s x) < newid" if x: "x \<in> set before" for x
  proof (cases "i = CPUPOOLID_NONE")
    case True
    have "last before \<in> set (pool_list s)" "before = pool_list s"
      using place(3) [OF True] x last_in_set [of before] by fastforce+
    with assms(3) x sorted_wrt_last [OF so, of x] show ?thesis
      using True by (auto simp: newid_def s32_id alloc_ok_def)
  next
    case False
    with place(1) x show ?thesis by (simp add: newid_def)
  qed
  have larger: "newid < cpupool_id (pools s x)" if "x \<in> set rest" for x
    using that place(2,3) by (cases "i = CPUPOOLID_NONE") (auto simp: newid_def)
  from cr(3) pool_wf_insert [OF assms(1), of before rest c newid] app assms(3) cr(1) ids larger show ?thesis
    by (auto simp: alloc_ok_def)
qed

lemma wf_destroy:
  assumes "pool_wf (pool_view s)" and "cpupool_destroy E c s = (ret, s')"
  shows "pool_wf (pool_view s')"
proof -
  have "pool_view (s\<lparr>pool_list := xs\<rparr>) = (pool_view s)\<lparr>pw_list := xs\<rparr>" for xs
    by (simp add: pool_view_def)
  with assms pool_wf_put [OF pool_wf_remove [OF assms(1), of c], of c] show ?thesis
    by (auto simp: cpupool_destroy_def view_put split: if_splits)
qed

lemma view_get:
  assumes "cpupool_get i b s = (r, s')"
  shows "pool_wf (pool_view s) \<Longrightarrow> pool_wf (pool_view s')" and "pool_list s' = pool_list s"
    and "r = Some c \<Longrightarrow> c \<in> set (pool_list s)"
proof -
  have "cpupool_find i b s = Some c \<Longrightarrow> c \<in> set (pool_list s)" for c
    by (auto simp: cpupool_find_def find_Some_iff split: option.splits if_splits)
  then show "r = Some c \<Longrightarrow> c \<in> set (pool_list s)"
    using assms by (auto simp: cpupool_get_def split: option.splits)
  show "pool_list s' = pool_list s"
    using assms by (auto simp: cpupool_get_def upd_pool_def split: option.splits)
  show "pool_wf (pool_view s')" if "pool_wf (pool_view s)"
    using assms that pool_wf_refcnt [OF that] by (auto simp: cpupool_get_def pool_view_upd_pool split: option.splits)
qed

lemma view_add_domain:
  assumes "d_cpupool (domains s d) = None" and "cpupool_add_domain d i s = (ret, s')"
  shows "pool_view s' = pool_view s \<or> (\<exists>c. pool_view s' = pool_move d (Some c) (pool_view s))"
proof -
  have "pool_view (upd_dom d (\<lambda>x. x\<lparr>d_cpupool := Some c\<rparr>) (add_n_dom c 1 s)) = pool_move d (Some c) (pool_view s)" for c
    using assms(1) by (intro pool_state.equality) (simp_all add: pool_view_set_pool add_n_dom_def pool_view_upd_pool pool_move_def fun_eq_iff)
  with assms(2) show ?thesis
    by (auto simp: cpupool_add_domain_def split: if_splits option.splits)
qed

lemma wf_init_domain:
  assumes "pool_wf (pool_view s)" and "d_cpupool (domains s d) = None" and "sched_init_domain E A d i s = (ret, s')"
  shows "pool_wf (pool_view s')"
proof -
  obtain r s1 where add: "cpupool_add_domain d i s = (r, s1)" by fastforce
  have "pool_wf (pool_view s1)"
    using view_add_domain [OF assms(2) add] assms(1) pool_wf_move [OF assms(1), of d] by auto
  moreover have "pool_view s' = pool_view s1"
    using assms(2,3) add init_domain_frame [of "sched_kind s1 (dom_scheduler s1 d)" "al_domdata A d" "dom_scheduler s1 d" d s1]
    by (auto simp: sched_init_domain_def assert_def split: sum.splits)
  ultimately show ?thesis by simp
qed

lemma wf_destroy_domain:
  assumes "pool_wf (pool_view s)"
  shows "pool_wf (pool_view (sched_destroy_domain E d s))"
proof -
  define s1 where "s1 = assert (d_cpupool (domains s d) \<noteq> None \<or> is_idle_domain s d) s"
  define s2 where "s2 = op_destroy_domain (E (sched_kind s1 (dom_scheduler s1 d))) (dom_scheduler s1 d) d s1"
  have s2: "pool_view s2 = pool_view s" by (simp add: s2_def s1_def destroy_domain_frame)
  have "pool_view (cpupool_rm_domain d s2) = (if d_cpupool (domains s2 d) = None then pool_view s2 else pool_move d None (pool_view s2))"
    by (auto simp: cpupool_rm_domain_def add_n_dom_def pool_view_set_pool pool_view_upd_pool pool_move_def fun_eq_iff
        split: option.splits intro!: pool_state.equality)
  then show ?thesis
    using assms pool_wf_move [OF assms, of d None]
    unfolding sched_destroy_domain_def Let_def s1_def [symmetric] s2_def [symmetric] by (simp add: s2)
qed

lemma wf_kill:
  assumes "pool_relax relax" and "pool_wf (pool_view s)" and "d_cpupool (domains s d) \<noteq> None"
    and "domain_kill E relax A me relinquish d s = (ret, s')"
  shows "pool_wf (pool_view s')"
proof -
  define s1 where "s1 = (if d_is_dying (domains s d) = DOMDYING_alive
    then upd_dom d (\<lambda>x. x\<lparr>d_is_dying := DOMDYING_dying\<rparr>) (domain_pause E relax me d s) else s)"
  have s1: "pool_view s1 = pool_view s"
    by (simp add: s1_def pool_view_dom view_domain_pause(1) [OF assms(1)])
  have wf1: "pool_wf (pool_view s1)" "d_cpupool (domains s1 d) \<noteq> None"
    unfolding s1 using assms(2,3) pool_view_reads(4) [OF s1, of d] by simp_all
  obtain r s2 where m: "cpupool_move_domain E relax A me d (cpupool0 (glob s1)) s1 = (r, s2)" by fastforce
  have "pool_wf (pool_view s2)" by (rule wf_move_domain(1) [OF assms(1) wf1(2,1) m])
  then show ?thesis
    using assms(2,4) wf1(1) unfolding domain_kill_def Let_def s1_def [symmetric] m
    by (auto simp: pool_view_dom split: if_splits sum.splits)
qed

lemma wf_put: "pool_wf (pool_view s) \<Longrightarrow> pool_wf (pool_view (cpupool_put E c s))"
  by (simp add: view_put pool_wf_put)

lemma wf_sysctl_create:
  assumes "pool_wf (pool_view s)" and "alloc_ok A s"
    and "cpupool_do_sysctl E registered relax A copy me (CPUPOOL_OP_CREATE i k) s = (r, s')"
  shows "pool_wf (pool_view s')"
proof -
  let ?i = "if i = XEN_SYSCTL_CPUPOOL_PAR_ANY then CPUPOOLID_NONE else s32 (int i)"
  obtain ret s1 where c: "cpupool_create E registered A ?i k s = (ret, s1)" by fastforce
  have "pool_wf (pool_view s1)"
    by (rule wf_create [OF assms(1) c assms(2)])
  with assms(3) wf_put show ?thesis
    by (auto simp: cpupool_do_sysctl_def Let_def c split: sum.splits)
qed

lemma wf_sysctl_remove:
  assumes "pool_relax relax" and "pool_wf (pool_view s)"
    and "cpupool_do_sysctl E registered relax A copy me (CPUPOOL_OP_RMCPU i n) s = (r, s')"
  shows "pool_wf (pool_view s')"
proof -
  obtain p s1 where g: "cpupool_get (s32 (int i)) True s = (p, s1)" by fastforce
  note w = view_get(1) [OF g assms(2)] view_get(2,3) [OF g]
  show ?thesis
  proof (cases p)
    case None
    with assms(3) w(1) show ?thesis by (simp add: cpupool_do_sysctl_def cpupool_get_by_id_def g)
  next
    case (Some c)
    define cpu where "cpu = (if n = XEN_SYSCTL_CPUPOOL_PAR_ANY then cpumask_last (nr_cpu_ids s1) (cpu_valid (pools s1 c)) else n)"
    obtain ret s2 where u: "(if cpu < nr_cpu_ids s1 then cpupool_unassign_cpu E relax A me c cpu s1
        else (Inl EINVAL, s1)) = (ret, s2)" by fastforce
    then have "pool_wf (pool_view s2)"
      using wf_unassign [OF assms(1) w(1)] w Some by (auto split: if_splits)
    moreover have "s' = cpupool_put E c s2"
      using assms(3) unfolding cpupool_do_sysctl_def cpupool_op.case cpupool_get_by_id_def g Some option.case prod.case Let_def
        cpu_def [symmetric] u by simp
    ultimately show ?thesis by (simp add: wf_put)
  qed
qed

lemma wf_sysctl:
  assumes "pool_relax relax" and "pool_wf (pool_view s)" and "alloc_ok A s"
    and "cpupool_do_sysctl E registered relax A copy me op s = (r, s')"
  shows "pool_wf (pool_view s')"
proof (cases op)
  case (CPUPOOL_OP_CREATE i k)
  with assms wf_sysctl_create show ?thesis by blast
next
  case (CPUPOOL_OP_RMCPU i n)
  with assms wf_sysctl_remove show ?thesis by blast
next
  case (CPUPOOL_OP_DESTROY i)
  then show ?thesis
    using assms(2,4) by (auto simp: cpupool_do_sysctl_def cpupool_get_by_id_def split: option.splits prod.splits
        intro: view_get(1) wf_destroy intro!: wf_put)
next
  case (CPUPOOL_OP_INFO i)
  then show ?thesis
    using assms(2,4) by (auto simp: cpupool_do_sysctl_def cpupool_get_next_by_id_def split: option.splits prod.splits
        intro: view_get(1) intro!: wf_put)
next
  case (CPUPOOL_OP_ADDCPU i n)
  then show ?thesis
    using assms(2,4) by (auto simp: cpupool_do_sysctl_def Let_def split: option.splits prod.splits if_splits
        intro: wf_assign(1) [OF assms(2)])
next
  case (CPUPOOL_OP_MOVEDOMAIN i domid)
  then show ?thesis
    using assms(2,4)
    by (auto simp: cpupool_do_sysctl_def split: option.splits prod.splits if_splits sum.splits
        intro: wf_move_domain(1) [OF assms(1) _ assms(2)])
qed (use assms(2,4) in \<open>simp_all add: cpupool_do_sysctl_def\<close>)

end

section \<open>Runs\<close>

text \<open>
  A step of the pools: the control operation, the tasklet that ends the removal of a CPU, CPU
  hotplug, the start and end of domains, and anything that leaves the pools alone, such as the
  steps of the generic layer. A CPU that comes online is in no pool.
\<close>

inductive pool_step ::
  "('v, 'd, 'p, 'g) sched_env \<Rightarrow> ('v, 'd, 'p, 'g) xen \<Rightarrow> ('v, 'd, 'p, 'g) xen \<Rightarrow> bool" for E where
  sysctl: "pool_relax relax \<Longrightarrow> alloc_ok A s \<Longrightarrow>
    cpupool_do_sysctl E registered relax A copy me op s = (r, s') \<Longrightarrow> pool_step E s s'"
| helper: "cpupool_moving_cpu (glob s) \<noteq> None \<Longrightarrow> cpupool_unassign_cpu_helper E A c s = Some (rc, s') \<Longrightarrow> pool_step E s s'"
| callback: "(action = CPU_ONLINE \<or> action = CPU_DOWN_FAILED \<Longrightarrow> \<forall>c\<in>set (pool_list s). cpu \<notin> cpu_valid (pools s c)) \<Longrightarrow>
    cpu_callback E A action cpu s = (rc, s') \<Longrightarrow> pool_step E s s'"
| init_domain: "d_cpupool (domains s d) = None \<Longrightarrow> sched_init_domain E A d i s = (rc, s') \<Longrightarrow> pool_step E s s'"
| destroy_domain: "pool_step E s (sched_destroy_domain E d s)"
| kill: "pool_relax relax \<Longrightarrow> d_cpupool (domains s d) \<noteq> None \<Longrightarrow>
    domain_kill E relax A me relinquish d s = (rc, s') \<Longrightarrow> pool_step E s s'"
| generic: "sched_step E s s' \<Longrightarrow> pool_step E s s'"
| other: "pool_view s' = pool_view s \<Longrightarrow> pool_step E s s'"

inductive pool_steps ::
  "('v, 'd, 'p, 'g) sched_env \<Rightarrow> ('v, 'd, 'p, 'g) xen \<Rightarrow> ('v, 'd, 'p, 'g) xen \<Rightarrow> bool" for E where
  none: "pool_steps E s s"
| more: "pool_steps E s t \<Longrightarrow> pool_step E t u \<Longrightarrow> pool_steps E s u"

context pool_contract
begin

lemma wf_step:
  assumes "pool_wf (pool_view s)" and "pool_step E s s'"
  shows "pool_wf (pool_view s')"
  using assms(2)
proof cases
  case generic
  then have "pool_view s' = pool_view s" by (rule pvw.inv_step) (rule refl)
  with assms(1) show ?thesis by simp
qed (use assms(1) in \<open>auto intro: wf_sysctl wf_unassign_helper wf_callback wf_init_domain wf_destroy_domain wf_kill\<close>)

lemma wf_steps: "pool_steps E s s' \<Longrightarrow> pool_wf (pool_view s) \<Longrightarrow> pool_wf (pool_view s')"
  by (induction rule: pool_steps.induct) (auto intro: wf_step)

end

end
