(* ===== verification/Cpupool_Props.thy ===== *)
theory Cpupool_Props
  imports Cpupool_Runs Schedule_Fp
begin

text \<open>
  What the cpupools guarantee, for every scheduler whose hooks leave them alone; the
  fixed-priority scheduler is one, and the examples run it.
\<close>

declare not_None_eq [simp del]

section \<open>The fixed-priority scheduler leaves the pools alone\<close>

interpretation fpp: pool_contract fp_env
proof
  show "pool_view (op_switch_sched (fp_env k) ops cpu p v s) = pool_view s" for k ops cpu p v s
    by (simp add: fp_env_def sched_fp_def_def fp_switch_sched_def Let_def) (simp add: pool_view_def)
qed (simp_all add: fp_env_def sched_fp_def_def fp_init_def fp_deinit_def fp_alloc_pdata_def fp_init_domain_def
    fp_destroy_domain_def Let_def pool_view_dom split: option.splits, simp_all add: pool_view_def)

text \<open>Two pools: pool 0 with CPU 0 and the three domains, pool 1 with CPU 1 and none.\<close>

definition demo_pools :: fp_xen where
  "demo_pools = demo_two\<lparr>nr_cpu_ids := 2, pool_list := [0, 1], pcpu_pool := (\<lambda>c. Some c),
     pools := (pools demo_two)(1 := \<lparr>cpupool_id = 1, cpu_valid = {1}, cpu_suspended = {}, n_dom = 0,
                                     cp_sched = 0, cp_refcnt = 1\<rparr>)\<rparr>"

lemma demo_pools_sel [simp]:
  "pool_list demo_pools = [0, 1]" "pcpu_pool demo_pools c = Some c" "nr_cpu_ids demo_pools = 2"
  "pools demo_pools 0 = \<lparr>cpupool_id = 0, cpu_valid = {0}, cpu_suspended = {}, n_dom = 3, cp_sched = 0, cp_refcnt = 1\<rparr>"
  "pools demo_pools (Suc 0) = \<lparr>cpupool_id = 1, cpu_valid = {1}, cpu_suspended = {}, n_dom = 0, cp_sched = 0, cp_refcnt = 1\<rparr>"
  "d_cpupool (domains demo_pools d) = (if d < 3 then Some 0 else None)"
  "glob demo_pools = demo_globals" "sched_kind demo_pools x = XEN_SCHEDULER_FP" "pcpu_sched demo_pools c = 0"
  "fault demo_pools = None" "dom_vcpus (domains demo_pools d) = (if d < 3 then [d] else [])"
  "affinity_broken (vcpus demo_pools v) = False"
  by (simp_all add: demo_pools_def demo_two_def fp_demo_def demo_domain_def demo_vcpu_def)

lemma demo_pools_wf: "pool_wf (pool_view demo_pools)"
proof -
  have "{d::nat. (if d < 3 then Some 0 else None) = Some c} = (if c = (0::nat) then {..<3} else {})" for c
    by auto
  then show ?thesis
    by (simp add: pool_wf_def demo_globals_def)
qed

section \<open>Well-formedness\<close>


text \<open>CPU 1 is taken out of pool 1: first from the pool, then from its scheduler.\<close>

definition demo_alloc :: alloc where
  "demo_alloc = \<lparr>al_pool = Some 7, al_sched = Some 8, al_init = True, al_domdata = (\<lambda>_. True), al_array = (\<lambda>_. True),
     al_vdata = (\<lambda>_. True), al_pdata = True, al_info = True\<rparr>"

lemma demo_alloc_ok: "alloc_ok demo_alloc demo_pools"
  by (simp add: alloc_ok_def demo_alloc_def)


section \<open>Creating and finding pools\<close>

text \<open>In a sorted list of pools, the search by id finds the pool with this id.\<close>

lemma find_by_id_sorted:
  assumes "sorted_wrt (\<lambda>a b. cpupool_id (pools s a) < cpupool_id (pools s b)) (pool_list s)"
  shows "cpupool_find_by_id i s = Some c \<longleftrightarrow> c \<in> set (pool_list s) \<and> cpupool_id (pools s c) = i"
proof -
  have "(case find (\<lambda>c. f c \<ge> i) xs of None \<Rightarrow> None | Some c \<Rightarrow> if f c = i then Some c else None) = Some c
      \<longleftrightarrow> c \<in> set xs \<and> f c = i" if "sorted_wrt (\<lambda>a b. f a < f b) xs" for f :: "nat \<Rightarrow> int" and xs
    using that by (induction xs) auto
  from this [OF assms] show ?thesis
    by (simp add: cpupool_find_by_id_def cpupool_find_def cong: option.case_cong)
qed

lemma find_by_id_cong:
  assumes "sorted_wrt (\<lambda>a b. cpupool_id (pools s a) < cpupool_id (pools s b)) (pool_list s)"
    and "sorted_wrt (\<lambda>a b. cpupool_id (pools t a) < cpupool_id (pools t b)) (pool_list t)"
    and "\<And>c. c \<in> set (pool_list t) \<and> cpupool_id (pools t c) = i \<longleftrightarrow> c \<in> set (pool_list s) \<and> cpupool_id (pools s c) = i"
  shows "cpupool_find_by_id i t = cpupool_find_by_id i s"
proof -
  have "cpupool_find_by_id i t = Some c \<longleftrightarrow> cpupool_find_by_id i s = Some c" for c
    using find_by_id_sorted [OF assms(1)] find_by_id_sorted [OF assms(2)] assms(3) by simp
  then show ?thesis by (metis option.exhaust)
qed

lemma pool_view_sorted:
  "pool_wf (pool_view s) \<Longrightarrow> sorted_wrt (\<lambda>a b. cpupool_id (pools s a) < cpupool_id (pools s b)) (pool_list s)"
  using pool_wf_rules(1) [of "pool_view s"] by simp

lemma create_taken:
  assumes "pool_wf (pool_view s)" and "i \<noteq> CPUPOOLID_NONE" and "cpupool_find_by_id i s = Some p" and "al_pool A \<noteq> None"
  shows "cpupool_create E registered A i k s = (Inl EEXIST, s)"
proof -
  define rest where "rest = drop (length (create_before i s)) (pool_list s)"
  note so = pool_view_sorted [OF assms(1)]
  have p: "p \<in> set (pool_list s)" "cpupool_id (pools s p) = i"
    using assms(3) find_by_id_sorted [OF so] by auto
  have "rest \<noteq> [] \<and> cpupool_id (pools s (hd rest)) = i"
  proof (rule ccontr)
    assume "\<not> ?thesis"
    then have "rest = [] \<or> cpupool_id (pools s (hd rest)) \<noteq> i" by blast
    from create_place(1,2) [OF so this [unfolded rest_def] assms(2)] p create_before_append [of s i]
    show False by (metis Un_iff less_irrefl set_append)
  qed
  with assms(4) show ?thesis
    unfolding cpupool_create_def Let_def rest_def [symmetric] by (simp split: option.split)
qed

lemma create_then_destroy:
  assumes "pool_contract E" and "pool_wf (pool_view s)" and "alloc_ok A s"
    and "cpupool_create E registered A i k s = (Inr c, s')"
  obtains s2 where "cpupool_destroy E c s' = (OK, s2)" and "pool_list s2 = pool_list s"
    and "\<And>x. x \<noteq> c \<Longrightarrow> cpupool_id (pools s2 x) = cpupool_id (pools s x)"
proof -
  define before where "before = create_before i s"
  define rest where "rest = drop (length before) (pool_list s)"
  note cr = pool_contract.view_create [OF assms(1,4), folded before_def, folded rest_def]
  have app: "pool_list s = before @ rest" unfolding rest_def before_def by (rule create_before_append)
  have fresh: "c \<notin> set before" using assms(3) cr(1) app by (auto simp: alloc_ok_def)
  obtain x where x: "pool_view s' = (pool_view s)\<lparr>pw_pools := (pools s)(c := x), pw_list := before @ c # rest\<rparr>"
    "cpu_valid x = {}" "n_dom x = 0" using cr(3) by fastforce
  have s': "pool_list s' = before @ c # rest" "pools s' = (pools s)(c := x)"
    using arg_cong [OF x(1), where f = pw_list] arg_cong [OF x(1), where f = pw_pools] by simp_all
  let ?s2 = "cpupool_put E c (s'\<lparr>pool_list := before @ rest\<rparr>)"
  have "pool_view ?s2 = pool_put c ((pool_view s')\<lparr>pw_list := before @ rest\<rparr>)"
    unfolding pool_contract.view_put [OF assms(1)] by (simp add: pool_view_def)
  from arg_cong [OF this, where f = pw_list] arg_cong [OF this, where f = pw_pools]
  have "pool_list ?s2 = pool_list s" "\<And>y. y \<noteq> c \<Longrightarrow> cpupool_id (pools ?s2 y) = cpupool_id (pools s y)"
    by (simp_all add: app pool_put_def s')
  moreover have "cpupool_destroy E c s' = (OK, ?s2)"
    using fresh by (simp add: cpupool_destroy_def s' x remove1_append)
  ultimately show ?thesis using that by blast
qed

lemma create_finds:
  assumes "pool_contract E" and "pool_wf (pool_view s)" and "alloc_ok A s"
    and "cpupool_create E registered A i k s = (Inr c, s')"
  defines "new \<equiv> cpupool_id (pools s' c)"
  shows "c \<notin> set (pool_list s)" and "i \<noteq> CPUPOOLID_NONE \<Longrightarrow> new = i" and "cpupool_find_by_id new s' = Some c"
    and "j \<noteq> new \<Longrightarrow> cpupool_find_by_id j s' = cpupool_find_by_id j s"
proof -
  define before where "before = create_before i s"
  define rest where "rest = drop (length before) (pool_list s)"
  note v = pool_contract.view_create [OF assms(1,4), folded before_def, folded rest_def]
  have app: "pool_list s = before @ rest" unfolding rest_def before_def by (rule create_before_append)
  show fresh: "c \<notin> set (pool_list s)" using assms(3) v(1) by (simp add: alloc_ok_def)
  obtain x where x: "pool_view s' = (pool_view s)\<lparr>pw_pools := (pools s)(c := x), pw_list := before @ c # rest\<rparr>"
    "i \<noteq> CPUPOOLID_NONE \<Longrightarrow> cpupool_id x = i" using v(3) by fastforce
  have s': "set (pool_list s') = insert c (set (pool_list s))" "pools s' = (pools s)(c := x)"
    using arg_cong [OF x(1), where f = pw_list] arg_cong [OF x(1), where f = pw_pools] app by simp_all
  have new: "new = cpupool_id x" by (simp add: new_def s')
  show "new = i" if "i \<noteq> CPUPOOLID_NONE" using x(2) [OF that] new by simp
  note so = pool_view_sorted [OF assms(2)] pool_view_sorted [OF pool_contract.wf_create [OF assms(1,2,4,3)]]
  show "cpupool_find_by_id new s' = Some c"
    using find_by_id_sorted [OF so(2)] by (simp add: s' new)
  show "cpupool_find_by_id j s' = cpupool_find_by_id j s" if "j \<noteq> new"
    by (rule find_by_id_cong [OF so]) (use that fresh in \<open>auto simp: s' new\<close>)
qed



section \<open>Moving domains\<close>

context pool_contract
begin

text \<open>The vcpus of a moved domain are spread over the CPUs of its new pool.\<close>

lemma processor_insert:
  "processor (vcpus (SCHED_OP (op_insert_vcpu (E k)) ops v s) w) = processor (vcpus s w)"
  "nr_cpu_ids (SCHED_OP (op_insert_vcpu (E k)) ops v s) = nr_cpu_ids s"
  using arg_cong [OF erase_vcpu(1) [OF erase_insert], where f = processor]
    arg_cong [OF erase_insert, where f = nr_cpu_ids] by (simp_all add: erase_def)

lemma processor_move_vcpus:
  assumes "p \<in> cpu_valid (pools s c)" and "cpu_valid (pools s c) \<subseteq> {..<nr_cpu_ids s}"
    and "v \<in> set vs \<or> processor (vcpus s v) \<in> cpu_valid (pools s c)"
  shows "processor (vcpus (move_vcpus E c data p vs s) v) \<in> cpu_valid (pools s c)"
  using assms
proof (induction vs arbitrary: p s)
  case Nil
  then show ?case by simp
next
  case (Cons w ws)
  let ?t = "move_vcpu E c data p w s"
  let ?q = "cpumask_cycle (nr_cpu_ids s) p (cpu_valid (pools s c))"
  have t: "pools ?t = pools s" "nr_cpu_ids ?t = nr_cpu_ids s"
    "processor (vcpus ?t v) = (if v = w then p else processor (vcpus s v))"
    using pool_view_reads(1) [OF view_move_vcpus [of c data p "[w]" s]]
    by (simp_all add: move_vcpu_def Let_def processor_insert)
  have "?q \<in> cpu_valid (pools s c)"
    using cpumask_cycle_in [of p "cpu_valid (pools s c)" "nr_cpu_ids s" p] Cons.prems(1,2) by auto
  then show ?case
    using Cons.IH [of ?q ?t] Cons.prems by (auto simp: t)
qed

lemma nr_cpu_ids_fold: "(\<And>v s. nr_cpu_ids (g v s) = nr_cpu_ids s) \<Longrightarrow> nr_cpu_ids (fold g vs s) = nr_cpu_ids s"
  by (induction vs arbitrary: s) simp_all

lemma nr_cpu_ids_kept:
  "pool_relax relax \<Longrightarrow> nr_cpu_ids (domain_pause E relax me d s) = nr_cpu_ids s"
  "nr_cpu_ids (fold (SCHED_OP (op_remove_vcpu (E k)) ops) vs s) = nr_cpu_ids s"
proof -
  have sleep: "nr_cpu_ids (vcpu_sleep_nosync E v t) = nr_cpu_ids t" for v t
    by (rule settings_global(7) [OF settings_sleep_nosync])
  then have "pool_relax relax \<Longrightarrow> nr_cpu_ids (vcpu_sleep_sync E relax v t) = nr_cpu_ids t" for v t
    by (simp add: vcpu_sleep_sync_def Let_def pool_relax_def)
  then show "pool_relax relax \<Longrightarrow> nr_cpu_ids (domain_pause E relax me d s) = nr_cpu_ids s"
    by (simp add: domain_pause_def do_domain_pause_def nr_cpu_ids_fold)
  show "nr_cpu_ids (fold (SCHED_OP (op_remove_vcpu (E k)) ops) vs s) = nr_cpu_ids s"
    by (rule nr_cpu_ids_fold) (use arg_cong [OF erase_remove, where f = nr_cpu_ids] in \<open>simp add: erase_def\<close>)
qed

lemma processor_unpause: "processor (vcpus (domain_unpause E d s) v) = processor (vcpus s v)"
proof -
  have "processor (vcpus (fold (vcpu_wake E) vs t) v) = processor (vcpus t v)" for vs t
    by (induction vs arbitrary: t) (simp_all add: settings_reads [OF settings_wake])
  then show ?thesis by (simp add: domain_unpause_def Let_def)
qed

lemma sched_move_domain_processors:
  assumes "pool_relax relax" and "sched_move_domain E relax A me d c s = (OK, s')"
    and "cpu_valid (pools s c) \<noteq> {}" and "cpu_valid (pools s c) \<subseteq> {..<nr_cpu_ids s}" and "v \<in> set (dom_vcpus (domains s d))"
  shows "processor (vcpus s' v) \<in> cpu_valid (pools s c)"
proof -
  define s1 where "s1 = domain_pause E relax me d s"
  define s2 where "s2 = fold (SCHED_OP (op_remove_vcpu (E (sched_kind s1 (dom_scheduler s1 d)))) (dom_scheduler s1 d))
    (dom_vcpus (domains s d)) s1"
  obtain data dd s3 where s3: "s3 = upd_dom d (\<lambda>x. x\<lparr>d_cpupool := Some c, d_priv := dd\<rparr>) s2"
    and s': "s' = domain_unpause E d (move_vcpus E c data (cpumask_first (nr_cpu_ids s3) (cpu_valid (pools s3 c)))
      (dom_vcpus (domains s d)) s3)"
    using assms(2) unfolding sched_move_domain_def Let_def s1_def [symmetric] s2_def [symmetric]
    by (auto split: if_splits)
  have s2: "pool_view s2 = pool_view s"
    by (simp add: s2_def s1_def pool_view_fold view_domain_pause(1) [OF assms(1)])
  have eq: "pools s3 = pools s" "nr_cpu_ids s3 = nr_cpu_ids s"
    using pool_view_reads(1) [OF s2] by (simp_all add: s3) (simp add: s2_def s1_def nr_cpu_ids_kept assms(1))
  obtain x where "x \<in> cpu_valid (pools s c)" "x < nr_cpu_ids s" using assms(3,4) by auto
  then have "cpumask_first (nr_cpu_ids s) (cpu_valid (pools s c)) \<in> cpu_valid (pools s c)"
    using cpumask_first_in by blast
  then show ?thesis
    using processor_move_vcpus [of _ s3 c v "dom_vcpus (domains s d)" data] assms(4,5)
    by (simp add: s' processor_unpause eq)
qed

end

text \<open>
  C15. Moving a domain to a pool that has CPUs either succeeds or changes nothing at all. It fails
  with -EBUSY exactly if a vcpu of the domain is pinned by an override, and otherwise only
  with -ENOMEM. On success the domain is in the new pool, both pools count it correctly, no
  other pool or domain changes, and every vcpu of the domain is placed on a CPU of the new
  pool.
\<close>

theorem cpupool_move_domain_atomic:
  assumes "pool_contract E" and "pool_relax relax" and "d_cpupool (domains s d) = Some a" and "a \<noteq> c"
    and "cpu_valid (pools s c) \<noteq> {}" and "cpu_valid (pools s c) \<subseteq> {..<nr_cpu_ids s}"
  shows "case cpupool_move_domain E relax A me d c s of
      (Inl e, s') \<Rightarrow> s' = s \<and> (e = EBUSY \<or> e = ENOMEM)
        \<and> (e = EBUSY \<longleftrightarrow> (\<exists>v\<in>set (dom_vcpus (domains s d)). affinity_broken (vcpus s v)))
    | (Inr _, s') \<Rightarrow> pool_view s' = pool_move d (Some c) (pool_view s)
        \<and> (\<forall>v\<in>set (dom_vcpus (domains s d)). processor (vcpus s' v) \<in> cpu_valid (pools s c))"
proof -
  let ?t = "add_n_dom a (- 1) s"
  obtain ret s1 where m: "sched_move_domain E relax A me d c ?t = (ret, s1)" by fastforce
  have t: "vcpus ?t = vcpus s" "domains ?t = domains s" "cpu_valid (pools ?t c) = cpu_valid (pools s c)" "nr_cpu_ids ?t = nr_cpu_ids s"
    using assms(4) by (simp_all add: add_n_dom_def upd_pool_def)
  show ?thesis
  proof (cases ret)
    case (Inl e)
    then have "s1 = ?t"
      using pool_contract.view_sched_move_domain(2) [OF assms(1,2) m] by simp
    moreover have "add_n_dom a 1 ?t = s"
      by (simp add: add_n_dom_def upd_pool_def)
    moreover have "(e = EBUSY \<or> e = ENOMEM) \<and> (e = EBUSY \<longleftrightarrow> (\<exists>v\<in>set (dom_vcpus (domains s d)). affinity_broken (vcpus s v)))"
      using m Inl unfolding sched_move_domain_def Let_def t by (auto split: if_splits)
    ultimately show ?thesis
      using Inl assms(3,4) by (auto simp: cpupool_move_domain_def m t)
  next
    case (Inr u)
    then have eq: "cpupool_move_domain E relax A me d c s = (OK, add_n_dom c 1 s1)"
      using assms(3,4) by (simp add: cpupool_move_domain_def m)
    have "processor (vcpus s1 v) \<in> cpu_valid (pools s c)" if "v \<in> set (dom_vcpus (domains s d))" for v
      using pool_contract.sched_move_domain_processors [OF assms(1,2), of A me d c ?t s1 v] m Inr t assms(5,6) that by simp
    moreover have "vcpus (add_n_dom c 1 s1) = vcpus s1" by (simp add: add_n_dom_def upd_pool_def)
    ultimately show ?thesis
      using pool_contract.view_move_domain [OF assms(1,2) _ eq] assms(3) by (simp add: eq)
  qed
qed

text \<open>Domain 2 moves to pool 1 and runs on CPU 1 from then on.\<close>

theorem cpupool_move_domain_atomic_witness:
  "let (r, s') = cpupool_move_domain fp_env (\<lambda>_ s. s) demo_alloc 0 2 1 demo_pools
   in r = OK \<and> d_cpupool (domains s' 2) = Some 1 \<and> processor (vcpus s' 2) = 1 \<and> n_dom (pools s' 0) = 2 \<and> n_dom (pools s' 1) = 1"
proof -
  obtain r s' where eq: "cpupool_move_domain fp_env (\<lambda>_ s. s) demo_alloc 0 2 1 demo_pools = (r, s')" by fastforce
  have "\<not> (\<exists>e. r = Inl e)"
    using eq by (auto simp: cpupool_move_domain_def sched_move_domain_def Let_def add_n_dom_def upd_pool_def demo_alloc_def
        fp_alloc_domdata_def fp_alloc_vdata_def)
  then have r: "r = OK" by (cases r) auto
  have th: "pool_view s' = pool_move 2 (Some 1) (pool_view demo_pools) \<and> processor (vcpus s' 2) = 1"
    using cpupool_move_domain_atomic [OF fpp.pool_contract_axioms, of "\<lambda>_ s. s" demo_pools 2 0 1 demo_alloc 0]
    unfolding eq r by (simp add: pool_relax_def)
  have "d_cpupool (domains s' 2) = Some 1" "n_dom (pools s' 0) = 2" "n_dom (pools s' 1) = 1"
    using arg_cong [OF conjunct1 [OF th], where f = "\<lambda>P. pw_dom P 2"] arg_cong [OF conjunct1 [OF th], where f = "\<lambda>P. n_dom (pw_pools P 0)"]
      arg_cong [OF conjunct1 [OF th], where f = "\<lambda>P. n_dom (pw_pools P 1)"] by (simp_all add: pool_move_def)
  with th r show ?thesis unfolding eq by simp
qed

section \<open>CPU hotplug\<close>

text \<open>
  C38. A CPU of pool 0 whose removal is prepared and then fails does not come back cleanly:
  CPU_DOWN_PREPARE takes it out of the pool but leaves it bound to the pool, so that
  CPU_DOWN_FAILED runs into the assertion in schedule_cpu_switch that the pool changes. The
  CPU is in the pool again afterwards.
\<close>

theorem cpu_down_failed_asserts:
  assumes "system_state (glob s) = SYS_STATE_active" and "fault s = None" and "cpupool_moving_cpu (glob s) \<noteq> Some cpu"
    and "cpu \<in> cpu_valid (pools s (cpupool0 (glob s)))" and "pcpu_pool s cpu = Some (cpupool0 (glob s))"
    and "pcpu_sched s cpu = cp_sched (pools s (cpupool0 (glob s)))"
  shows "\<exists>s1 s2. cpu_callback E A CPU_DOWN_PREPARE cpu s = (OK, s1) \<and> fault s1 = None
    \<and> cpu_callback E A CPU_DOWN_FAILED cpu s1 = (OK, s2) \<and> fault s2 = Some Assert_failed
    \<and> cpu_valid (pools s2 (cpupool0 (glob s))) = cpu_valid (pools s (cpupool0 (glob s)))"
proof -
  let ?p = "cpupool0 (glob s)"
  define s1 where "s1 = upd_glob (\<lambda>g. g\<lparr>cpupool_locked_cpus := insert cpu (cpupool_locked_cpus g)\<rparr>)
    (upd_pool ?p (\<lambda>x. x\<lparr>cpu_valid := cpu_valid x - {cpu}\<rparr>) s)"
  have "cpu_callback E A CPU_DOWN_PREPARE cpu s = (OK, s1)"
    using assms(1,4) by (simp add: cpu_callback_def cpupool_cpu_remove_def Let_def s1_def)
  moreover have s1: "fault s1 = None" "cpupool0 (glob s1) = ?p" "system_state (glob s1) = SYS_STATE_active"
    "cpupool_moving_cpu (glob s1) \<noteq> Some cpu" "pcpu_pool s1 cpu = Some ?p"
    "pools s1 ?p = (pools s ?p)\<lparr>cpu_valid := cpu_valid (pools s ?p) - {cpu}\<rparr>" "pcpu_sched s1 cpu = cp_sched (pools s ?p)"
    using assms by (simp_all add: s1_def upd_glob_def upd_pool_def)
  moreover have "\<exists>s2. cpu_callback E A CPU_DOWN_FAILED cpu s1 = (OK, s2) \<and> fault s2 = Some Assert_failed
      \<and> cpu_valid (pools s2 ?p) = insert cpu (cpu_valid (pools s ?p))"
    using s1 by (simp add: cpu_callback_def cpupool_cpu_add_def Let_def cpupool_assign_cpu_locked_def schedule_cpu_switch_def
        free_cpu_def unfree_cpu_def upd_glob_def upd_pool_def assert_def panic_def cpu_raise_softirq_def)
  ultimately show ?thesis
    using assms(4) by (auto simp: insert_absorb)
qed

theorem cpu_down_failed_asserts_witness:
  "\<exists>s1 s2. cpu_callback fp_env demo_alloc CPU_DOWN_PREPARE 0 demo_pools = (OK, s1)
    \<and> cpu_callback fp_env demo_alloc CPU_DOWN_FAILED 0 s1 = (OK, s2) \<and> fault s2 = Some Assert_failed"
  using cpu_down_failed_asserts [of demo_pools 0 fp_env demo_alloc] by (auto simp: demo_globals_def)

end
