(* ===== verification/Notifier.thy ===== *)
theory Notifier
  imports Sched_Types "HOL-Library.Word"
begin

text \<open>
  Notifier chains (common/notifier.c, include/xen/notifier.h) and the events of a CPU that is
  brought up or taken down (include/xen/cpu.h). A chain is the list of its blocks; a handler maps
  the event, the CPU and a state of any type to its 32-bit result and the new state. The lemmas
  give the walk along the chain, which starts and ends at a cursor, as a run over a list of blocks.
\<close>

unbundle bit_operations_syntax

section \<open>Events and results\<close>

definition NOTIFY_FORWARD :: "64 word" where "NOTIFY_FORWARD = 0x0000"
definition NOTIFY_REVERSE :: "64 word" where "NOTIFY_REVERSE = 0x8000"

fun action_val :: "cpu_action \<Rightarrow> 64 word" where
  "action_val CPU_UP_PREPARE = 0x0001 OR NOTIFY_FORWARD"
| "action_val CPU_UP_CANCELED = 0x0002 OR NOTIFY_REVERSE"
| "action_val CPU_STARTING = 0x0003 OR NOTIFY_FORWARD"
| "action_val CPU_ONLINE = 0x0004 OR NOTIFY_FORWARD"
| "action_val CPU_DOWN_PREPARE = 0x0005 OR NOTIFY_REVERSE"
| "action_val CPU_DOWN_FAILED = 0x0006 OR NOTIFY_FORWARD"
| "action_val CPU_DYING = 0x0007 OR NOTIFY_REVERSE"
| "action_val CPU_DEAD = 0x0008 OR NOTIFY_REVERSE"

definition NOTIFY_DONE :: "32 word" where "NOTIFY_DONE = 0x0000"
definition NOTIFY_STOP_MASK :: "32 word" where "NOTIFY_STOP_MASK = 0x8000"

definition notifier_from_errno :: "32 word \<Rightarrow> 32 word" where
  "notifier_from_errno err = NOTIFY_STOP_MASK OR - err"

definition notifier_to_errno :: "32 word \<Rightarrow> 32 word" where
  "notifier_to_errno ret = - (ret AND NOT NOTIFY_STOP_MASK)"

text \<open>The numbers of include/public/errno.h.\<close>

fun errno_nr :: "errno \<Rightarrow> nat" where
  "errno_nr EPERM = 1"
| "errno_nr ENOENT = 2"
| "errno_nr ESRCH = 3"
| "errno_nr EIO = 5"
| "errno_nr EBADF = 9"
| "errno_nr EAGAIN = 11"
| "errno_nr ENOMEM = 12"
| "errno_nr EACCES = 13"
| "errno_nr EFAULT = 14"
| "errno_nr EBUSY = 16"
| "errno_nr EEXIST = 17"
| "errno_nr EXDEV = 18"
| "errno_nr ENODEV = 19"
| "errno_nr EINVAL = 22"
| "errno_nr ENOSPC = 28"
| "errno_nr ERANGE = 34"
| "errno_nr ENOSYS = 38"
| "errno_nr ERESTART = 85"
| "errno_nr EOPNOTSUPP = 95"
| "errno_nr EADDRINUSE = 98"
| "errno_nr EADDRNOTAVAIL = 99"
| "errno_nr EOVERFLOW = 75"

text \<open>The C value of a result: 0, or the negative error number.\<close>

definition errval :: "rc \<Rightarrow> 32 word" where
  "errval rc = (case rc of Inl e \<Rightarrow> - of_nat (errno_nr e) | Inr _ \<Rightarrow> 0)"

text \<open>What the callbacks return: \<^verbatim>\<open>!rc ? NOTIFY_DONE : notifier_from_errno(rc)\<close>.\<close>

definition notifier_rc :: "rc \<Rightarrow> 32 word" where
  "notifier_rc rc = (if errval rc = 0 then NOTIFY_DONE else notifier_from_errno (errval rc))"

section \<open>Chains\<close>

record 's notifier_block =
  notifier_call :: "cpu_action \<Rightarrow> nat \<Rightarrow> 's \<Rightarrow> 32 word \<times> 's"
  nb_priority :: int

text \<open>The new block goes behind all blocks of at least its priority.\<close>

definition notifier_chain_register :: "'s notifier_block \<Rightarrow> 's notifier_block list \<Rightarrow> 's notifier_block list" where
  "notifier_chain_register n ch = insert_before (\<lambda>nb. nb_priority n > nb_priority nb) n ch"

definition notifier_chain_unregister :: "'s notifier_block \<Rightarrow> 's notifier_block list \<Rightarrow> 's notifier_block list" where
  "notifier_chain_unregister n ch = remove1 n ch"

text \<open>
  The list is circular: position 0 is the head, position \<open>i\<close> the \<open>i\<close>-th block. A missing cursor
  (a null pointer) means the head.
\<close>

definition chain_next :: "bool \<Rightarrow> nat \<Rightarrow> nat \<Rightarrow> nat" where
  "chain_next backwards n p =
     (if backwards then (if p = 0 then n else p - 1) else (if p < n then p + 1 else 0))"

function call_loop ::
  "'s notifier_block list \<Rightarrow> cpu_action \<Rightarrow> bool \<Rightarrow> nat \<Rightarrow> nat \<Rightarrow> 32 word \<Rightarrow> 's \<Rightarrow> 32 word \<times> nat \<times> 's" where
  "call_loop ch a backwards v p ret s =
     (let p' = chain_next backwards (length ch) p
      in if p' = 0 then (ret, p', s)
         else
           let (ret', s') = notifier_call (ch ! (p' - 1)) a v s
           in if ret' AND NOTIFY_STOP_MASK \<noteq> 0 then (ret', p', s')
              else call_loop ch a backwards v p' ret' s')"
  by pat_completeness auto

termination
  by (relation "measure (\<lambda>(ch, a, backwards, v, p, ret, s).
      if backwards then (if p = 0 then Suc (length ch) else p) else Suc (length ch) - p)")
    (auto simp: chain_next_def split: if_splits)

definition notifier_call_chain ::
  "'s notifier_block list \<Rightarrow> cpu_action \<Rightarrow> nat \<Rightarrow> nat option \<Rightarrow> 's \<Rightarrow> 32 word \<times> nat \<times> 's" where
  "notifier_call_chain ch a v cursor s =
     call_loop ch a (action_val a AND NOTIFY_REVERSE \<noteq> 0) v
       (case cursor of None \<Rightarrow> 0 | Some p \<Rightarrow> p) NOTIFY_DONE s"

declare call_loop.simps [simp del]

section \<open>A run over a list of blocks\<close>

text \<open>
  The blocks of a list are called in order up to the first one whose result has the stop bit. The
  first component of the result lists the blocks that were called and did not stop.
\<close>

fun run_blocks ::
  "cpu_action \<Rightarrow> nat \<Rightarrow> 's notifier_block list \<Rightarrow> 32 word \<Rightarrow> 's \<Rightarrow> 's notifier_block list \<times> 32 word \<times> 's" where
  "run_blocks a v [] ret s = ([], ret, s)"
| "run_blocks a v (b # bs) ret s =
     (let (ret', s') = notifier_call b a v s
      in if ret' AND NOTIFY_STOP_MASK \<noteq> 0 then ([], ret', s')
         else let (ds, r, t) = run_blocks a v bs ret' s' in (b # ds, r, t))"

lemma run_blocks_prefix: "run_blocks a v bs ret s = (ds, r, t) \<Longrightarrow> \<exists>es. bs = ds @ es"
  by (induction bs arbitrary: ret s ds) (auto simp: Let_def split: prod.splits if_splits)

lemma run_blocks_take: "run_blocks a v bs ret s = (ds, r, t) \<Longrightarrow> take (length ds) bs = ds"
  using run_blocks_prefix by fastforce

lemma run_blocks_ok:
  assumes "\<And>b x. b \<in> set bs \<Longrightarrow> fst (notifier_call b a v x) = NOTIFY_DONE" and "ret = NOTIFY_DONE"
  shows "run_blocks a v bs ret s = (bs, NOTIFY_DONE, fold (\<lambda>b x. snd (notifier_call b a v x)) bs s)"
  using assms
proof (induction bs arbitrary: ret s)
  case (Cons b bs)
  then show ?case
    using Cons.prems(1) [of b s] by (simp add: Let_def split_beta NOTIFY_DONE_def)
qed simp

text \<open>Something every handler keeps is kept by the run.\<close>

lemma run_blocks_inv:
  assumes "\<And>b x. b \<in> set bs \<Longrightarrow> P x \<Longrightarrow> P (snd (notifier_call b a v x))" and "P s"
  shows "P (snd (snd (run_blocks a v bs ret s)))"
  using assms
proof (induction bs arbitrary: ret s)
  case (Cons b bs)
  have "P (snd (notifier_call b a v s))" using Cons.prems by simp
  then show ?case
    using Cons.IH [of "snd (notifier_call b a v s)" "fst (notifier_call b a v s)"] Cons.prems(1)
    by (simp add: Let_def split_beta)
qed simp

section \<open>The walk along the chain\<close>

text \<open>Forwards the blocks behind the cursor are called, backwards those in front of it.\<close>

lemma call_loop_forward:
  assumes "p \<le> length ch" and "run_blocks a v (drop p ch) ret s = (ds, r, t)"
  shows "call_loop ch a False v p ret s = (r, if length ds = length ch - p then 0 else p + length ds + 1, t)"
  using assms
proof (induction "length ch - p" arbitrary: p ret s ds)
  case 0
  then show ?case by (auto simp: call_loop.simps [of ch] chain_next_def)
next
  case (Suc n)
  then have p: "p < length ch" and d: "drop p ch = ch ! p # drop (Suc p) ch"
    by (simp_all add: Cons_nth_drop_Suc)
  obtain r1 s1 where c: "notifier_call (ch ! p) a v s = (r1, s1)" by fastforce
  obtain ds' r' t' where run: "run_blocks a v (drop (Suc p) ch) r1 s1 = (ds', r', t')" by (metis prod_cases3)
  from Suc.prems(2) c run d
  have res: "(ds, r, t) = (if r1 AND NOTIFY_STOP_MASK \<noteq> 0 then ([], r1, s1) else (ch ! p # ds', r', t'))"
    by (auto split: if_splits)
  show ?case
  proof (cases "r1 AND NOTIFY_STOP_MASK = 0")
    case True
    with Suc.hyps(1) [of "Suc p" r1 s1 ds'] Suc.hyps(2) p run res
    have "call_loop ch a False v (Suc p) r1 s1 = (r, if length ds' = length ch - Suc p then 0 else p + length ds + 1, t)"
      by simp
    with True p c res show ?thesis
      by (subst call_loop.simps) (simp add: chain_next_def; arith)
  next
    case False
    with p c res show ?thesis by (subst call_loop.simps) (simp add: chain_next_def)
  qed
qed

lemma call_loop_backward:
  assumes "n \<le> length ch" and "run_blocks a v (rev (take n ch)) ret s = (ds, r, t)"
    and "chain_next True (length ch) p = n"
  shows "call_loop ch a True v p ret s = (r, n - length ds, t)"
  using assms
proof (induction n arbitrary: p ret s ds)
  case 0
  then show ?case by (subst call_loop.simps) simp
next
  case (Suc n)
  then have d: "rev (take (Suc n) ch) = ch ! n # rev (take n ch)"
    by (simp add: take_Suc_conv_app_nth)
  obtain r1 s1 where c: "notifier_call (ch ! n) a v s = (r1, s1)" by fastforce
  obtain ds' r' t' where run: "run_blocks a v (rev (take n ch)) r1 s1 = (ds', r', t')" by (metis prod_cases3)
  from Suc.prems(2) c run d
  have res: "(ds, r, t) = (if r1 AND NOTIFY_STOP_MASK \<noteq> 0 then ([], r1, s1) else (ch ! n # ds', r', t'))"
    by (auto split: if_splits)
  show ?case
  proof (cases "r1 AND NOTIFY_STOP_MASK = 0")
    case True
    with run res have "run_blocks a v (rev (take n ch)) r1 s1 = (ds', r, t)" by simp
    with Suc.IH [of r1 s1 ds' "Suc n"] Suc.prems(1) True res
    have "call_loop ch a True v (Suc n) r1 s1 = (r, Suc n - length ds, t)"
      by (simp add: chain_next_def)
    with True Suc.prems(3) c res show ?thesis by (subst call_loop.simps) simp
  next
    case False
    with Suc.prems(3) c res show ?thesis by (subst call_loop.simps) simp
  qed
qed

text \<open>The order in which an event visits the chain, and the result without the cursor.\<close>

definition backwards :: "cpu_action \<Rightarrow> bool" where
  "backwards a \<longleftrightarrow> a \<in> {CPU_UP_CANCELED, CPU_DOWN_PREPARE, CPU_DYING, CPU_DEAD}"

definition chain_order :: "cpu_action \<Rightarrow> 's notifier_block list \<Rightarrow> 's notifier_block list" where
  "chain_order a ch = (if backwards a then rev ch else ch)"

lemma action_reverse: "(action_val a AND NOTIFY_REVERSE \<noteq> 0) = backwards a"
  by (cases a) (simp_all add: backwards_def NOTIFY_REVERSE_def NOTIFY_FORWARD_def)

text \<open>
  An event without a cursor visits the whole chain. An event in the other direction that starts
  at the cursor left behind visits exactly the blocks that did not stop, in the opposite order.
\<close>

lemma chain_run:
  assumes "run_blocks a v (chain_order a ch) NOTIFY_DONE s = (ds, r, t)"
  obtains q where "notifier_call_chain ch a v None s = (r, q, t)"
    and "\<And>b x. backwards b \<noteq> backwards a \<Longrightarrow>
      (\<exists>q'. notifier_call_chain ch b v (Some q) x = (case run_blocks b v (rev ds) NOTIFY_DONE x of (_, r', x') \<Rightarrow> (r', q', x')))"
proof (cases "backwards a")
  case True
  note pre = run_blocks_prefix [OF assms] run_blocks_take [OF assms]
  from True pre(2) have "rev (drop (length ch - length ds) ch) = ds" by (simp add: chain_order_def take_rev)
  then have rev: "rev ds = drop (length ch - length ds) ch" by (metis rev_rev_ident)
  have 1: "notifier_call_chain ch a v None s = (r, length ch - length ds, t)"
    unfolding notifier_call_chain_def action_reverse
    using call_loop_backward [of "length ch" ch a v NOTIFY_DONE s ds r t 0] assms True
    by (simp add: chain_order_def chain_next_def)
  have "\<exists>q'. notifier_call_chain ch b v (Some (length ch - length ds)) x =
      (case run_blocks b v (rev ds) NOTIFY_DONE x of (_, r', x') \<Rightarrow> (r', q', x'))" if "\<not> backwards b" for b x
    using call_loop_forward [of "length ch - length ds" ch b v NOTIFY_DONE x] that
    by (cases "run_blocks b v (rev ds) NOTIFY_DONE x") (simp add: notifier_call_chain_def action_reverse rev)
  with 1 True that show thesis by blast
next
  case False
  note pre = run_blocks_prefix [OF assms] run_blocks_take [OF assms]
  let ?q = "if length ds = length ch then 0 else length ds + 1"
  from False pre have le: "length ds \<le> length ch" and tk: "take (length ds) ch = ds"
    by (auto simp: chain_order_def)
  have 1: "notifier_call_chain ch a v None s = (r, ?q, t)"
    unfolding notifier_call_chain_def action_reverse
    using call_loop_forward [of 0 ch a v NOTIFY_DONE s ds r t] assms False by (simp add: chain_order_def)
  have "\<exists>q'. notifier_call_chain ch b v (Some ?q) x =
      (case run_blocks b v (rev ds) NOTIFY_DONE x of (_, r', x') \<Rightarrow> (r', q', x'))" if "backwards b" for b x
    using call_loop_backward [of "length ds" ch b v NOTIFY_DONE x _ _ _ ?q] that le tk
    by (cases "run_blocks b v (rev ds) NOTIFY_DONE x") (simp add: notifier_call_chain_def action_reverse chain_next_def)
  with 1 False that show thesis by blast
qed

section \<open>Error numbers\<close>

lemma errno_nr_bound: "0 < errno_nr e \<and> errno_nr e < 128"
  by (cases e) simp_all

lemma errval_zero [simp]: "errval rc = 0 \<longleftrightarrow> rc = OK"
  by (cases rc; cases "projl rc") (auto simp: errval_def)

lemma notifier_rc_done [simp]: "notifier_rc OK = NOTIFY_DONE"
  by (simp add: notifier_rc_def errval_def)

lemma notifier_errno_inverse: "notifier_to_errno (notifier_rc (Inl e)) = errval (Inl e)"
  by (cases e) (simp_all add: notifier_rc_def errval_def notifier_to_errno_def notifier_from_errno_def NOTIFY_STOP_MASK_def)

lemma notifier_rc_stops: "notifier_rc rc AND NOTIFY_STOP_MASK = 0 \<longleftrightarrow> rc = OK"
  by (cases rc; cases "projl rc") (auto simp: notifier_rc_def errval_def notifier_from_errno_def NOTIFY_STOP_MASK_def NOTIFY_DONE_def)

lemma notifier_rc_inj [simp]: "notifier_rc rc = NOTIFY_DONE \<longleftrightarrow> rc = OK"
  using notifier_rc_stops [of rc] by (cases rc) (auto simp: NOTIFY_DONE_def)

section \<open>Registration\<close>

lemma filter_insert_equal:
  fixes f :: "'a \<Rightarrow> int"
  shows "sorted (map f ys) \<Longrightarrow> filter (\<lambda>y. f y = f x) (insert_before (\<lambda>y. f x < f y) x ys) = filter (\<lambda>y. f y = f x) ys @ [x]"
proof (induction ys)
  case (Cons a ys)
  have "filter (\<lambda>y. f y = f x) ys = []" if "f x < f a"
    using that Cons.prems by (auto simp: filter_empty_conv)
  with Cons show ?case by auto
qed simp

lemma filter_insert_other:
  "\<not> q x \<Longrightarrow> filter q (insert_before p x ys) = filter q ys"
  by (induction ys) auto

lemma sorted_insert_before:
  fixes f :: "'a \<Rightarrow> int"
  shows "sorted (map f ys) \<Longrightarrow> sorted (map f (insert_before (\<lambda>y. f x < f y) x ys))"
  by (induction ys) auto

lemma register_sorts:
  fixes ns :: "'s notifier_block list"
  defines "f \<equiv> \<lambda>b :: 's notifier_block. - nb_priority b"
  shows "notifier_chain_register n (sort_key f ns) = sort_key f (ns @ [n])"
proof -
  have eq: "notifier_chain_register n ch = insert_before (\<lambda>b. f n < f b) n ch" for ch
    by (simp add: notifier_chain_register_def f_def)
  have "sort_key f (ns @ [n]) = insert_before (\<lambda>b. f n < f b) n (sort_key f ns)"
  proof (rule properties_for_sort_key)
    show "filter (\<lambda>x. f k = f x) (insert_before (\<lambda>b. f n < f b) n (sort_key f ns)) = filter (\<lambda>x. f k = f x) (ns @ [n])" for k
      using filter_insert_equal [of f "sort_key f ns" n] sort_key_stable [of f "f k" ns]
        filter_insert_other [of "\<lambda>x. f k = f x" n]
      by (cases "f k = f n") (simp_all add: eq_commute)
  qed (simp_all add: sorted_insert_before)
  then show ?thesis by (simp add: eq)
qed


end
