(* ===== verification/Cpu_Hotplug.thy ===== *)
theory Cpu_Hotplug
  imports Cpupool Notifier
begin

text \<open>
  Bringing CPUs up and taking them down: common/cpu.c, the CPU notifiers of common/schedule.c and
  of arch/arm/percpu.c, the parts of arch/arm/smpboot.c that run them, and the creation of vcpus
  (common/domain.c), which a new CPU needs for its idle vcpu. The outcome of what the hardware and
  the allocators do is an argument of the operations.
\<close>

section \<open>Creating a vcpu\<close>

text \<open>
  What alloc_vcpu gets from the allocators and from the architecture: the address of a page for
  the structure, whether the CPU masks can be allocated, and whether vcpu_initialise succeeds.
\<close>

record vcpu_alloc =
  va_struct :: "nat option"
  va_masks :: bool
  va_arch :: bool

text \<open>A page of zeros as a \<^verbatim>\<open>struct vcpu\<close>.\<close>

definition zero_timer :: atimer where
  "zero_timer = \<lparr>at_cpu = 0, at_expires = None, at_killed = False\<rparr>"

definition zero_vcpu :: "'v vcpu" where
  "zero_vcpu =
     \<lparr>vcpu_id = 0, processor = 0, v_domain = 0, periodic_period = 0, periodic_last_event = 0,
      periodic_timer = zero_timer, singleshot_timer = zero_timer, poll_timer = zero_timer, v_priv = None,
      runstate = \<lparr>rs_state = RUNSTATE_running, rs_entry = 0, rs_time = (\<lambda>_. 0)\<rparr>, last_run_time = 0,
      is_running = False, is_urgent = False, defer_shutdown = False, paused_for_shutdown = False,
      affinity_broken = False, poll_evtchn = 0, pause_flags = {}, pause_count = 0, v_controller_pause_count = 0,
      cpu_hard_affinity = {}, cpu_hard_affinity_saved = {}, cpu_soft_affinity = {}\<rparr>"

text \<open>
  \<^verbatim>\<open>d->vcpu[i]\<close>; \<open>dom_vcpus\<close> is the list that \<^verbatim>\<open>next_in_list\<close> links, from \<^verbatim>\<open>d->vcpu[0]\<close> on. The array
  of the idle domain is \<^verbatim>\<open>idle_vcpu\<close>.
\<close>

definition dom_vcpu :: "('v, 'd, 'p, 'g) xen \<Rightarrow> nat \<Rightarrow> nat \<Rightarrow> nat option" where
  "dom_vcpu s d i = find (\<lambda>v. vcpu_id (vcpus s v) = i) (dom_vcpus (domains s d))"

fun prev_vcpu :: "(nat \<Rightarrow> nat option) \<Rightarrow> nat \<Rightarrow> nat option" where
  "prev_vcpu arr 0 = None"
| "prev_vcpu arr (Suc i) = (case arr i of None \<Rightarrow> prev_vcpu arr i | Some p \<Rightarrow> Some p)"

fun insert_after :: "'a \<Rightarrow> 'a \<Rightarrow> 'a list \<Rightarrow> 'a list" where
  "insert_after p x [] = []"
| "insert_after p x (y # ys) = (if y = p then y # x # ys else y # insert_after p x ys)"

definition link_vcpu :: "nat \<Rightarrow> nat \<Rightarrow> nat \<Rightarrow> ('v, 'd, 'p, 'g) xen \<Rightarrow> ('v, 'd, 'p, 'g) xen" where
  "link_vcpu d i v s =
     (let s1 = (if is_idle_domain s d then s\<lparr>idle_vcpu := (idle_vcpu s)(i := v)\<rparr> else s)
      in if i = 0 then upd_dom d (\<lambda>x. x\<lparr>dom_vcpus := [v]\<rparr>) s1
         else
           case prev_vcpu (dom_vcpu s1 d) i of
             None \<Rightarrow> panic Bug_on s1
           | Some p \<Rightarrow> upd_dom d (\<lambda>x. x\<lparr>dom_vcpus := insert_after p v (dom_vcpus x)\<rparr>) s1)"

definition alloc_vcpu ::
  "('v, 'd, 'p, 'g) sched_env \<Rightarrow> alloc \<Rightarrow> vcpu_alloc \<Rightarrow> nat \<Rightarrow> nat \<Rightarrow> nat \<Rightarrow> ('v, 'd, 'p, 'g) xen
    \<Rightarrow> nat option \<times> ('v, 'd, 'p, 'g) xen" where
  "alloc_vcpu E A V d i cpu s =
     (let idle = is_idle_domain s d;
          s0 = (if (\<not> idle \<or> i \<noteq> 0) \<and> dom_vcpu s d i \<noteq> None then panic Bug_on s else s)
      in case va_struct V of
           None \<Rightarrow> (None, s0)
         | Some v \<Rightarrow>
             let s1 = upd_vcpu v (\<lambda>_. zero_vcpu\<lparr>v_domain := d, vcpu_id := i\<rparr>) s0;
                 s2 = upd_vcpu v (\<lambda>x. if idle then x\<lparr>runstate := (runstate x)\<lparr>rs_state := RUNSTATE_running\<rparr>\<rparr>
                                       else x\<lparr>runstate := (runstate x)\<lparr>rs_state := RUNSTATE_offline, rs_entry := clock s1\<rparr>,
                                              pause_flags := insert VPF_down (pause_flags x)\<rparr>) s1
             in if \<not> va_masks V then (None, s1)
                else
                  case sched_init_vcpu E A v cpu s2 of
                    (r, s3) \<Rightarrow>
                      if r \<noteq> 0 then (None, s3)
                      else if \<not> va_arch V then (None, sched_destroy_vcpu E v s3)
                      else (Some v, vcpu_check_shutdown E v (link_vcpu d i v s3)))"

section \<open>The scheduler's notifier\<close>

text \<open>
  The schedule data of a CPU are set up for the boot scheduler; the CPU's idle vcpu is created,
  or after a suspend given private data again. A null \<^verbatim>\<open>sd->curr\<close> is not represented:
  sched_init_vcpu sets it when the idle vcpu is created.
\<close>

definition cpu_schedule_up ::
  "('v, 'd, 'p, 'g) sched_env \<Rightarrow> alloc \<Rightarrow> vcpu_alloc \<Rightarrow> nat \<Rightarrow> ('v, 'd, 'p, 'g) xen \<Rightarrow> rc \<times> ('v, 'd, 'p, 'g) xen" where
  "cpu_schedule_up E A V cpu s =
     (let ops = default_ops s;
          s1 = upd_pcpu cpu (\<lambda>x. x\<lparr>sd_lock := Cpu_lock cpu, sd_curr := idle_vcpu s cpu, sd_timer := atimer_init cpu,
                                    urgent_count := 0\<rparr>)
                 (s\<lparr>pcpu_sched := (pcpu_sched s)(cpu := ops)\<rparr>);
          H = E (sched_kind s1 ops);
          d = v_domain (vcpus s1 (idle_vcpu s1 0));
          pdata = (\<lambda>s. case op_alloc_pdata H (al_pdata A) ops cpu s of
                         (Inl e, s') \<Rightarrow> (Inl e, s')
                       | (Inr p, s') \<Rightarrow> (OK, upd_pcpu cpu (\<lambda>x. x\<lparr>sd_priv := p\<rparr>) s'))
      in if cpu = 0 then (OK, s1)
         else
           case dom_vcpu s1 d cpu of
             None \<Rightarrow>
               (case alloc_vcpu E A V d cpu cpu s1 of
                  (None, s2) \<Rightarrow> (Inl ENOMEM, s2)
                | (Some _, s2) \<Rightarrow> pdata s2)
           | Some idle \<Rightarrow>
               let s2 = assert (v_priv (vcpus s1 idle) = None) s1;
                   data = op_alloc_vdata H (al_vdata A idle) ops idle (d_priv (domains s2 d)) s2;
                   s3 = upd_vcpu idle (\<lambda>x. x\<lparr>v_priv := data\<rparr>) s2
               in if data = None then (Inl ENOMEM, s3) else pdata s3)"

definition cpu_schedule_down ::
  "('v, 'd, 'p, 'g) sched_env \<Rightarrow> nat \<Rightarrow> ('v, 'd, 'p, 'g) xen \<Rightarrow> ('v, 'd, 'p, 'g) xen" where
  "cpu_schedule_down E cpu s =
     (let ops = pcpu_sched s cpu; H = E (sched_kind s ops);
          s1 = op_free_pdata H ops cpu s;
          s2 = op_free_vdata H ops (idle_vcpu s cpu) s1;
          s3 = upd_vcpu (idle_vcpu s cpu) (\<lambda>x. x\<lparr>v_priv := None\<rparr>) s2
      in upd_pcpu cpu (\<lambda>x. x\<lparr>sd_priv := None, sd_timer := atimer_kill (sd_timer x)\<rparr>) s3)"

text \<open>Hooks of a CPU's private data that may be missing.\<close>

definition SCHED_OP_pdata ::
  "(nat \<Rightarrow> 'p option \<Rightarrow> nat \<Rightarrow> ('v, 'd, 'p, 'g) xen \<Rightarrow> ('v, 'd, 'p, 'g) xen) option \<Rightarrow> nat \<Rightarrow> nat
    \<Rightarrow> ('v, 'd, 'p, 'g) xen \<Rightarrow> ('v, 'd, 'p, 'g) xen" where
  "SCHED_OP_pdata fn ops cpu s = (case fn of None \<Rightarrow> s | Some f \<Rightarrow> f ops (sd_priv (percpu s cpu)) cpu s)"

definition cpu_schedule_callback ::
  "('v, 'd, 'p, 'g) sched_env \<Rightarrow> alloc \<Rightarrow> vcpu_alloc \<Rightarrow> cpu_action \<Rightarrow> nat \<Rightarrow> ('v, 'd, 'p, 'g) xen
    \<Rightarrow> 32 word \<times> ('v, 'd, 'p, 'g) xen" where
  "cpu_schedule_callback E A V action cpu s =
     (let ops = pcpu_sched s cpu; H = E (sched_kind s ops);
          (rc, s') =
            (case action of
               CPU_STARTING \<Rightarrow> (OK, SCHED_OP_pdata (op_init_pdata H) ops cpu s)
             | CPU_UP_PREPARE \<Rightarrow> cpu_schedule_up E A V cpu s
             | CPU_DEAD \<Rightarrow> (OK, cpu_schedule_down E cpu (SCHED_OP_pdata (op_deinit_pdata H) ops cpu s))
             | CPU_UP_CANCELED \<Rightarrow> (OK, cpu_schedule_down E cpu s)
             | _ \<Rightarrow> (OK, s))
      in (notifier_rc rc, s'))"

definition cpu_schedule_nfb ::
  "('v, 'd, 'p, 'g) sched_env \<Rightarrow> alloc \<Rightarrow> vcpu_alloc \<Rightarrow> ('v, 'd, 'p, 'g) xen notifier_block" where
  "cpu_schedule_nfb E A V = \<lparr>notifier_call = cpu_schedule_callback E A V, nb_priority = 0\<rparr>"

text \<open>The notifier of the cpupools.\<close>

definition cpu_nfb :: "('v, 'd, 'p, 'g) sched_env \<Rightarrow> alloc \<Rightarrow> ('v, 'd, 'p, 'g) xen notifier_block" where
  "cpu_nfb E A =
     \<lparr>notifier_call = (\<lambda>action cpu s. case cpu_callback E A action cpu s of (rc, s') \<Rightarrow> (notifier_rc rc, s')),
      nb_priority = 0\<rparr>"

section \<open>Per-CPU data\<close>

text \<open>
  A new area of per-CPU data is a block of zeros; \<open>area\<close> says whether the old one is gone (-EBUSY)
  and a new one can be allocated (-ENOMEM). The null pointers in it are overwritten by
  cpu_schedule_up before they are read and are not represented. Freeing an area is deferred
  until no CPU can use it.
\<close>

definition init_percpu_area :: "rc \<Rightarrow> nat \<Rightarrow> ('v, 'd, 'p, 'g) xen \<Rightarrow> rc \<times> ('v, 'd, 'p, 'g) xen" where
  "init_percpu_area area cpu s =
     (case area of
        Inl e \<Rightarrow> (Inl e, s)
      | Inr _ \<Rightarrow>
          (OK, upd_pcpu cpu (\<lambda>x. x\<lparr>sd_priv := None, sd_timer := zero_timer, urgent_count := 0\<rparr>)
                 (s\<lparr>pcpu_pool := (pcpu_pool s)(cpu := None),
                    glob := (glob s)\<lparr>tasklet_work := (tasklet_work (glob s))(cpu := {})\<rparr>\<rparr>)))"

definition cpu_percpu_callback ::
  "rc \<Rightarrow> cpu_action \<Rightarrow> nat \<Rightarrow> ('v, 'd, 'p, 'g) xen \<Rightarrow> 32 word \<times> ('v, 'd, 'p, 'g) xen" where
  "cpu_percpu_callback area action cpu s =
     (let (rc, s') = (if action = CPU_UP_PREPARE then init_percpu_area area cpu s else (OK, s))
      in (notifier_rc rc, s'))"

definition cpu_percpu_nfb :: "rc \<Rightarrow> ('v, 'd, 'p, 'g) xen notifier_block" where
  "cpu_percpu_nfb area = \<lparr>notifier_call = cpu_percpu_callback area, nb_priority = 100\<rparr>"

section \<open>CPU hotplug\<close>

text \<open>
  The CPU chain after boot: scheduler_init registers the scheduler's block, later initcalls those
  of the cpupools and of the per-CPU data. The blocks of other subsystems do not touch the state
  modelled here.
\<close>

definition register_cpu_notifier :: "'s notifier_block \<Rightarrow> 's notifier_block list \<Rightarrow> 's notifier_block list" where
  "register_cpu_notifier nb chain = notifier_chain_register nb chain"

definition cpu_chain ::
  "('v, 'd, 'p, 'g) sched_env \<Rightarrow> alloc \<Rightarrow> vcpu_alloc \<Rightarrow> rc \<Rightarrow> ('v, 'd, 'p, 'g) xen notifier_block list" where
  "cpu_chain E A V area =
     fold register_cpu_notifier [cpu_schedule_nfb E A V, cpu_nfb E A, cpu_percpu_nfb area] []"

definition bug_on :: "bool \<Rightarrow> ('v, 'd, 'p, 'g) xen \<Rightarrow> ('v, 'd, 'p, 'g) xen" where
  "bug_on b s = (if b then panic Bug_on s else s)"

text \<open>An event that no handler may refuse.\<close>

definition notify_all ::
  "('v, 'd, 'p, 'g) xen notifier_block list \<Rightarrow> cpu_action \<Rightarrow> nat \<Rightarrow> ('v, 'd, 'p, 'g) xen \<Rightarrow> ('v, 'd, 'p, 'g) xen" where
  "notify_all chain a cpu s =
     (case notifier_call_chain chain a cpu None s of (rc, _, s') \<Rightarrow> bug_on (rc \<noteq> NOTIFY_DONE) s')"

definition notify_cpu_starting ::
  "('v, 'd, 'p, 'g) xen notifier_block list \<Rightarrow> nat \<Rightarrow> ('v, 'd, 'p, 'g) xen \<Rightarrow> ('v, 'd, 'p, 'g) xen" where
  "notify_cpu_starting chain cpu s = notify_all chain CPU_STARTING cpu s"

text \<open>What a CPU that comes up does to the state, on the new CPU.\<close>

definition start_secondary ::
  "('v, 'd, 'p, 'g) xen notifier_block list \<Rightarrow> nat \<Rightarrow> ('v, 'd, 'p, 'g) xen \<Rightarrow> ('v, 'd, 'p, 'g) xen" where
  "start_secondary chain cpu s =
     upd_glob (\<lambda>g. g\<lparr>cpu_online_map := insert cpu (cpu_online_map g)\<rparr>)
       (notify_cpu_starting chain cpu (s\<lparr>current := (current s)(cpu := idle_vcpu s cpu)\<rparr>))"

text \<open>
  \<open>boot\<close> is the error of setting up the page tables or of starting the CPU, or else whether the
  CPU comes online within a second.
\<close>

definition arch_cpu_up ::
  "('v, 'd, 'p, 'g) xen notifier_block list \<Rightarrow> errno + bool \<Rightarrow> nat \<Rightarrow> ('v, 'd, 'p, 'g) xen \<Rightarrow> rc \<times> ('v, 'd, 'p, 'g) xen" where
  "arch_cpu_up chain boot cpu s =
     (case boot of
        Inl e \<Rightarrow> (Inl e, s)
      | Inr False \<Rightarrow> (Inl EIO, s)
      | Inr True \<Rightarrow> (OK, start_secondary chain cpu s))"

text \<open>
  \<open>lock\<close> is the result of cpu_hotplug_begin. The handlers are told of a failure from where the
  notification stopped.
\<close>

definition cpu_up ::
  "('v, 'd, 'p, 'g) xen notifier_block list \<Rightarrow> bool \<Rightarrow> cpumask \<Rightarrow> errno + bool \<Rightarrow> nat \<Rightarrow> ('v, 'd, 'p, 'g) xen
    \<Rightarrow> 32 word \<times> ('v, 'd, 'p, 'g) xen" where
  "cpu_up chain lock present boot cpu s =
     (if \<not> lock then (errval (Inl EBUSY), s)
      else if cpu \<ge> nr_cpu_ids s \<or> cpu \<in> cpu_online_map (glob s) \<or> cpu \<notin> present then (errval (Inl EINVAL), s)
      else
        case notifier_call_chain chain CPU_UP_PREPARE cpu None s of
          (rc, nb, s1) \<Rightarrow>
            let fail = (\<lambda>err s. case notifier_call_chain chain CPU_UP_CANCELED cpu (Some nb) s of
                                  (rc', _, s') \<Rightarrow> (err, bug_on (rc' \<noteq> NOTIFY_DONE) s'))
            in if rc \<noteq> NOTIFY_DONE then fail (notifier_to_errno rc) s1
               else
                 case arch_cpu_up chain boot cpu s1 of
                   (Inl e, s2) \<Rightarrow> fail (errval (Inl e)) s2
                 | (Inr _, s2) \<Rightarrow> (0, send Pcpu_state (notify_all chain CPU_ONLINE cpu s2)))"

definition arch_cpu_disable ::
  "('v, 'd, 'p, 'g) sched_env \<Rightarrow> nat \<Rightarrow> ('v, 'd, 'p, 'g) xen \<Rightarrow> ('v, 'd, 'p, 'g) xen option" where
  "arch_cpu_disable E cpu s =
     (case cpu_disable_scheduler E cpu (upd_glob (\<lambda>g. g\<lparr>cpu_online_map := cpu_online_map g - {cpu}\<rparr>) s) of
        None \<Rightarrow> None
      | Some (rc, s') \<Rightarrow> Some (bug_on (rc \<noteq> OK) s'))"

definition take_cpu_down ::
  "('v, 'd, 'p, 'g) sched_env \<Rightarrow> ('v, 'd, 'p, 'g) xen notifier_block list \<Rightarrow> nat \<Rightarrow> ('v, 'd, 'p, 'g) xen
    \<Rightarrow> ('v, 'd, 'p, 'g) xen option" where
  "take_cpu_down E chain cpu s = arch_cpu_disable E cpu (notify_all chain CPU_DYING cpu s)"

text \<open>
  \<open>stop\<close> is the error of stop_machine_run, which otherwise runs take_cpu_down on the CPU and
  returns its 0. Without a result take_cpu_down has not ended.
\<close>

definition cpu_down ::
  "('v, 'd, 'p, 'g) sched_env \<Rightarrow> ('v, 'd, 'p, 'g) xen notifier_block list \<Rightarrow> bool \<Rightarrow> rc \<Rightarrow> nat \<Rightarrow> ('v, 'd, 'p, 'g) xen
    \<Rightarrow> (32 word \<times> ('v, 'd, 'p, 'g) xen) option" where
  "cpu_down E chain lock stop cpu s =
     (if \<not> lock then Some (errval (Inl EBUSY), s)
      else if cpu \<ge> nr_cpu_ids s \<or> cpu = 0 \<or> cpu \<notin> cpu_online_map (glob s) then Some (errval (Inl EINVAL), s)
      else
        case notifier_call_chain chain CPU_DOWN_PREPARE cpu None s of
          (rc, nb, s1) \<Rightarrow>
            let fail = (\<lambda>err s. case notifier_call_chain chain CPU_DOWN_FAILED cpu (Some nb) s of
                                  (rc', _, s') \<Rightarrow> Some (err, bug_on (rc' \<noteq> NOTIFY_DONE) s'))
            in if rc \<noteq> NOTIFY_DONE then fail (notifier_to_errno rc) s1
               else
                 case stop of
                   Inl e \<Rightarrow> fail (errval (Inl e)) s1
                 | Inr _ \<Rightarrow>
                     (case take_cpu_down E chain cpu s1 of
                        None \<Rightarrow> None
                      | Some s2 \<Rightarrow>
                          let s3 = bug_on (cpu \<in> cpu_online_map (glob s2)) s2
                          in Some (0, send Pcpu_state (notify_all chain CPU_DEAD cpu s3))))"

text \<open>
  Suspend and resume: all CPUs but CPU 0 go down and come back. \<open>stop\<close> and \<open>boot\<close> give the outcome for
  each CPU; the result is the error, the frozen CPUs and the state.
\<close>

fun disable_loop ::
  "('v, 'd, 'p, 'g) sched_env \<Rightarrow> ('v, 'd, 'p, 'g) xen notifier_block list \<Rightarrow> bool \<Rightarrow> (nat \<Rightarrow> rc) \<Rightarrow> nat list \<Rightarrow> cpumask
    \<Rightarrow> ('v, 'd, 'p, 'g) xen \<Rightarrow> (32 word \<times> cpumask \<times> ('v, 'd, 'p, 'g) xen) option" where
  "disable_loop E chain lock stop [] frozen s = Some (0, frozen, s)"
| "disable_loop E chain lock stop (cpu # cpus) frozen s =
     (if cpu \<notin> cpu_online_map (glob s) \<or> cpu = 0 then disable_loop E chain lock stop cpus frozen s
      else
        case cpu_down E chain lock (stop cpu) cpu s of
          None \<Rightarrow> None
        | Some (err, s1) \<Rightarrow>
            if err \<noteq> 0 then Some (err, frozen, bug_on (err = errval (Inl EBUSY)) s1)
            else disable_loop E chain lock stop cpus (insert cpu frozen) s1)"

definition num_online_cpus :: "('v, 'd, 'p, 'g) xen \<Rightarrow> nat" where
  "num_online_cpus s = length (filter (\<lambda>c. c \<in> cpu_online_map (glob s)) [0..<nr_cpu_ids s])"

definition disable_nonboot_cpus ::
  "('v, 'd, 'p, 'g) sched_env \<Rightarrow> ('v, 'd, 'p, 'g) xen notifier_block list \<Rightarrow> bool \<Rightarrow> (nat \<Rightarrow> rc) \<Rightarrow> nat
    \<Rightarrow> ('v, 'd, 'p, 'g) xen \<Rightarrow> (32 word \<times> cpumask \<times> ('v, 'd, 'p, 'g) xen) option" where
  "disable_nonboot_cpus E chain lock stop me s =
     (case disable_loop E chain lock stop [0..<nr_cpu_ids s] {} (bug_on (me \<noteq> 0) s) of
        None \<Rightarrow> None
      | Some (err, frozen, s') \<Rightarrow> Some (err, frozen, bug_on (err = 0 \<and> num_online_cpus s' \<noteq> 1) s'))"

definition enable_nonboot_cpus ::
  "('v, 'd, 'p, 'g) xen notifier_block list \<Rightarrow> bool \<Rightarrow> cpumask \<Rightarrow> (nat \<Rightarrow> errno + bool) \<Rightarrow> cpumask
    \<Rightarrow> ('v, 'd, 'p, 'g) xen \<Rightarrow> cpumask \<times> ('v, 'd, 'p, 'g) xen" where
  "enable_nonboot_cpus chain lock present boot frozen s =
     ({}, fold (\<lambda>cpu s. case cpu_up chain lock present (boot cpu) cpu s of
                          (err, s') \<Rightarrow> bug_on (err = errval (Inl EBUSY)) s')
            (filter (\<lambda>c. c \<in> frozen) [0..<nr_cpu_ids s]) s)"

end
