(* ===== verification/Cpu_Hotplug_Inv.thy ===== *)
theory Cpu_Hotplug_Inv
  imports Cpu_Hotplug Cpupool_Runs
begin

text \<open>
  Lemmas on CPU hotplug: the operations written as runs over lists of handlers, what the handlers
  do to the abstract state of the pools, and which CPUs of a pool are suspended.
\<close>

section \<open>Without the cursor\<close>

text \<open>
  References for cpu_up and cpu_down: the handlers that accepted the preparation, and only they,
  are told when it fails, in the opposite order.
\<close>

definition run_undo ::
  "cpu_action \<Rightarrow> nat \<Rightarrow> ('v, 'd, 'p, 'g) xen notifier_block list \<Rightarrow> 32 word \<Rightarrow> ('v, 'd, 'p, 'g) xen
    \<Rightarrow> 32 word \<times> ('v, 'd, 'p, 'g) xen" where
  "run_undo a cpu accepted err s =
     (case run_blocks a cpu (rev accepted) NOTIFY_DONE s of (_, rc, s') \<Rightarrow> (err, bug_on (rc \<noteq> NOTIFY_DONE) s'))"

definition tell_all ::
  "cpu_action \<Rightarrow> nat \<Rightarrow> ('v, 'd, 'p, 'g) xen notifier_block list \<Rightarrow> ('v, 'd, 'p, 'g) xen \<Rightarrow> ('v, 'd, 'p, 'g) xen" where
  "tell_all a cpu bs s = (case run_blocks a cpu bs NOTIFY_DONE s of (_, rc, s') \<Rightarrow> bug_on (rc \<noteq> NOTIFY_DONE) s')"

definition cpu_up_spec ::
  "('v, 'd, 'p, 'g) xen notifier_block list \<Rightarrow> bool \<Rightarrow> cpumask \<Rightarrow> errno + bool \<Rightarrow> nat \<Rightarrow> ('v, 'd, 'p, 'g) xen
    \<Rightarrow> 32 word \<times> ('v, 'd, 'p, 'g) xen" where
  "cpu_up_spec chain lock present boot cpu s =
     (if \<not> lock then (errval (Inl EBUSY), s)
      else if cpu \<ge> nr_cpu_ids s \<or> cpu \<in> cpu_online_map (glob s) \<or> cpu \<notin> present then (errval (Inl EINVAL), s)
      else
        case run_blocks CPU_UP_PREPARE cpu chain NOTIFY_DONE s of
          (accepted, rc, s1) \<Rightarrow>
            if rc \<noteq> NOTIFY_DONE then run_undo CPU_UP_CANCELED cpu accepted (notifier_to_errno rc) s1
            else
              case boot of
                Inl e \<Rightarrow> run_undo CPU_UP_CANCELED cpu accepted (errval (Inl e)) s1
              | Inr False \<Rightarrow> run_undo CPU_UP_CANCELED cpu accepted (errval (Inl EIO)) s1
              | Inr True \<Rightarrow>
                  let s2 = tell_all CPU_STARTING cpu chain (s1\<lparr>current := (current s1)(cpu := idle_vcpu s1 cpu)\<rparr>);
                      s3 = upd_glob (\<lambda>g. g\<lparr>cpu_online_map := insert cpu (cpu_online_map g)\<rparr>) s2
                  in (0, send Pcpu_state (tell_all CPU_ONLINE cpu chain s3)))"

definition cpu_down_spec ::
  "('v, 'd, 'p, 'g) sched_env \<Rightarrow> ('v, 'd, 'p, 'g) xen notifier_block list \<Rightarrow> bool \<Rightarrow> rc \<Rightarrow> nat \<Rightarrow> ('v, 'd, 'p, 'g) xen
    \<Rightarrow> (32 word \<times> ('v, 'd, 'p, 'g) xen) option" where
  "cpu_down_spec E chain lock stop cpu s =
     (if \<not> lock then Some (errval (Inl EBUSY), s)
      else if cpu \<ge> nr_cpu_ids s \<or> cpu = 0 \<or> cpu \<notin> cpu_online_map (glob s) then Some (errval (Inl EINVAL), s)
      else
        case run_blocks CPU_DOWN_PREPARE cpu (rev chain) NOTIFY_DONE s of
          (accepted, rc, s1) \<Rightarrow>
            if rc \<noteq> NOTIFY_DONE then Some (run_undo CPU_DOWN_FAILED cpu accepted (notifier_to_errno rc) s1)
            else
              case stop of
                Inl e \<Rightarrow> Some (run_undo CPU_DOWN_FAILED cpu accepted (errval (Inl e)) s1)
              | Inr _ \<Rightarrow>
                  (case arch_cpu_disable E cpu (tell_all CPU_DYING cpu (rev chain) s1) of
                     None \<Rightarrow> None
                   | Some s2 \<Rightarrow>
                       let s3 = bug_on (cpu \<in> cpu_online_map (glob s2)) s2
                       in Some (0, send Pcpu_state (tell_all CPU_DEAD cpu (rev chain) s3))))"

lemma backwards_simps [simp]:
  "\<not> backwards CPU_UP_PREPARE" "backwards CPU_UP_CANCELED" "\<not> backwards CPU_STARTING" "\<not> backwards CPU_ONLINE"
  "backwards CPU_DOWN_PREPARE" "\<not> backwards CPU_DOWN_FAILED" "backwards CPU_DYING" "backwards CPU_DEAD"
  by (simp_all add: backwards_def)

lemma notify_all_tell: "notify_all chain a cpu s = tell_all a cpu (chain_order a chain) s"
proof -
  obtain ds r t where run: "run_blocks a cpu (chain_order a chain) NOTIFY_DONE s = (ds, r, t)" by (metis prod_cases3)
  then obtain q where "notifier_call_chain chain a cpu None s = (r, q, t)" by (rule chain_run)
  with run show ?thesis by (simp add: notify_all_def tell_all_def)
qed

lemma notify_all_eq:
  "notify_all chain CPU_STARTING cpu s = tell_all CPU_STARTING cpu chain s"
  "notify_all chain CPU_ONLINE cpu s = tell_all CPU_ONLINE cpu chain s"
  "notify_all chain CPU_DYING cpu s = tell_all CPU_DYING cpu (rev chain) s"
  "notify_all chain CPU_DEAD cpu s = tell_all CPU_DEAD cpu (rev chain) s"
  by (simp_all add: notify_all_tell chain_order_def)

lemma cpu_up_eq: "cpu_up chain lock present boot cpu s = cpu_up_spec chain lock present boot cpu s"
proof -
  obtain ds r t where run: "run_blocks CPU_UP_PREPARE cpu chain NOTIFY_DONE s = (ds, r, t)" by (metis prod_cases3)
  then have "run_blocks CPU_UP_PREPARE cpu (chain_order CPU_UP_PREPARE chain) NOTIFY_DONE s = (ds, r, t)"
    by (simp add: chain_order_def)
  then obtain q where q: "notifier_call_chain chain CPU_UP_PREPARE cpu None s = (r, q, t)"
    and undo: "\<And>b x. backwards b \<noteq> backwards CPU_UP_PREPARE \<Longrightarrow> \<exists>q'. notifier_call_chain chain b cpu (Some q) x =
      (case run_blocks b cpu (rev ds) NOTIFY_DONE x of (_, r', x') \<Rightarrow> (r', q', x'))"
    by (rule chain_run) blast
  have fail: "(case notifier_call_chain chain CPU_UP_CANCELED cpu (Some q) x of
      (rc', _, s') \<Rightarrow> (err, bug_on (rc' \<noteq> NOTIFY_DONE) s')) = run_undo CPU_UP_CANCELED cpu ds err x" for err x
    using undo [of CPU_UP_CANCELED x] by (auto simp: run_undo_def split: prod.splits)
  show ?thesis
    unfolding cpu_up_def cpu_up_spec_def q run Let_def prod.case fail
    by (auto simp: arch_cpu_up_def start_secondary_def notify_cpu_starting_def notify_all_eq split: sum.splits bool.splits)
qed

lemma cpu_down_eq: "cpu_down E chain lock stop cpu s = cpu_down_spec E chain lock stop cpu s"
proof -
  obtain ds r t where run: "run_blocks CPU_DOWN_PREPARE cpu (rev chain) NOTIFY_DONE s = (ds, r, t)" by (metis prod_cases3)
  then have "run_blocks CPU_DOWN_PREPARE cpu (chain_order CPU_DOWN_PREPARE chain) NOTIFY_DONE s = (ds, r, t)"
    by (simp add: chain_order_def)
  then obtain q where q: "notifier_call_chain chain CPU_DOWN_PREPARE cpu None s = (r, q, t)"
    and undo: "\<And>b x. backwards b \<noteq> backwards CPU_DOWN_PREPARE \<Longrightarrow> \<exists>q'. notifier_call_chain chain b cpu (Some q) x =
      (case run_blocks b cpu (rev ds) NOTIFY_DONE x of (_, r', x') \<Rightarrow> (r', q', x'))"
    by (rule chain_run) blast
  have fail: "(case notifier_call_chain chain CPU_DOWN_FAILED cpu (Some q) x of
      (rc', _, s') \<Rightarrow> Some (err, bug_on (rc' \<noteq> NOTIFY_DONE) s')) = Some (run_undo CPU_DOWN_FAILED cpu ds err x)" for err x
    using undo [of CPU_DOWN_FAILED x] by (auto simp: run_undo_def split: prod.splits)
  show ?thesis
    unfolding cpu_down_def cpu_down_spec_def q run Let_def prod.case fail
    by (auto simp: take_cpu_down_def notify_all_eq split: sum.splits option.splits)
qed

section \<open>The chain of the modelled handlers\<close>

lemma cpu_chain_eq: "cpu_chain E A V area = [cpu_percpu_nfb area, cpu_schedule_nfb E A V, cpu_nfb E A]"
  by (simp add: cpu_chain_def register_cpu_notifier_def notifier_chain_register_def cpu_percpu_nfb_def
      cpu_schedule_nfb_def cpu_nfb_def)

section \<open>Effects on the pools\<close>

text \<open>The hooks for the private data of CPUs leave the pools alone; freeing those of a vcpu touches only them.\<close>

locale hotplug_contract = pool_contract E for E :: "('v, 'd, 'p, 'g) sched_env" +
  assumes init_pdata_frame: "op_init_pdata (E k) = Some f \<Longrightarrow> pool_view (f ops p cpu s) = pool_view s"
    and free_pdata_frame: "pool_view (op_free_pdata (E k) ops cpu s) = pool_view s"
    and free_vdata_frame: "erase (op_free_vdata (E k) ops v s) = erase s"

lemma pool_view_outside [simp]:
  "pool_view (bug_on b s) = pool_view s" "pool_view (s\<lparr>current := x\<rparr>) = pool_view s"
  "pool_view (s\<lparr>idle_vcpu := y\<rparr>) = pool_view s" "pool_view (s\<lparr>pcpu_sched := z\<rparr>) = pool_view s"
  by (simp_all add: bug_on_def) (simp_all add: pool_view_def)

lemma pool_view_online:
  "pool_view (upd_glob (\<lambda>g. g\<lparr>cpu_online_map := f (cpu_online_map g)\<rparr>) s) =
     (pool_view s)\<lparr>pw_online := f (cpu_online_map (glob s))\<rparr>"
  by (simp add: pool_view_def upd_glob_def)

lemma view_link [simp]: "pool_view (link_vcpu d i v s) = pool_view s"
  by (simp add: link_vcpu_def Let_def pool_view_dom split: option.split)

lemma view_finalise [simp]: "pool_view (domain_finalise_shutdown d s) = pool_view s"
  by (simp add: domain_finalise_shutdown_def Let_def pool_view_dom)

context pool_contract
begin

lemma view_check_shutdown [simp]: "pool_view (vcpu_check_shutdown E v s) = pool_view s"
  by (simp add: vcpu_check_shutdown_def Let_def)

lemma view_init_vcpu: "sched_init_vcpu E A v cpu s = (r, s') \<Longrightarrow> pool_view s' = pool_view s"
  by (auto simp: sched_init_vcpu_def Let_def split: if_splits)

end

context hotplug_contract
begin

lemma view_free_vdata [simp]: "pool_view (op_free_vdata (E k) ops v s) = pool_view s"
  by (rule pool_view_erase [OF free_vdata_frame])

lemma view_destroy_vcpu [simp]: "pool_view (sched_destroy_vcpu E v s) = pool_view s"
  by (simp add: sched_destroy_vcpu_def Let_def vcpu_ops_def)

lemma view_alloc_vcpu: "alloc_vcpu E A V d i cpu s = (r, s') \<Longrightarrow> pool_view s' = pool_view s"
  by (auto simp: alloc_vcpu_def Let_def split: option.splits prod.splits if_splits dest!: view_init_vcpu)

lemma view_schedule_up: "cpu_schedule_up E A V cpu s = (r, s') \<Longrightarrow> pool_view s' = pool_view s"
proof -
  define s1 where "s1 = upd_pcpu cpu (\<lambda>x. x\<lparr>sd_lock := Cpu_lock cpu, sd_curr := idle_vcpu s cpu, sd_timer := atimer_init cpu,
      urgent_count := 0\<rparr>) (s\<lparr>pcpu_sched := (pcpu_sched s)(cpu := default_ops s)\<rparr>)"
  have s1: "pool_view s1 = pool_view s" "sched_kind s1 = sched_kind s" "default_ops s1 = default_ops s" by (simp_all add: s1_def)
  have al: "op_alloc_pdata (E k) b ops cpu t = (x, u) \<Longrightarrow> pool_view u = pool_view t" for k b ops t x u
    using alloc_pdata_frame [of k b ops cpu t] by simp
  assume "cpu_schedule_up E A V cpu s = (r, s')"
  then show ?thesis
    using s1(1) unfolding cpu_schedule_up_def Let_def s1_def [symmetric] s1(2)
    by (auto split: if_splits option.splits prod.splits sum.splits dest!: al view_alloc_vcpu)
qed

lemma view_schedule_down [simp]: "pool_view (cpu_schedule_down E cpu s) = pool_view s"
  by (simp add: cpu_schedule_down_def Let_def free_pdata_frame)

lemma view_pdata [simp]:
  "pool_view (SCHED_OP_pdata (op_init_pdata (E k)) ops cpu s) = pool_view s"
  "pool_view (SCHED_OP_pdata (op_deinit_pdata (E k)) ops cpu s) = pool_view s"
  by (simp_all add: SCHED_OP_pdata_def init_pdata_frame deinit_pdata_frame split: option.split)

lemma view_schedule_callback: "pool_view (snd (cpu_schedule_callback E A V action cpu s)) = pool_view s"
  by (cases action) (auto simp: cpu_schedule_callback_def Let_def split_beta view_schedule_up [OF prod.collapse [symmetric]])

end

section \<open>Suspended CPUs\<close>

text \<open>
  The CPUs \<open>D\<close> are down: each pool \<open>c\<close> of the list has lost them from its CPUs \<open>V c\<close> and remembers
  them; its other CPUs are bound to it and not free. No CPU is being moved.
\<close>

definition frozen_as ::
  "nat list \<Rightarrow> (nat \<Rightarrow> cpumask) \<Rightarrow> system_state \<Rightarrow> nat \<Rightarrow> cpumask \<Rightarrow> cpumask \<Rightarrow> pool_state \<Rightarrow> bool" where
  "frozen_as pl V st n up D P \<longleftrightarrow>
     pw_list P = pl \<and> pw_system P = st \<and> pw_nr P = n \<and> pw_online P = up \<and> pw_moving P = None
     \<and> (\<forall>c\<in>set pl. cpu_valid (pw_pools P c) = V c - D \<and> cpu_suspended (pw_pools P c) = V c \<inter> D
          \<and> (\<forall>x\<in>V c - D. pw_cpu P x = Some c \<and> x \<notin> pw_free P))"

definition disjoint_pools :: "nat list \<Rightarrow> (nat \<Rightarrow> cpumask) \<Rightarrow> bool" where
  "disjoint_pools pl V \<longleftrightarrow> (\<forall>a\<in>set pl. \<forall>b\<in>set pl. a \<noteq> b \<longrightarrow> V a \<inter> V b = {})"

lemma frozen_as_online: "frozen_as pl V st n up D P \<Longrightarrow> frozen_as pl V st n up' D (P\<lparr>pw_online := up'\<rparr>)"
  by (simp add: frozen_as_def)

lemma frozen_as_locked [simp]: "frozen_as pl V st n up D (P\<lparr>pw_locked := L\<rparr>) = frozen_as pl V st n up D P"
  by (simp add: frozen_as_def)

text \<open>A CPU goes down: it is found in at most one pool.\<close>

lemma frozen_as_down:
  assumes "frozen_as pl V st n up D P" and "disjoint_pools pl V"
    and "find (\<lambda>c. cpu \<in> cpu_valid (pw_pools P c)) pl = r"
  shows "frozen_as pl V st n up (insert cpu D)
    (case r of None \<Rightarrow> P
     | Some c \<Rightarrow> P\<lparr>pw_pools := (pw_pools P)(c := (pw_pools P c)\<lparr>cpu_suspended := insert cpu (cpu_suspended (pw_pools P c)),
         cpu_valid := cpu_valid (pw_pools P c) - {cpu}\<rparr>)\<rparr>)"
proof (cases r)
  case None
  with assms(1,3) have "\<And>c. c \<in> set pl \<Longrightarrow> cpu \<notin> V c - D" by (auto simp: find_None_iff frozen_as_def)
  with None assms(1) show ?thesis by (auto simp: frozen_as_def)
next
  case (Some c)
  with assms(3) have c: "c \<in> set pl" "cpu \<in> cpu_valid (pw_pools P c)" by (auto simp: find_Some_iff)
  with assms(1,2) have "\<And>b. b \<in> set pl \<Longrightarrow> b \<noteq> c \<Longrightarrow> cpu \<notin> V b" by (auto simp: frozen_as_def disjoint_pools_def)
  with Some c assms(1) show ?thesis by (auto simp: frozen_as_def)
qed

lemma remove_suspends:
  assumes "frozen_as pl V SYS_STATE_suspend n up D (pool_view s)" and "disjoint_pools pl V"
  obtains s' where "cpupool_cpu_remove cpu s = (OK, s')"
    and "frozen_as pl V SYS_STATE_suspend n up (insert cpu D) (pool_view s')"
proof -
  from assms(1) have st: "system_state (glob s) = SYS_STATE_suspend" "pool_list s = pl" by (simp_all add: frozen_as_def)
  note down = frozen_as_down [OF assms refl, of cpu]
  show thesis
    by (rule that [OF prod_eqI [of _ "(OK, snd (cpupool_cpu_remove cpu s))"]])
      (use down st in \<open>auto simp: cpupool_cpu_remove_def Let_def pool_view_lock pool_view_upd_pool split: option.splits\<close>)
qed

text \<open>A CPU comes back to the pool that remembers it.\<close>

lemma frozen_as_up:
  assumes "frozen_as pl V st n up D P" and "disjoint_pools pl V" and "cpu \<in> D"
    and "find (\<lambda>c. cpu \<in> cpu_suspended (pw_pools P c)) pl = r"
  shows "frozen_as pl V st n up (D - {cpu})
    (case r of None \<Rightarrow> P\<lparr>pw_free := insert cpu (pw_free P), pw_cpu := (pw_cpu P)(cpu := None)\<rparr>
     | Some c \<Rightarrow> P\<lparr>pw_cpu := (pw_cpu P)(cpu := Some c), pw_free := pw_free P - {cpu},
         pw_pools := (pw_pools P)(c := (pw_pools P c)\<lparr>cpu_valid := insert cpu (cpu_valid (pw_pools P c)),
           cpu_suspended := cpu_suspended (pw_pools P c) - {cpu}\<rparr>)\<rparr>)"
proof (cases r)
  case None
  with assms(1,3,4) have "\<And>c. c \<in> set pl \<Longrightarrow> cpu \<notin> V c" by (auto simp: find_None_iff frozen_as_def)
  then have "\<And>c. c \<in> set pl \<Longrightarrow> V c - (D - {cpu}) = V c - D \<and> V c \<inter> (D - {cpu}) = V c \<inter> D \<and> cpu \<notin> V c - D" by blast
  with None assms(1) show ?thesis by (auto simp: frozen_as_def)
next
  case (Some c)
  with assms(4) have c: "c \<in> set pl" "cpu \<in> cpu_suspended (pw_pools P c)" by (auto simp: find_Some_iff)
  with assms(1,2) have other: "\<And>b. b \<in> set pl \<Longrightarrow> b \<noteq> c \<Longrightarrow> cpu \<notin> V b" and "cpu \<in> V c"
    by (auto simp: frozen_as_def disjoint_pools_def)
  then have "V c - (D - {cpu}) = insert cpu (V c - D)" "V c \<inter> (D - {cpu}) = V c \<inter> D - {cpu}" by blast+
  moreover have "V b - (D - {cpu}) = V b - D \<and> V b \<inter> (D - {cpu}) = V b \<inter> D \<and> cpu \<notin> V b - D" if "b \<in> set pl" "b \<noteq> c" for b
    using other [OF that] by blast
  ultimately show ?thesis using Some c assms(1) by (auto simp: frozen_as_def)
qed

section \<open>Suspend and resume\<close>

lemma notify_done_and [simp]: "NOTIFY_DONE AND x = 0"
  by (simp add: NOTIFY_DONE_def)

lemmas chain_run_simps =
  cpu_chain_eq cpu_percpu_nfb_def cpu_schedule_nfb_def cpu_nfb_def cpu_percpu_callback_def cpu_schedule_callback_def
  cpu_callback_def tell_all_def Let_def

text \<open>What the three handlers do together, event by event.\<close>

lemma chain_down_prepare:
  "cpupool_cpu_remove cpu s = (OK, s') \<Longrightarrow>
    run_blocks CPU_DOWN_PREPARE cpu (rev (cpu_chain E A V area)) NOTIFY_DONE s = (rev (cpu_chain E A V area), NOTIFY_DONE, s')"
  by (simp add: chain_run_simps)

lemma chain_dying: "tell_all CPU_DYING cpu (rev (cpu_chain E A V area)) s = s"
  by (simp add: chain_run_simps bug_on_def)

lemma chain_dead:
  "tell_all CPU_DEAD cpu (rev (cpu_chain E A V area)) s =
     cpu_schedule_down E cpu (SCHED_OP_pdata (op_deinit_pdata (E (sched_kind s (pcpu_sched s cpu)))) (pcpu_sched s cpu) cpu s)"
  by (simp add: chain_run_simps bug_on_def)

lemma chain_starting:
  "tell_all CPU_STARTING cpu (cpu_chain E A V area) s =
     SCHED_OP_pdata (op_init_pdata (E (sched_kind s (pcpu_sched s cpu)))) (pcpu_sched s cpu) cpu s"
  by (simp add: chain_run_simps bug_on_def)

lemma chain_online:
  "tell_all CPU_ONLINE cpu (cpu_chain E A V area) s = (case cpupool_cpu_add E A cpu s of (rc, s') \<Rightarrow> bug_on (rc \<noteq> OK) s')"
  by (cases "cpupool_cpu_add E A cpu s") (auto simp: chain_run_simps split: prod.splits)

lemma chain_up_prepare:
  "init_percpu_area OK cpu s = (OK, s0) \<Longrightarrow> cpu_schedule_up E A V cpu s0 = (OK, s') \<Longrightarrow>
    run_blocks CPU_UP_PREPARE cpu (cpu_chain E A V OK) NOTIFY_DONE s = (cpu_chain E A V OK, NOTIFY_DONE, s')"
  by (simp add: chain_run_simps)

lemma view_init_area:
  "pool_view (snd (init_percpu_area OK cpu s)) = (pool_view s)\<lparr>pw_cpu := (pcpu_pool s)(cpu := None)\<rparr>"
  by (simp add: init_percpu_area_def pool_view_def)

text \<open>
  \<open>A\<close> and \<open>W\<close> grant all that bringing up a CPU allocates, so that no step of it fails.
\<close>

definition up_granted :: "('v, 'd, 'p, 'g) sched_env \<Rightarrow> alloc \<Rightarrow> vcpu_alloc \<Rightarrow> bool" where
  "up_granted E A W \<longleftrightarrow> (\<forall>cpu s. fst (cpu_schedule_up E A W cpu s) = OK)
     \<and> (\<forall>cpu c s. fst (schedule_cpu_switch E A cpu (Some c) s) = OK)"

context hotplug_contract
begin

text \<open>While the system suspends no vcpu is migrated, so taking a CPU from its scheduler always ends.\<close>

lemma suspend_disable_vcpus:
  "system_state (glob s) = SYS_STATE_suspend \<Longrightarrow> disable_vcpus E c cpu vs ret s \<noteq> None"
proof (induction vs arbitrary: s)
  case (Cons v vs)
  have move: "system_state (glob (vcpu_move_nosched E v x t)) = system_state (glob t)" for x t
    using pool_view_reads(11) [of "vcpu_move_nosched E v x t" t] by (simp add: vcpu_move_nosched_def Let_def)
  show ?case using Cons by (simp add: Let_def move)
qed simp

lemma suspend_disable_domains:
  "system_state (glob s) = SYS_STATE_suspend \<Longrightarrow> disable_domains E c cpu ds ret s \<noteq> None"
proof (induction ds arbitrary: ret s)
  case (Cons d ds)
  obtain r t where t: "disable_vcpus E c cpu (dom_vcpus (domains s d)) ret s = Some (r, t)"
    using suspend_disable_vcpus [OF Cons.prems, of c cpu "dom_vcpus (domains s d)" ret] by (auto simp: not_None_eq)
  have "system_state (glob t) = SYS_STATE_suspend" using pool_view_reads(11) [OF view_disable_vcpus [OF t]] Cons.prems by simp
  from Cons.IH [OF this] show ?case by (simp add: t)
qed simp

lemma suspend_disable_scheduler:
  "system_state (glob s) = SYS_STATE_suspend \<Longrightarrow> cpu_disable_scheduler E cpu s \<noteq> None"
  using suspend_disable_domains by (simp add: cpu_disable_scheduler_def split: option.splits)

lemma down_suspends:
  assumes "cpu < n" "cpu \<noteq> 0" "cpu \<in> up"
    and "frozen_as pl V SYS_STATE_suspend n up D (pool_view s)" and "disjoint_pools pl V"
  obtains s' where "cpu_down E (cpu_chain E A W area) True OK cpu s = Some (0, s')"
    and "frozen_as pl V SYS_STATE_suspend n (up - {cpu}) (insert cpu D) (pool_view s')"
proof -
  obtain s1 where rm: "cpupool_cpu_remove cpu s = (OK, s1)"
    and s1: "frozen_as pl V SYS_STATE_suspend n up (insert cpu D) (pool_view s1)"
    by (rule remove_suspends [OF assms(4,5)])
  note pre = chain_down_prepare [OF rm, of E A W area]
  have guard: "nr_cpu_ids s = n" "cpu_online_map (glob s) = up" "cpu_online_map (glob s1) = up"
    "system_state (glob s1) = SYS_STATE_suspend" using assms(4) s1 by (simp_all add: frozen_as_def)
  let ?s1 = "upd_glob (\<lambda>g. g\<lparr>cpu_online_map := cpu_online_map g - {cpu}\<rparr>) s1"
  have "cpu_disable_scheduler E cpu ?s1 \<noteq> None" by (rule suspend_disable_scheduler) (simp add: upd_glob_def guard)
  then obtain rc t where dis: "cpu_disable_scheduler E cpu ?s1 = Some (rc, t)" by (auto simp: not_None_eq)
  obtain s' where res: "cpu_down E (cpu_chain E A W area) True OK cpu s = Some (0, s')"
      "\<exists>b. pool_view s' = pool_view (bug_on b (bug_on (rc \<noteq> OK) t))"
    using assms(1-3) guard(1,2) dis unfolding cpu_down_eq cpu_down_spec_def pre chain_dying chain_dead arch_cpu_disable_def
    by (auto simp: Let_def)
  have "pool_view t = (pool_view s1)\<lparr>pw_online := cpu_online_map (glob s1) - {cpu}\<rparr>"
    using view_disable_scheduler [OF dis] by (simp add: pool_view_online [where f = "\<lambda>x. x - {cpu}"])
  then show ?thesis using that [OF res(1)] res(2) frozen_as_online [OF s1] guard(3) by auto
qed

lemma disable_loop_freezes:
  assumes "distinct cpus" and "set cpus \<subseteq> {..<n}" and "disjoint_pools pl V"
    and "frozen_as pl V SYS_STATE_suspend n up D (pool_view s)"
  shows "\<exists>s'. disable_loop E (cpu_chain E A W area) True (\<lambda>_. OK) cpus D s = Some (0, D \<union> (up \<inter> set cpus - {0}), s')
    \<and> frozen_as pl V SYS_STATE_suspend n (up - (set cpus - {0})) (D \<union> (up \<inter> set cpus - {0})) (pool_view s')"
  using assms
proof (induction cpus arbitrary: D up s)
  case Nil
  then show ?case by simp
next
  case (Cons cpu cpus)
  have online: "cpu_online_map (glob s) = up" using Cons.prems(4) by (simp add: frozen_as_def)
  show ?case
  proof (cases "cpu \<notin> up \<or> cpu = 0")
    case True
    then have "up - (set (cpu # cpus) - {0}) = up - (set cpus - {0})" "up \<inter> set (cpu # cpus) - {0} = up \<inter> set cpus - {0}"
      by auto
    with True Cons.IH [of up D s] Cons.prems show ?thesis by (simp only:) (auto simp: online)
  next
    case False
    have "cpu < n" using Cons.prems(2) by simp
    then obtain t where t: "cpu_down E (cpu_chain E A W area) True OK cpu s = Some (0, t)"
      and e: "frozen_as pl V SYS_STATE_suspend n (up - {cpu}) (insert cpu D) (pool_view t)"
      using False Cons.prems(3,4) down_suspends [where A = A and W = W and area = area] by blast
    have "up - {cpu} - (set cpus - {0}) = up - (set (cpu # cpus) - {0})"
      "insert cpu D \<union> ((up - {cpu}) \<inter> set cpus - {0}) = D \<union> (up \<inter> set (cpu # cpus) - {0})"
      using False Cons.prems(1) by auto
    with False t Cons.IH [OF _ _ _ e] Cons.prems show ?thesis by (simp only:) (auto simp: online)
  qed
qed

lemma add_resumes:
  assumes "frozen_as pl V SYS_STATE_resume n up D (pool_view s)" and "disjoint_pools pl V" and "cpu \<in> D"
    and "pcpu_pool s cpu = None" and "\<And>c t. fst (schedule_cpu_switch E A cpu (Some c) t) = OK"
  obtains s' where "cpupool_cpu_add E A cpu s = (OK, s')"
    and "frozen_as pl V SYS_STATE_resume n up (D - {cpu}) (pool_view s')"
proof -
  define s1 where "s1 = free_cpu cpu (upd_glob (\<lambda>g. g\<lparr>cpupool_locked_cpus := cpupool_locked_cpus g - {cpu}\<rparr>) s)"
  define r where "r = find (\<lambda>c. cpu \<in> cpu_suspended (pools s c)) pl"
  have st: "system_state (glob s) = SYS_STATE_resume" "pool_list s = pl" "cpupool_moving_cpu (glob s) = None"
    using assms(1) by (simp_all add: frozen_as_def)
  have s1: "system_state (glob s1) = SYS_STATE_resume" "pool_list s1 = pl" "pools s1 = pools s" "cpupool_moving_cpu (glob s1) = None"
    "cpu \<in> cpupool_free_cpus (glob s1)" by (simp_all add: s1_def free_cpu_def upd_glob_def st)
  have v1: "pool_view s1 = (pool_view s)\<lparr>pw_locked := cpupool_locked_cpus (glob s) - {cpu},
      pw_free := insert cpu (cpupool_free_cpus (glob s))\<rparr>"
    by (simp add: s1_def free_cpu_def upd_glob_def pool_view_def)
  note up = frozen_as_up [OF assms(1-3), of r]
  show thesis
  proof (cases r)
    case None
    have "(pcpu_pool s)(cpu := None) = pcpu_pool s" using assms(4) by auto
    with up None have "frozen_as pl V SYS_STATE_resume n up (D - {cpu}) (pool_view s1)"
      by (auto simp: v1 r_def frozen_as_def)
    moreover have "cpupool_cpu_add E A cpu s = (OK, s1)"
      using None s1 by (simp add: cpupool_cpu_add_def Let_def s1_def [symmetric] r_def)
    ultimately show ?thesis by (rule that [rotated])
  next
    case (Some c)
    obtain t where sw: "schedule_cpu_switch E A cpu (Some c) s1 = (OK, t)"
      using assms(5) [of c s1] by (metis prod.collapse)
    from view_cpu_switch [OF sw] have t: "pool_view t = (pool_view s1)\<lparr>pw_cpu := (pcpu_pool s1)(cpu := Some c)\<rparr>" by simp
    have tm: "cpupool_moving_cpu (glob t) = None"
      using arg_cong [OF t, where f = pw_moving] s1 by simp
    have assign: "cpupool_assign_cpu_locked E A c cpu s1 =
        (OK, upd_pool c (\<lambda>x. x\<lparr>cpu_valid := insert cpu (cpu_valid x)\<rparr>) (unfree_cpu cpu t))"
      using s1 tm sw by (simp add: cpupool_assign_cpu_locked_def unfree_cpu_def upd_glob_def)
    obtain u where u: "cpupool_cpu_add E A cpu s = (OK, u)"
      "pool_view u = pool_view (upd_pool c (\<lambda>x. x\<lparr>cpu_suspended := cpu_suspended x - {cpu}\<rparr>)
        (upd_pool c (\<lambda>x. x\<lparr>cpu_valid := insert cpu (cpu_valid x)\<rparr>) (unfree_cpu cpu t)))"
      using Some s1 by (simp add: cpupool_cpu_add_def Let_def s1_def [symmetric] r_def assign)
    have "pools t = pools s" "cpupool_free_cpus (glob t) = insert cpu (cpupool_free_cpus (glob s))"
      using arg_cong [OF t, where f = pw_pools] arg_cong [OF t, where f = pw_free] s1(3) by (simp_all add: v1)
    moreover have "pools (unfree_cpu cpu t) = pools t" by (simp add: unfree_cpu_def upd_glob_def)
    moreover have "pcpu_pool s1 = pcpu_pool s" using arg_cong [OF v1, where f = pw_cpu] by simp
    ultimately have "pool_view u = (pool_view s)\<lparr>pw_cpu := (pcpu_pool s)(cpu := Some c),
        pw_free := cpupool_free_cpus (glob s) - {cpu},
        pw_pools := (pools s)(c := (pools s c)\<lparr>cpu_valid := insert cpu (cpu_valid (pools s c)),
          cpu_suspended := cpu_suspended (pools s c) - {cpu}\<rparr>), pw_locked := cpupool_locked_cpus (glob s) - {cpu}\<rparr>"
      unfolding u(2) pool_view_upd_pool pool_view_free t v1
      by (intro pool_state.equality) (simp_all add: upd_pool_def)
    with up Some have "frozen_as pl V SYS_STATE_resume n up (D - {cpu}) (pool_view u)" by (simp add: r_def)
    with u(1) show ?thesis by (rule that)
  qed
qed

lemma up_resumes:
  assumes "frozen_as pl V SYS_STATE_resume n up D (pool_view s)" and "disjoint_pools pl V" and "cpu \<in> D"
    and "cpu < n" "cpu \<notin> up" "cpu \<in> present" and "up_granted E A W"
  obtains s' where "cpu_up (cpu_chain E A W OK) True present (Inr True) cpu s = (0, s')"
    and "frozen_as pl V SYS_STATE_resume n (insert cpu up) (D - {cpu}) (pool_view s')"
proof -
  obtain s0 where s0: "init_percpu_area OK cpu s = (OK, s0)" by (simp add: init_percpu_area_def)
  obtain s1 where s1: "cpu_schedule_up E A W cpu s0 = (OK, s1)"
    using assms(7) by (metis prod.collapse up_granted_def)
  note pre = chain_up_prepare [OF s0 s1]
  define s2 where "s2 = tell_all CPU_STARTING cpu (cpu_chain E A W OK) (s1\<lparr>current := (current s1)(cpu := idle_vcpu s1 cpu)\<rparr>)"
  define s3 where "s3 = upd_glob (\<lambda>g. g\<lparr>cpu_online_map := insert cpu (cpu_online_map g)\<rparr>) s2"
  have "pool_view s0 = (pool_view s)\<lparr>pw_cpu := (pcpu_pool s)(cpu := None)\<rparr>"
    using view_init_area [of cpu s] s0 by simp
  then have v2: "pool_view s2 = (pool_view s)\<lparr>pw_cpu := (pcpu_pool s)(cpu := None)\<rparr>"
    using view_schedule_up [OF s1] by (simp add: s2_def chain_starting)
  have on: "cpu_online_map (glob s2) = up" "nr_cpu_ids s = n" "cpu_online_map (glob s) = up"
    using arg_cong [OF v2, where f = pw_online] assms(1) by (simp_all add: frozen_as_def)
  have v3: "pool_view s3 = (pool_view s)\<lparr>pw_cpu := (pcpu_pool s)(cpu := None), pw_online := insert cpu up\<rparr>"
    by (simp add: s3_def pool_view_online v2 on)
  have "frozen_as pl V SYS_STATE_resume n (insert cpu up) D (pool_view s3)"
    using assms(1,3) by (auto simp: v3 frozen_as_def)
  moreover have "pcpu_pool s3 cpu = None" using arg_cong [OF v3, where f = pw_cpu] by simp
  ultimately obtain s4 where add: "cpupool_cpu_add E A cpu s3 = (OK, s4)"
    and s4: "frozen_as pl V SYS_STATE_resume n (insert cpu up) (D - {cpu}) (pool_view s4)"
    using add_resumes [OF _ assms(2,3), of _ _ s3] assms(7) by (metis up_granted_def)
  have "cpu_up (cpu_chain E A W OK) True present (Inr True) cpu s = (0, send Pcpu_state s4)"
    using assms(4-6) on unfolding cpu_up_eq cpu_up_spec_def pre
    by (simp add: Let_def s2_def [symmetric] s3_def [symmetric] chain_online add bug_on_def)
  moreover have "frozen_as pl V SYS_STATE_resume n (insert cpu up) (D - {cpu}) (pool_view (send Pcpu_state s4))"
    using s4 by simp
  ultimately show thesis by (rule that)
qed

lemma enable_loop_thaws:
  assumes "frozen_as pl V SYS_STATE_resume n up D (pool_view s)" and "disjoint_pools pl V" and "set cpus \<subseteq> D" "distinct cpus"
    and "set cpus \<inter> up = {}" and "set cpus \<subseteq> {..<n} \<inter> present" and "up_granted E A W"
  shows "frozen_as pl V SYS_STATE_resume n (up \<union> set cpus) (D - set cpus)
    (pool_view (fold (\<lambda>cpu s. case cpu_up (cpu_chain E A W OK) True present (Inr True) cpu s of
       (err, s') \<Rightarrow> bug_on (err = errval (Inl EBUSY)) s') cpus s))"
  using assms(1,3-6)
proof (induction cpus arbitrary: up D s)
  case Nil
  then show ?case by simp
next
  case (Cons cpu cpus)
  obtain s1 where s1: "cpu_up (cpu_chain E A W OK) True present (Inr True) cpu s = (0, s1)"
    "frozen_as pl V SYS_STATE_resume n (insert cpu up) (D - {cpu}) (pool_view s1)"
    using up_resumes [OF Cons.prems(1) assms(2) _ _ _ _ assms(7), of cpu present] Cons.prems by auto
  have eq: "insert cpu up \<union> set cpus = up \<union> set (cpu # cpus)" "D - {cpu} - set cpus = D - set (cpu # cpus)" by auto
  show ?case
    using Cons.IH [of "insert cpu up" "D - {cpu}" "bug_on (0 = errval (Inl EBUSY)) s1"] s1 Cons.prems unfolding eq
    by auto
qed

end

end
