(* ===== verification/Cpu_Hotplug_Props.thy ===== *)
theory Cpu_Hotplug_Props
  imports Cpu_Hotplug_Inv Cpupool_Props
begin

text \<open>
  What CPU hotplug guarantees: the order and the rollback of the notifications for any handlers,
  suspend and resume of the pools, and two failures of the schedulers' handlers.
\<close>

declare not_None_eq [simp del]

interpretation fph: hotplug_contract fp_env
  by unfold_locales (auto simp: fp_env_def sched_fp_def_def fp_init_pdata_def fp_free_pdata_def fp_free_vdata_def erase_upd_vcpu_priv)

section \<open>Rollback\<close>

text \<open>
  C11. Taking CPUs up and down is transactional, whatever the handlers do: cpu_up and cpu_down
  behave as their references, in which the preparation is run over the handlers one by one, and
  if it or a later step fails, exactly the handlers that accepted it are told so, in the opposite
  order; a handler that refused, and those after it, are not. The error is that of the handler or
  of the step that failed. The code finds these handlers by the cursor that the walk along the
  circular chain leaves behind.
\<close>

theorem hotplug_rollback:
  "cpu_up chain lock present boot cpu s = cpu_up_spec chain lock present boot cpu s
   \<and> cpu_down E chain lock stop cpu s = cpu_down_spec E chain lock stop cpu s"
  by (simp add: cpu_up_eq cpu_down_eq)

section \<open>Suspend and resume\<close>

lemma fp_vdata_granted: "fp_alloc_vdata True x t \<noteq> None"
  by (simp add: fp_alloc_vdata_def Let_def)

lemma fp_alloc_granted:
  assumes "\<And>v. al_vdata A v" and "va_struct W = Some v" "va_masks W" "va_arch W"
  shows "fst (alloc_vcpu fp_env A W d i cpu t) = Some v"
proof -
  have "fst (sched_init_vcpu fp_env A x cpu t) = 0" for x cpu t
    using assms(1) fp_vdata_granted by (simp add: sched_init_vcpu_def Let_def)
  then show ?thesis using assms(2-4) by (simp add: alloc_vcpu_def Let_def split_beta)
qed

lemma fp_up_granted:
  assumes "al_pdata A" and "\<And>v. al_vdata A v" and "va_struct W \<noteq> None" "va_masks W" "va_arch W"
  shows "up_granted fp_env A W"
proof -
  obtain v where v: "va_struct W = Some v" using assms(3) by (auto simp: not_None_eq)
  note vdata = fp_vdata_granted and alloc = fp_alloc_granted [OF assms(2) v assms(4,5)]
  have pdata: "op_alloc_pdata (fp_env k) True ops cpu t = (Inr (Some \<lparr>runq = []\<rparr>), t)" for k ops cpu t
    by (simp add: fp_env_def sched_fp_def_def fp_alloc_pdata_def)
  have "fst (cpu_schedule_up fp_env A W cpu t) = OK" for cpu t
    using assms(1,2) vdata alloc by (simp add: cpu_schedule_up_def Let_def pdata split_beta split: option.split)
  moreover have "fst (schedule_cpu_switch fp_env A cpu (Some c) t) = OK" for cpu c t
    using assms(1,2) vdata by (auto simp: schedule_cpu_switch_def Let_def pdata split: option.splits)
  ultimately show ?thesis by (simp add: up_granted_def)
qed


text \<open>CPU 1, the only one of pool 1, goes down and comes back.\<close>

definition demo_vcpu_alloc :: vcpu_alloc where
  "demo_vcpu_alloc = \<lparr>va_struct = Some 9, va_masks = True, va_arch = True\<rparr>"

definition demo_suspend :: fp_xen where
  "demo_suspend = upd_glob (\<lambda>g. g\<lparr>system_state := SYS_STATE_suspend, cpu_online_map := {0, 1}\<rparr>) demo_pools"

lemma demo_suspend_wf: "pool_wf (pool_view demo_suspend)"
  using demo_pools_wf by (simp add: demo_suspend_def upd_glob_def pool_wf_def)

lemma demo_granted: "up_granted fp_env demo_alloc demo_vcpu_alloc"
  by (rule fp_up_granted) (simp_all add: demo_alloc_def demo_vcpu_alloc_def)


section \<open>A second instance of the fixed-priority scheduler\<close>

lemma assert_sel [simp]:
  "percpu (assert b s) = percpu s" "pcpu_sched (assert b s) = pcpu_sched s" "idle_vcpu (assert b s) = idle_vcpu s"
  by (simp_all add: assert_def)

text \<open>A CPU whose schedule lock is not its own does not get past the assertion of fp_switch_sched.\<close>

lemmas fp_switch_eval =
  schedule_cpu_switch_def Let_def fp_env_def sched_fp_def_def fp_alloc_pdata_def fp_alloc_vdata_def fp_switch_sched_def SCHED_OP_def

lemma fp_switch_locked:
  assumes "schedule_cpu_switch fp_env A cpu (Some c) s = (r, s')" and "sd_lock (percpu s cpu) \<noteq> Cpu_lock cpu"
  shows "percpu s' = percpu s \<and> pcpu_sched s' = pcpu_sched s"
  using assms by (auto simp: fp_switch_eval split: if_splits option.splits)

lemma fp_switch_asserts:
  assumes "sd_lock (percpu s cpu) \<noteq> Cpu_lock cpu" and "cp_sched (pools s c) \<noteq> pcpu_sched s cpu"
    and "al_vdata A (idle_vcpu s cpu)"
  shows "fault (snd (schedule_cpu_switch fp_env A cpu (Some c) s)) \<noteq> None"
  using assms by (simp add: fp_switch_eval)

lemma fp_put_locked: "percpu (cpupool_put fp_env c s) = percpu s \<and> pcpu_sched (cpupool_put fp_env c s) = pcpu_sched s"
  by (simp add: cpupool_put_def Let_def scheduler_free_def fp_env_def sched_fp_def_def fp_deinit_def upd_pool_def)

lemma fp_add_locked:
  assumes "sd_lock (percpu s cpu) \<noteq> Cpu_lock cpu"
  shows "percpu (snd (cpupool_cpu_add fp_env A cpu s)) = percpu s \<and> pcpu_sched (snd (cpupool_cpu_add fp_env A cpu s)) = pcpu_sched s"
proof -
  have assign: "percpu (snd (cpupool_assign_cpu_locked fp_env A c cpu t)) = percpu t
      \<and> pcpu_sched (snd (cpupool_assign_cpu_locked fp_env A c cpu t)) = pcpu_sched t" if "percpu t = percpu s" for c t
  proof -
    obtain r u where sw: "schedule_cpu_switch fp_env A cpu (Some c) t = (r, u)" by fastforce
    from fp_switch_locked(1) [OF this] that assms show ?thesis
      by (auto simp: cpupool_assign_cpu_locked_def sw Let_def end_move_def fp_put_locked unfree_cpu_def upd_glob_def upd_pool_def
          split: sum.splits)
  qed
  show ?thesis
    unfolding cpupool_cpu_add_def Let_def
    by (auto simp: split_beta free_cpu_def upd_glob_def upd_pool_def assign split: option.splits sum.splits)
qed

lemma chain_prepare_result:
  "\<exists>ds r t. run_blocks CPU_UP_PREPARE cpu (cpu_chain E A W area) NOTIFY_DONE s = (ds, notifier_rc r, t)"
proof -
  obtain r0 s0 where 0: "init_percpu_area area cpu s = (r0, s0)" by fastforce
  obtain r1 s1 where 1: "cpu_schedule_up E A W cpu s0 = (r1, s1)" by fastforce
  show ?thesis
    by (cases "r0 = OK"; cases "r1 = OK") (auto simp: chain_run_simps 0 1 notifier_rc_stops intro: exI [of _ OK])
qed

lemma cpu_up_succeeds:
  assumes "cpu_up (cpu_chain E A W area) lock present boot cpu s = (0, s')"
  obtains t where "s' = send Pcpu_state (tell_all CPU_ONLINE cpu (cpu_chain E A W area)
    (upd_glob (\<lambda>g. g\<lparr>cpu_online_map := insert cpu (cpu_online_map g)\<rparr>) (tell_all CPU_STARTING cpu (cpu_chain E A W area) t)))"
proof -
  obtain ds r u where run: "run_blocks CPU_UP_PREPARE cpu (cpu_chain E A W area) NOTIFY_DONE s = (ds, notifier_rc r, u)"
    using chain_prepare_result by blast
  have undo: "run_undo a cpu ds err x = (0, y) \<Longrightarrow> err = 0" for a err x y by (auto simp: run_undo_def split: prod.splits)
  have err: "errval (Inl e) \<noteq> 0" for e by simp
  have "notifier_to_errno (notifier_rc r) \<noteq> 0" if "r \<noteq> OK"
    using that err notifier_errno_inverse by (cases r) auto
  with assms err show thesis
    unfolding cpu_up_eq cpu_up_spec_def run
    by (auto simp del: errval_zero simp: Let_def dest!: undo split: if_splits sum.splits bool.splits intro: that)
qed

text \<open>
  C39. A CPU that has come up under the fixed-priority scheduler cannot be given to a second
  instance of it. fp_init_pdata makes the CPU use the lock of the scheduler instance, and
  fp_switch_sched asserts that the CPU uses its own lock: the CPU still uses the instance's lock
  after a successful cpu_up, and with this lock a switch to a pool of another instance fails the
  assertion.
\<close>

theorem fp_second_pool_asserts:
  assumes "cpu_up (cpu_chain fp_env A W area) lock present boot cpu s = (0, s1)"
  shows "sd_lock (percpu s1 cpu) = Sched_lock (pcpu_sched s1 cpu)
    \<and> (\<forall>B t c. sd_lock (percpu t cpu) = sd_lock (percpu s1 cpu) \<and> cp_sched (pools t c) \<noteq> pcpu_sched t cpu
          \<and> al_vdata B (idle_vcpu t cpu) \<longrightarrow> fault (snd (schedule_cpu_switch fp_env B cpu (Some c) t)) \<noteq> None)"
proof -
  from assms obtain t where s1: "s1 = send Pcpu_state (tell_all CPU_ONLINE cpu (cpu_chain fp_env A W area)
    (upd_glob (\<lambda>g. g\<lparr>cpu_online_map := insert cpu (cpu_online_map g)\<rparr>) (tell_all CPU_STARTING cpu (cpu_chain fp_env A W area) t)))"
    by (rule cpu_up_succeeds)
  define u where "u = upd_glob (\<lambda>g. g\<lparr>cpu_online_map := insert cpu (cpu_online_map g)\<rparr>)
    (tell_all CPU_STARTING cpu (cpu_chain fp_env A W area) t)"
  have u: "sd_lock (percpu u cpu) = Sched_lock (pcpu_sched u cpu)"
    by (simp add: u_def chain_starting upd_glob_def SCHED_OP_pdata_def fp_env_def sched_fp_def_def fp_init_pdata_def)
  then have "percpu s1 cpu = percpu u cpu \<and> pcpu_sched s1 cpu = pcpu_sched u cpu"
    using fp_add_locked [of u cpu A] unfolding s1 u_def [symmetric] chain_online
    by (simp add: split_beta send_def bug_on_def)
  with u have "sd_lock (percpu s1 cpu) = Sched_lock (pcpu_sched s1 cpu)" by simp
  then show ?thesis using fp_switch_asserts by simp
qed

text \<open>CPU 1 comes up; then pool 1 belongs to another instance.\<close>

lemma cpu_up_granted:
  assumes "up_granted E A W" and "cpu < nr_cpu_ids s" "cpu \<notin> cpu_online_map (glob s)" "cpu \<in> present"
  shows "fst (cpu_up (cpu_chain E A W OK) True present (Inr True) cpu s) = 0"
proof -
  obtain s0 where s0: "init_percpu_area OK cpu s = (OK, s0)" by (simp add: init_percpu_area_def)
  obtain s1 where s1: "cpu_schedule_up E A W cpu s0 = (OK, s1)" using assms(1) by (metis prod.collapse up_granted_def)
  show ?thesis
    using assms(2-4) unfolding cpu_up_eq cpu_up_spec_def chain_up_prepare [OF s0 s1] by (simp add: Let_def)
qed

theorem fp_second_pool_asserts_witness:
  "\<exists>s1. cpu_up (cpu_chain fp_env demo_alloc demo_vcpu_alloc OK) True {0, 1} (Inr True) 1
      (upd_glob (\<lambda>g. g\<lparr>cpu_online_map := {0}\<rparr>) demo_pools) = (0, s1)
    \<and> fault (snd (schedule_cpu_switch fp_env demo_alloc 1 (Some 7)
        (s1\<lparr>pools := \<lambda>c. (pools s1 c)\<lparr>cp_sched := Suc (pcpu_sched s1 1)\<rparr>\<rparr>))) \<noteq> None"
proof -
  let ?s = "upd_glob (\<lambda>g. g\<lparr>cpu_online_map := {0}\<rparr>) demo_pools"
  have "fst (cpu_up (cpu_chain fp_env demo_alloc demo_vcpu_alloc OK) True {0, 1} (Inr True) 1 ?s) = 0"
    by (rule cpu_up_granted [OF demo_granted]) (simp_all add: upd_glob_def)
  then obtain s1 where s1: "cpu_up (cpu_chain fp_env demo_alloc demo_vcpu_alloc OK) True {0, 1} (Inr True) 1 ?s = (0, s1)"
    by (metis prod.collapse)
  let ?t = "s1\<lparr>pools := \<lambda>c. (pools s1 c)\<lparr>cp_sched := Suc (pcpu_sched s1 1)\<rparr>\<rparr>"
  have "fault (snd (schedule_cpu_switch fp_env demo_alloc 1 (Some 7) ?t)) \<noteq> None"
    by (rule fp_second_pool_asserts [OF s1, THEN conjunct2, rule_format]) (simp add: demo_alloc_def)
  with s1 show ?thesis by blast
qed

section \<open>A failed preparation\<close>

lemma dom_vcpu_priv:
  "dom_vcpu (upd_vcpu v (\<lambda>x. x\<lparr>v_priv := p\<rparr>) s) d i = dom_vcpu s d i"
  "v_domain (vcpus (upd_vcpu v (\<lambda>x. x\<lparr>v_priv := p\<rparr>) s) w) = v_domain (vcpus s w)"
proof -
  have "(\<lambda>w. vcpu_id (vcpus (upd_vcpu v (\<lambda>x. x\<lparr>v_priv := p\<rparr>) s) w) = i) = (\<lambda>w. vcpu_id (vcpus s w) = i)" by auto
  then show "dom_vcpu (upd_vcpu v (\<lambda>x. x\<lparr>v_priv := p\<rparr>) s) d i = dom_vcpu s d i" unfolding dom_vcpu_def by simp
qed simp

lemma schedule_up_fails:
  fixes s :: "('v, 'd, 'p, 'g) xen"
  assumes "cpu \<noteq> 0" and "dom_vcpu s (v_domain (vcpus s (idle_vcpu s 0))) cpu = Some idle"
    and "\<And>k ops v dd t. op_alloc_vdata (E k) (al_vdata A v) ops v dd t \<noteq> None"
    and "\<And>k ops t. op_alloc_pdata (E k) (al_pdata A) ops cpu t = (Inl e, t)"
  obtains s' where "cpu_schedule_up E A W cpu s = (Inl e, s')"
    and "fault s' = fault (assert (v_priv (vcpus s idle) = None) s)" and "v_priv (vcpus s' idle) \<noteq> None"
    and "dom_vcpu s' (v_domain (vcpus s' (idle_vcpu s' 0))) cpu = Some idle"
    and "nr_cpu_ids s' = nr_cpu_ids s" "glob s' = glob s"
proof -
  define s1 where "s1 = upd_pcpu cpu (\<lambda>x. x\<lparr>sd_lock := Cpu_lock cpu, sd_curr := idle_vcpu s cpu, sd_timer := atimer_init cpu,
      urgent_count := 0\<rparr>) (s\<lparr>pcpu_sched := (pcpu_sched s)(cpu := default_ops s)\<rparr>)"
  have s1: "vcpus s1 = vcpus s" "domains s1 = domains s" "idle_vcpu s1 = idle_vcpu s" "nr_cpu_ids s1 = nr_cpu_ids s"
    "glob s1 = glob s" "fault s1 = fault s" "sched_kind s1 = sched_kind s" by (simp_all add: s1_def)
  have d: "dom_vcpu s1 (v_domain (vcpus s1 (idle_vcpu s1 0))) cpu = Some idle"
    using assms(2) by (simp add: s1 dom_vcpu_def)
  define s2 where "s2 = assert (v_priv (vcpus s1 idle) = None) s1"
  have s2: "vcpus s2 = vcpus s" "domains s2 = domains s" "idle_vcpu s2 = idle_vcpu s" "nr_cpu_ids s2 = nr_cpu_ids s"
    "glob s2 = glob s" "fault s2 = fault (assert (v_priv (vcpus s idle) = None) s)"
    by (simp_all add: s2_def assert_def s1 panic_def split: option.split)
  obtain y where y: "op_alloc_vdata (E (sched_kind s (default_ops s))) (al_vdata A idle) (default_ops s) idle
      (d_priv (domains s2 (v_domain (vcpus s1 (idle_vcpu s1 0))))) s2 = Some y"
    using assms(3) by (metis not_None_eq)
  show thesis
  proof (rule that [of "upd_vcpu idle (\<lambda>x. x\<lparr>v_priv := Some y\<rparr>) s2"])
    show "cpu_schedule_up E A W cpu s = (Inl e, upd_vcpu idle (\<lambda>x. x\<lparr>v_priv := Some y\<rparr>) s2)"
      unfolding cpu_schedule_up_def Let_def s1_def [symmetric] d
      using assms(1,4) y by (simp add: s2_def [symmetric] s1(7))
    show "dom_vcpu (upd_vcpu idle (\<lambda>x. x\<lparr>v_priv := Some y\<rparr>) s2) (v_domain (vcpus (upd_vcpu idle (\<lambda>x. x\<lparr>v_priv := Some y\<rparr>) s2)
        (idle_vcpu (upd_vcpu idle (\<lambda>x. x\<lparr>v_priv := Some y\<rparr>) s2) 0))) cpu = Some idle"
      using assms(2) unfolding dom_vcpu_priv by (simp add: dom_vcpu_def s2)
  qed (simp_all add: s2)
qed

lemma cpu_up_pdata_fails:
  fixes s :: "('v, 'd, 'p, 'g) xen"
  assumes "cpu \<noteq> 0" "cpu < nr_cpu_ids s" "cpu \<notin> cpu_online_map (glob s)" "cpu \<in> present"
    and "dom_vcpu s (v_domain (vcpus s (idle_vcpu s 0))) cpu = Some idle"
    and "\<And>k ops v dd t. op_alloc_vdata (E k) (al_vdata A v) ops v dd t \<noteq> None"
    and "\<And>k ops t. op_alloc_pdata (E k) (al_pdata A) ops cpu t = (Inl e, t)"
  obtains s' where "cpu_up (cpu_chain E A W OK) True present boot cpu s = (errval (Inl e), s')"
    and "fault s' = fault (assert (v_priv (vcpus s idle) = None) s)" and "v_priv (vcpus s' idle) \<noteq> None"
    and "dom_vcpu s' (v_domain (vcpus s' (idle_vcpu s' 0))) cpu = Some idle"
    and "nr_cpu_ids s' = nr_cpu_ids s" "cpu_online_map (glob s') = cpu_online_map (glob s)"
proof -
  obtain s0 where s0: "init_percpu_area OK cpu s = (OK, s0)" by (simp add: init_percpu_area_def)
  then have eq: "vcpus s0 = vcpus s" "domains s0 = domains s" "idle_vcpu s0 = idle_vcpu s" "nr_cpu_ids s0 = nr_cpu_ids s"
    "cpu_online_map (glob s0) = cpu_online_map (glob s)" "fault s0 = fault s" by (auto simp: init_percpu_area_def)
  have d: "dom_vcpu s0 (v_domain (vcpus s0 (idle_vcpu s0 0))) cpu = Some idle"
    using assms(5) by (simp add: dom_vcpu_def eq)
  obtain s1 where s1: "cpu_schedule_up E A W cpu s0 = (Inl e, s1)" "fault s1 = fault (assert (v_priv (vcpus s0 idle) = None) s0)"
    "v_priv (vcpus s1 idle) \<noteq> None" "dom_vcpu s1 (v_domain (vcpus s1 (idle_vcpu s1 0))) cpu = Some idle"
    "nr_cpu_ids s1 = nr_cpu_ids s0" "glob s1 = glob s0"
    by (rule schedule_up_fails [where E = E and A = A and W = W, OF assms(1) d assms(6,7)]) blast
  have "run_blocks CPU_UP_PREPARE cpu (cpu_chain E A W OK) NOTIFY_DONE s = ([cpu_percpu_nfb OK], notifier_rc (Inl e), s1)"
    by (simp add: chain_run_simps s0 s1(1) notifier_rc_stops)
  moreover have "run_undo CPU_UP_CANCELED cpu [cpu_percpu_nfb OK] err s1 = (err, s1)" for err
    by (simp add: run_undo_def cpu_percpu_nfb_def cpu_percpu_callback_def bug_on_def)
  ultimately have "cpu_up (cpu_chain E A W OK) True present boot cpu s = (errval (Inl e), s1)"
    using assms(2-4) unfolding cpu_up_eq cpu_up_spec_def by (simp add: notifier_errno_inverse)
  then show thesis
    by (rule that) (use s1 eq in \<open>simp_all add: assert_def panic_def split: option.splits\<close>)
qed

text \<open>
  C40. When the boot scheduler's alloc_pdata reports an error, bringing up a CPU whose idle vcpu
  exists fails with this error and without a fault, but the private data that cpu_schedule_up has
  given to the idle vcpu stay: a handler that refuses CPU_UP_PREPARE is not told CPU_UP_CANCELED.
  The next attempt, although nothing else has changed, fails the assertion in cpu_schedule_up that
  the idle vcpu has none.
\<close>

theorem cpu_up_retry_asserts:
  assumes "cpu \<noteq> 0" "cpu < nr_cpu_ids s" "cpu \<notin> cpu_online_map (glob s)" "cpu \<in> present" "fault s = None"
    and "dom_vcpu s (v_domain (vcpus s (idle_vcpu s 0))) cpu = Some idle" and "v_priv (vcpus s idle) = None"
    and "\<And>k ops v dd t. op_alloc_vdata (E k) (al_vdata A v) ops v dd t \<noteq> None"
    and "\<And>k ops t. op_alloc_pdata (E k) (al_pdata A) ops cpu t = (Inl e, t)"
  shows "\<exists>s1 s2 err. cpu_up (cpu_chain E A W OK) True present boot cpu s = (errval (Inl e), s1) \<and> fault s1 = None
    \<and> v_priv (vcpus s1 idle) \<noteq> None
    \<and> cpu_up (cpu_chain E A W OK) True present boot cpu s1 = (err, s2) \<and> fault s2 = Some Assert_failed"
proof -
  obtain s1 where s1: "cpu_up (cpu_chain E A W OK) True present boot cpu s = (errval (Inl e), s1)"
    "fault s1 = fault (assert (v_priv (vcpus s idle) = None) s)" "v_priv (vcpus s1 idle) \<noteq> None"
    "dom_vcpu s1 (v_domain (vcpus s1 (idle_vcpu s1 0))) cpu = Some idle"
    "nr_cpu_ids s1 = nr_cpu_ids s" "cpu_online_map (glob s1) = cpu_online_map (glob s)"
    by (rule cpu_up_pdata_fails [where E = E and A = A and W = W and boot = boot, OF assms(1-4,6,8,9)]) blast
  obtain s2 where s2: "cpu_up (cpu_chain E A W OK) True present boot cpu s1 = (errval (Inl e), s2)"
    "fault s2 = fault (assert (v_priv (vcpus s1 idle) = None) s1)"
    by (rule cpu_up_pdata_fails [where E = E and A = A and W = W and boot = boot, OF assms(1) _ _ assms(4) s1(4) assms(8,9)]) (use assms(2,3) s1(5,6) in auto)
  have "fault s1 = None" using s1(2) assms(5,7) by (simp add: assert_def)
  moreover have "fault s2 = Some Assert_failed" using s2(2) s1(3) \<open>fault s1 = None\<close> by (simp add: assert_def panic_def)
  ultimately show ?thesis using s1(1,3) s2(1) by blast
qed

text \<open>The fixed-priority scheduler with an alloc_pdata that reports the failed allocation.\<close>

definition demo_env :: "(fp_vcpu, fp_dom, fp_cpu, fpsched_private) sched_env" where
  "demo_env k = sched_fp_def\<lparr>op_alloc_pdata := (\<lambda>mem ops cpu s. (Inl ENOMEM, s))\<rparr>"


text \<open>CPU 1 with the idle vcpu 9, which has no private data after a suspend.\<close>

definition demo_retry :: fp_xen where
  "demo_retry = demo_pools\<lparr>idle_vcpu := (\<lambda>c. if c = 0 then 8 else 9),
     vcpus := (\<lambda>v. (vcpus demo_pools v)\<lparr>v_domain := 7, vcpu_id := (if v = 9 then 1 else 0), v_priv := None\<rparr>),
     domains := (\<lambda>d. (domains demo_pools d)\<lparr>dom_vcpus := [8, 9]\<rparr>)\<rparr>"

theorem cpu_up_retry_asserts_witness:
  "\<exists>s1 s2 err. cpu_up (cpu_chain demo_env demo_alloc demo_vcpu_alloc OK) True {0, 1} (Inr True) 1 demo_retry = (errval (Inl ENOMEM), s1)
    \<and> fault s1 = None \<and> cpu_up (cpu_chain demo_env demo_alloc demo_vcpu_alloc OK) True {0, 1} (Inr True) 1 s1 = (err, s2)
    \<and> fault s2 = Some Assert_failed"
proof -
  have "op_alloc_vdata (demo_env k) (al_vdata demo_alloc v) ops v dd t \<noteq> None" for k v ops dd t
    by (simp add: demo_env_def sched_fp_def_def demo_alloc_def fp_alloc_vdata_def Let_def)
  moreover have "op_alloc_pdata (demo_env k) (al_pdata demo_alloc) ops 1 t = (Inl ENOMEM, t)" for k ops t
    by (simp add: demo_env_def)
  ultimately have "\<exists>s1 s2 err. cpu_up (cpu_chain demo_env demo_alloc demo_vcpu_alloc OK) True {0, 1} (Inr True) 1 demo_retry
      = (errval (Inl ENOMEM), s1) \<and> fault s1 = None \<and> v_priv (vcpus s1 9) \<noteq> None
    \<and> cpu_up (cpu_chain demo_env demo_alloc demo_vcpu_alloc OK) True {0, 1} (Inr True) 1 s1 = (err, s2) \<and> fault s2 = Some Assert_failed"
    by (intro cpu_up_retry_asserts [where idle = 9]) (simp_all add: demo_retry_def dom_vcpu_def demo_globals_def)
  then show ?thesis by blast
qed

end
