(* ===== verification/Vcpu_Props.thy ===== *)
theory Vcpu_Props
  imports Cpu_Hotplug_Props
begin

text \<open>
  The list of the vcpus of a domain: creating a vcpu keeps it in the order of the ids.
\<close>

section \<open>Insertion by id\<close>

lemma prev_vcpu_Some:
  "prev_vcpu arr i = Some p \<longleftrightarrow> (\<exists>j<i. arr j = Some p \<and> (\<forall>k. j < k \<and> k < i \<longrightarrow> arr k = None))"
proof (induction i)
  case (Suc i)
  show ?case
  proof (cases "arr i")
    case None
    with Suc show ?thesis by (auto simp: less_Suc_eq)
  next
    case (Some q)
    then have "(\<exists>j<Suc i. arr j = Some p \<and> (\<forall>k. j < k \<and> k < Suc i \<longrightarrow> arr k = None)) \<longleftrightarrow> p = q"
      by (auto simp: less_Suc_eq)
    with Some show ?thesis by auto
  qed
qed simp

lemma insert_after_append: "p \<notin> set xs \<Longrightarrow> insert_after p x (xs @ p # ys) = xs @ p # x # ys"
  by (induction xs) auto

lemma find_sorted_ids:
  fixes f :: "'a \<Rightarrow> nat"
  shows "sorted_wrt (\<lambda>a b. f a < f b) xs \<Longrightarrow> find (\<lambda>v. f v = i) xs = Some x \<longleftrightarrow> x \<in> set xs \<and> f x = i"
  by (induction xs) auto

text \<open>The new vcpu goes right behind the last one with a smaller id.\<close>

lemma insert_by_id:
  fixes f :: "nat \<Rightarrow> nat"
  assumes "sorted_wrt (\<lambda>a b. f a < f b) xs" and "i \<notin> f ` set xs" and "\<exists>a\<in>set xs. f a < i"
  obtains us p ws where "xs = us @ p # ws" and "prev_vcpu (\<lambda>j. find (\<lambda>v. f v = j) xs) i = Some p"
    and "insert_after p x xs = us @ p # x # ws" and "\<forall>a\<in>set (us @ [p]). f a < i" and "\<forall>a\<in>set ws. i < f a"
proof -
  define ys where "ys = takeWhile (\<lambda>a. f a < i) xs"
  define ws where "ws = dropWhile (\<lambda>a. f a < i) xs"
  have xs: "xs = ys @ ws" by (simp add: ys_def ws_def)
  have below: "\<forall>a\<in>set ys. f a < i" unfolding ys_def by (meson set_takeWhileD)
  have above: "\<forall>a\<in>set ws. i < f a"
  proof (cases ws)
    case (Cons w rest)
    then have "\<not> f w < i" using hd_dropWhile [of "\<lambda>a. f a < i" xs, folded ws_def] by simp
    moreover have "w \<in> set xs" using Cons xs by (metis in_set_conv_decomp)
    ultimately have "i < f w" using assms(2) by (metis image_eqI linorder_neqE_nat)
    with assms(1) Cons show ?thesis unfolding xs by (auto simp: sorted_wrt_append)
  qed simp
  have "ys \<noteq> []" using assms(3) above xs by auto
  then obtain us p where ys: "ys = us @ [p]" by (metis append_butlast_last_id)
  have so: "\<forall>a\<in>set us. f a < f p" using assms(1) unfolding xs ys by (auto simp: sorted_wrt_append)
  have "find (\<lambda>v. f v = k) xs = None" if "f p < k" "k < i" for k
    using that so above unfolding find_None_iff xs ys by auto
  then have "prev_vcpu (\<lambda>j. find (\<lambda>v. f v = j) xs) i = Some p"
    unfolding prev_vcpu_Some find_sorted_ids [OF assms(1)] using below by (intro exI [of _ "f p"]) (auto simp: xs ys)
  moreover have "p \<notin> set us" using so by auto
  then have "insert_after p x xs = us @ p # x # ws" by (simp add: xs ys insert_after_append)
  ultimately show thesis using that [of us p ws] below above xs ys by auto
qed

section \<open>The list of a domain\<close>

text \<open>The ids and domains of the vcpus and the lists of the domains; few operations change them.\<close>

definition listing :: "('v, 'd, 'p, 'g) xen \<Rightarrow> (nat \<Rightarrow> nat \<times> nat) \<times> (nat \<Rightarrow> nat list)" where
  "listing s = (\<lambda>v. (vcpu_id (vcpus s v), v_domain (vcpus s v)), \<lambda>d. dom_vcpus (domains s d))"

lemma listing_simps [simp]:
  "listing (upd_pcpu c h s) = listing s" "listing (panic f s) = listing s" "listing (add_urgent c n s) = listing s"
  "listing (send x s) = listing s" "listing (s\<lparr>idle_vcpu := y\<rparr>) = listing s"
  by (simp_all add: listing_def add_urgent_def send_def)

lemma listing_upd:
  "(\<And>x. vcpu_id (f x) = vcpu_id x \<and> v_domain (f x) = v_domain x) \<Longrightarrow> listing (upd_vcpu v f s) = listing s"
  "(\<And>x. dom_vcpus (g x) = dom_vcpus x) \<Longrightarrow> listing (upd_dom d g s) = listing s"
  by (auto simp: listing_def fun_eq_iff)

lemma listing_settings: "settings s' = settings s \<Longrightarrow> listing s' = listing s"
  by (simp add: listing_def settings_reads [of s' s] settings_dom_reads [of s' s])

lemma listing_erase: "erase s' = erase s \<Longrightarrow> listing s' = listing s"
  by (rule listing_settings [OF settings_erase])

lemma listing_reads:
  assumes "listing s' = listing s"
  shows "vcpu_id (vcpus s' v) = vcpu_id (vcpus s v)" "v_domain (vcpus s' v) = v_domain (vcpus s v)"
    "dom_vcpus (domains s' d) = dom_vcpus (domains s d)"
  using fun_cong [OF arg_cong [OF assms, where f = fst], of v] fun_cong [OF arg_cong [OF assms, where f = snd], of d]
  by (simp_all add: listing_def)

lemma listing_finalise: "listing (domain_finalise_shutdown d s) = listing s"
  by (simp add: domain_finalise_shutdown_def Let_def listing_upd)

context hotplug_contract
begin

lemma listing_check_shutdown [simp]: "listing (vcpu_check_shutdown E v s) = listing s"
  by (simp add: vcpu_check_shutdown_def Let_def listing_finalise vcpu_pause_nosync_def add_pause_def listing_upd
      listing_settings [OF settings_sleep_nosync])

lemma listing_init_vcpu: "sched_init_vcpu E A v cpu s = (r, s') \<Longrightarrow> listing s' = listing s"
  by (auto simp: sched_init_vcpu_def Let_def listing_upd listing_erase [OF erase_insert] split: if_splits)

lemma listing_destroy_vcpu [simp]: "listing (sched_destroy_vcpu E v s) = listing s"
  by (simp add: sched_destroy_vcpu_def Let_def vcpu_ops_def listing_upd listing_erase [OF free_vdata_frame]
      listing_erase [OF erase_remove])

end

text \<open>
  A well-formed list: the ids increase from 0, and the vcpus belong to the domain.
\<close>

definition vcpus_listed :: "('v, 'd, 'p, 'g) xen \<Rightarrow> nat \<Rightarrow> bool" where
  "vcpus_listed s d \<longleftrightarrow>
     sorted_wrt (\<lambda>a b. vcpu_id (vcpus s a) < vcpu_id (vcpus s b)) (dom_vcpus (domains s d))
     \<and> (dom_vcpus (domains s d) = [] \<or> vcpu_id (vcpus s (hd (dom_vcpus (domains s d)))) = 0)
     \<and> (\<forall>v\<in>set (dom_vcpus (domains s d)). v_domain (vcpus s v) = d)"

lemma vcpus_listed_cong: "listing s' = listing s \<Longrightarrow> vcpus_listed s' d = vcpus_listed s d \<and> dom_vcpu s' d i = dom_vcpu s d i"
  by (simp add: vcpus_listed_def dom_vcpu_def listing_reads [of s' s])

lemma listed_find:
  "vcpus_listed s d \<Longrightarrow> dom_vcpu s d i = Some v \<longleftrightarrow> v \<in> set (dom_vcpus (domains s d)) \<and> vcpu_id (vcpus s v) = i"
  unfolding dom_vcpu_def vcpus_listed_def by (rule find_sorted_ids) simp

text \<open>Linking a vcpu that has its id and domain already and is not in the list yet.\<close>

lemma link_listed:
  assumes "vcpus_listed s d" and "dom_vcpu s d i = None" and "v \<notin> set (dom_vcpus (domains s d))"
    and "i = 0 \<longleftrightarrow> dom_vcpus (domains s d) = []" and "vcpu_id (vcpus s v) = i" "v_domain (vcpus s v) = d"
  shows "vcpus_listed (link_vcpu d i v s) d"
    and "set (dom_vcpus (domains (link_vcpu d i v s) d)) = insert v (set (dom_vcpus (domains s d)))"
    and "vcpus (link_vcpu d i v s) = vcpus s" and "fault (link_vcpu d i v s) = fault s"
proof -
  define s1 where "s1 = (if is_idle_domain s d then s\<lparr>idle_vcpu := (idle_vcpu s)(i := v)\<rparr> else s)"
  have s1: "vcpus s1 = vcpus s" "domains s1 = domains s" "fault s1 = fault s" by (simp_all add: s1_def)
  let ?f = "\<lambda>w. vcpu_id (vcpus s w)" and ?xs = "dom_vcpus (domains s d)"
  have so: "sorted_wrt (\<lambda>a b. ?f a < ?f b) ?xs" using assms(1) by (simp add: vcpus_listed_def)
  have new: "i \<notin> ?f ` set ?xs" using assms(2) by (auto simp: dom_vcpu_def find_None_iff)
  have "vcpus_listed (link_vcpu d i v s) d \<and> set (dom_vcpus (domains (link_vcpu d i v s) d)) = insert v (set ?xs)
    \<and> vcpus (link_vcpu d i v s) = vcpus s \<and> fault (link_vcpu d i v s) = fault s"
  proof (cases "i = 0")
    case True
    then show ?thesis
      using assms(4-6) by (simp add: link_vcpu_def Let_def s1_def [symmetric] s1 vcpus_listed_def)
  next
    case False
    then have "?xs \<noteq> []" using assms(4) by simp
    then have "\<exists>a\<in>set ?xs. ?f a < i" using assms(1) False by (metis hd_in_set neq0_conv vcpus_listed_def)
    from insert_by_id [OF so new this, of v] obtain us p ws where xs: "?xs = us @ p # ws"
      and p: "prev_vcpu (\<lambda>j. find (\<lambda>w. ?f w = j) ?xs) i = Some p" and ins: "insert_after p v ?xs = us @ p # v # ws"
      and lo: "\<forall>a\<in>set (us @ [p]). ?f a < i" and hi: "\<forall>a\<in>set ws. i < ?f a" by metis
    have "dom_vcpu s1 d = (\<lambda>j. find (\<lambda>w. ?f w = j) ?xs)" by (simp add: dom_vcpu_def s1 fun_eq_iff)
    with False p have eq: "link_vcpu d i v s = upd_dom d (\<lambda>x. x\<lparr>dom_vcpus := insert_after p v (dom_vcpus x)\<rparr>) s1"
      by (simp add: link_vcpu_def Let_def s1_def [symmetric])
    have "hd (us @ p # v # ws) = hd ?xs" by (cases us) (simp_all add: xs)
    moreover have "sorted_wrt (\<lambda>a b. ?f a < ?f b) (us @ p # v # ws)"
      using so lo hi assms(5) unfolding xs by (auto simp: sorted_wrt_append)
    ultimately show ?thesis
      using assms(1,6) xs by (simp add: eq s1 ins [unfolded xs] vcpus_listed_def) auto
  qed
  then show "vcpus_listed (link_vcpu d i v s) d"
    and "set (dom_vcpus (domains (link_vcpu d i v s) d)) = insert v (set ?xs)"
    and "vcpus (link_vcpu d i v s) = vcpus s" and "fault (link_vcpu d i v s) = fault s" by simp_all
qed

lemma link_elsewhere: "e \<noteq> d \<Longrightarrow> dom_vcpus (domains (link_vcpu d i v s) e) = dom_vcpus (domains s e)"
  by (simp add: link_vcpu_def Let_def split: option.splits)

text \<open>A structure that no domain lists can get an id and a domain without a change of the lists.\<close>

definition named_vcpu :: "nat \<Rightarrow> nat \<Rightarrow> nat \<Rightarrow> ('v, 'd, 'p, 'g) xen \<Rightarrow> ('v, 'd, 'p, 'g) xen" where
  "named_vcpu v d i = upd_vcpu v (\<lambda>x. x\<lparr>v_domain := d, vcpu_id := i\<rparr>)"

lemma dom_vcpu_cong:
  assumes "\<And>w. w \<in> set (dom_vcpus (domains s d)) \<Longrightarrow> vcpu_id (vcpus t w) = vcpu_id (vcpus s w)"
    and "dom_vcpus (domains t d) = dom_vcpus (domains s d)"
  shows "dom_vcpu t d j = dom_vcpu s d j"
  using assms unfolding dom_vcpu_def by (auto intro: find_cong)

lemma named_vcpu_lists:
  assumes "\<And>e. v \<notin> set (dom_vcpus (domains s e))" and t: "listing t = listing (named_vcpu v d i s)"
  shows "vcpus_listed t e = vcpus_listed s e" "dom_vcpu t e j = dom_vcpu s e j"
    "dom_vcpus (domains t e) = dom_vcpus (domains s e)" "vcpu_id (vcpus t v) = i" "v_domain (vcpus t v) = d"
proof -
  have l: "dom_vcpus (domains t e) = dom_vcpus (domains s e)" "vcpu_id (vcpus t w) = (if w = v then i else vcpu_id (vcpus s w))"
    "v_domain (vcpus t w) = (if w = v then d else v_domain (vcpus s w))" for e w
    by (simp_all add: listing_reads [OF t] named_vcpu_def)
  have ne: "w \<noteq> v" if "w \<in> set (dom_vcpus (domains s e))" for w e using that assms(1) by blast
  have "sorted_wrt (\<lambda>a b. vcpu_id (vcpus t a) < vcpu_id (vcpus t b)) (dom_vcpus (domains s e))
      = sorted_wrt (\<lambda>a b. vcpu_id (vcpus s a) < vcpu_id (vcpus s b)) (dom_vcpus (domains s e))"
    using ne [of _ e] by (intro iffI; elim sorted_wrt_mono_rel [rotated]) (auto simp: l)
  then show "vcpus_listed t e = vcpus_listed s e"
    using ne [of _ e] ne [OF hd_in_set] by (auto simp: vcpus_listed_def l)
  show "dom_vcpu t e j = dom_vcpu s e j" using ne by (intro dom_vcpu_cong) (auto simp: l)
qed (simp_all add: listing_reads [OF t] named_vcpu_def)

context hotplug_contract
begin

text \<open>alloc_vcpu either names a structure that it frees again, or it names and links it.\<close>

lemma alloc_vcpu_cases:
  fixes s :: "('v, 'd, 'p, 'g) xen"
  assumes "alloc_vcpu E A V d i cpu s = (r, s')" and "dom_vcpu s d i = None"
  shows "r = None \<and> listing s' = listing s
    \<or> (\<exists>v. va_struct V = Some v \<and> r = None \<and> listing s' = listing (named_vcpu v d i s))
    \<or> (\<exists>v (t :: ('v, 'd, 'p, 'g) xen). va_struct V = Some v \<and> r = Some v \<and> listing t = listing (named_vcpu v d i s)
         \<and> listing s' = listing (link_vcpu d i v t))"
proof (cases "va_struct V")
  case None
  with assms show ?thesis by (simp add: alloc_vcpu_def)
next
  case (Some v)
  define s1 where "s1 = upd_vcpu v (\<lambda>_. zero_vcpu\<lparr>v_domain := d, vcpu_id := i\<rparr>) s"
  define s2 where "s2 = upd_vcpu v (\<lambda>x. if is_idle_domain s d then x\<lparr>runstate := (runstate x)\<lparr>rs_state := RUNSTATE_running\<rparr>\<rparr>
      else x\<lparr>runstate := (runstate x)\<lparr>rs_state := RUNSTATE_offline, rs_entry := clock s\<rparr>,
             pause_flags := insert VPF_down (pause_flags x)\<rparr>) s1"
  obtain r3 s3 where s3: "sched_init_vcpu E A v cpu s2 = (r3, s3)" by fastforce
  have l1: "listing s1 = listing (named_vcpu v d i s)" by (simp add: s1_def named_vcpu_def listing_def fun_eq_iff)
  have "listing s2 = listing s1" unfolding s2_def by (rule listing_upd) simp
  with l1 listing_init_vcpu [OF s3] have l3: "listing s3 = listing (named_vcpu v d i s)" by simp
  have "(r, s') = (if \<not> va_masks V then (None, s1) else if r3 \<noteq> 0 then (None, s3)
      else if \<not> va_arch V then (None, sched_destroy_vcpu E v s3)
      else (Some v, vcpu_check_shutdown E v (link_vcpu d i v s3)))"
    using assms Some s3 by (simp add: alloc_vcpu_def Let_def s1_def [symmetric] s2_def [symmetric] cong: if_cong)
  then show ?thesis using Some l1 l3 by (auto split: if_splits)
qed

end

section \<open>Properties\<close>

text \<open>
  C19. Creating a vcpu (alloc_vcpu), with any scheduler that keeps the contract: the list of the
  domain's vcpus that for_each_vcpu walks stays in the order of the ids and starts with vcpu 0,
  the vcpu is found under its id exactly when it was returned, and every other vcpu of every
  domain is found as before. After each of the failures (no page, no masks, no scheduler data,
  no architecture state) no list has changed.
\<close>

theorem alloc_vcpu_lists:
  fixes s :: "('v, 'd, 'p, 'g) xen"
  assumes "hotplug_contract E" and "vcpus_listed s d" and "dom_vcpu s d i = None"
    and "i = 0 \<longleftrightarrow> dom_vcpus (domains s d) = []"
    and "\<forall>v e. va_struct V = Some v \<longrightarrow> v \<notin> set (dom_vcpus (domains s e))"
    and "alloc_vcpu E A V d i cpu s = (r, s')"
  shows "vcpus_listed s' d
    \<and> (\<forall>e j. dom_vcpu s' e j = (if e = d \<and> j = i then r else dom_vcpu s e j))
    \<and> (r = None \<longrightarrow> (\<forall>e. dom_vcpus (domains s' e) = dom_vcpus (domains s e)))"
proof -
  consider (unstarted) "r = None" "listing s' = listing s"
    | (freed) v where "va_struct V = Some v" "r = None" "listing s' = listing (named_vcpu v d i s)"
    | (made) v and t :: "('v, 'd, 'p, 'g) xen" where "va_struct V = Some v" "r = Some v" "listing t = listing (named_vcpu v d i s)"
        "listing s' = listing (link_vcpu d i v t)"
    using hotplug_contract.alloc_vcpu_cases [OF assms(1,6,3)] by blast
  then show ?thesis
  proof cases
    case unstarted
    then show ?thesis using assms(2,3) vcpus_listed_cong [OF unstarted(2)] by (auto simp: listing_reads [OF unstarted(2)])
  next
    case (freed v)
    with assms(5) have "\<And>e. v \<notin> set (dom_vcpus (domains s e))" by blast
    from named_vcpu_lists [OF this freed(3)] show ?thesis using assms(2,3) freed(2) by simp
  next
    case (made v t)
    with assms(5) have new: "\<And>e. v \<notin> set (dom_vcpus (domains s e))" by blast
    note t = named_vcpu_lists [OF new made(3)]
    have "vcpus_listed t d" "dom_vcpu t d i = None" "v \<notin> set (dom_vcpus (domains t d))"
      "i = 0 \<longleftrightarrow> dom_vcpus (domains t d) = []" using assms(2-4) new by (simp_all add: t)
    note l = link_listed [OF this t(4,5)] and s' = vcpus_listed_cong [OF made(4)]
    have "dom_vcpu s' d j = (if j = i then r else dom_vcpu s d j)" for j
    proof -
      have "\<not> (w \<in> set (dom_vcpus (domains t d)) \<and> vcpu_id (vcpus t w) = i)" for w
        using \<open>dom_vcpu t d i = None\<close> listed_find [OF \<open>vcpus_listed t d\<close>, of i w] by simp
      then have "dom_vcpu s' d j = Some w \<longleftrightarrow> (if j = i then r else dom_vcpu s d j) = Some w" for w
        using l(1,2) t(4) new [of d] assms(2,3) made(2) \<open>vcpus_listed t d\<close>
        by (auto simp: s' listed_find l(3) t(2) [of d, symmetric] t(3))
      then show ?thesis by (metis not_None_eq)
    qed
    moreover have "dom_vcpu s' e j = dom_vcpu s e j" if "e \<noteq> d" for e j
    proof -
      have "dom_vcpu (link_vcpu d i v t) e j = dom_vcpu t e j"
        using that by (intro dom_vcpu_cong) (simp_all add: l(3) link_elsewhere)
      then show ?thesis by (simp add: s' t(2))
    qed
    ultimately show ?thesis using l(1) made(2) s' by (metis option.distinct(1))
  qed
qed

text \<open>Domain 1, which has vcpu 0, gets a vcpu 1 at address 9.\<close>

theorem alloc_vcpu_lists_witness:
  "\<exists>s'. alloc_vcpu fp_env demo_alloc demo_vcpu_alloc 1 1 0 demo_pools = (Some 9, s')
    \<and> vcpus_listed s' 1 \<and> dom_vcpu s' 1 0 = Some 1 \<and> dom_vcpu s' 1 1 = Some 9 \<and> dom_vcpu s' 0 0 = Some 0"
proof -
  obtain r s' where a: "alloc_vcpu fp_env demo_alloc demo_vcpu_alloc 1 1 0 demo_pools = (r, s')" by fastforce
  have d: "vcpu_id (vcpus demo_pools v) = 0" "v_domain (vcpus demo_pools v) = v" if "v < 3" for v
    using that by (simp_all add: demo_pools_def demo_two_def fp_demo_def demo_vcpu_def)
  have "r = Some 9"
    using fp_alloc_granted [of demo_alloc demo_vcpu_alloc 9 1 1 0 demo_pools] a
    by (simp add: demo_alloc_def demo_vcpu_alloc_def)
  moreover have "vcpus_listed s' 1 \<and> dom_vcpu s' 1 0 = Some 1 \<and> dom_vcpu s' 1 1 = r \<and> dom_vcpu s' 0 0 = Some 0"
    using alloc_vcpu_lists [OF fph.hotplug_contract_axioms _ _ _ _ a]
    by (auto simp: vcpus_listed_def dom_vcpu_def d demo_vcpu_alloc_def)
  ultimately show ?thesis using a by simp
qed

end
