(* ===== verification/Sched_Control.thy ===== *)
theory Sched_Control
  imports Cpupool
begin

text \<open>
  The control operations on scheduling parameters (common/schedule.c): they check their arguments
  and call the adjusting hook of the scheduler of a domain or of a pool. \<open>xsm\<close> is the verdict of the
  security module.
\<close>

text \<open>The structures of include/public/domctl.h and sysctl.h; the numbers are unsigned 32-bit.\<close>

record xen_domctl_scheduler_op =
  do_sched_id :: nat
  do_cmd :: domctl_schedop
  do_fp :: xen_domctl_sched_fp

record xen_sysctl_scheduler_op =
  so_cpupool_id :: nat
  so_sched_id :: nat
  so_cmd :: sysctl_schedop
  so_fp :: xen_sysctl_fp_schedule

text \<open>The scheduler of pool 0.\<close>

definition scheduler_id :: "('v, 'd, 'p, 'g) xen \<Rightarrow> nat" where
  "scheduler_id s = sched_kind s (default_ops s)"

text \<open>The structure is returned too: the hook may write to it.\<close>

definition sched_adjust ::
  "('v, 'd, 'p, 'g) sched_env \<Rightarrow> rc \<Rightarrow> nat \<Rightarrow> xen_domctl_scheduler_op \<Rightarrow> ('v, 'd, 'p, 'g) xen
    \<Rightarrow> rc \<times> xen_domctl_scheduler_op \<times> ('v, 'd, 'p, 'g) xen" where
  "sched_adjust E xsm d op s =
     (let ops = dom_scheduler s d
      in case xsm of
           Inl e \<Rightarrow> (Inl e, op, s)
         | Inr _ \<Rightarrow>
             if do_sched_id op \<noteq> sched_kind s ops then (Inl EINVAL, op, s)
             else if do_cmd op = Domctl_other then (Inl EINVAL, op, s)
             else
               case op_adjust (E (sched_kind s ops)) of
                 None \<Rightarrow> (OK, op, s)
               | Some f \<Rightarrow> (case f ops d (do_cmd op) (do_fp op) s of (rc, u, s') \<Rightarrow> (rc, op\<lparr>do_fp := u\<rparr>, s')))"

text \<open>
  \<open>junk\<close> is what the stack holds in the local structure of the hook. The result has the structure
  that is copied to the caller, if one is.
\<close>

definition sched_adjust_global ::
  "('v, 'd, 'p, 'g) sched_env \<Rightarrow> rc \<Rightarrow> xen_sysctl_fp_schedule \<Rightarrow> xen_sysctl_scheduler_op \<Rightarrow> ('v, 'd, 'p, 'g) xen
    \<Rightarrow> rc \<times> xen_sysctl_fp_schedule option \<times> ('v, 'd, 'p, 'g) xen" where
  "sched_adjust_global E xsm junk op s =
     (case xsm of
        Inl e \<Rightarrow> (Inl e, None, s)
      | Inr _ \<Rightarrow>
          if so_cmd op \<noteq> Sysctl_putinfo \<and> so_cmd op \<noteq> Sysctl_getinfo then (Inl EINVAL, None, s)
          else
            case cpupool_get_by_id (s32 (int (so_cpupool_id op))) s of
              (None, s1) \<Rightarrow> (Inl ESRCH, None, s1)
            | (Some c, s1) \<Rightarrow>
                let ops = cp_sched (pools s1 c);
                    (rc, out, s2) =
                      (if so_sched_id op = sched_kind s1 ops
                       then case op_adjust_global (E (sched_kind s1 ops)) of
                              None \<Rightarrow> (OK, None, s1)
                            | Some f \<Rightarrow> f ops (so_cmd op) (so_fp op) junk s1
                       else (Inl EINVAL, None, s1))
                in (rc, out, cpupool_put E c s2))"

end
