(* ===== verification/Sched_Control_Props.thy ===== *)
theory Sched_Control_Props
  imports Sched_Control Cpupool_Props
begin

text \<open>
  The control operations with the fixed-priority scheduler: which calls are refused, that the
  reference to the pool is given back, and that the run queues are in order afterwards.
\<close>

declare not_None_eq [iff del]

section \<open>References to a pool\<close>

text \<open>A change of a reference count is invisible to the fixed-priority scheduler.\<close>

lemma fp_upd_pool:
  assumes "\<And>x. cp_sched (f x) = cp_sched x"
  shows "fp_inv ops (upd_pool c f s) = fp_inv ops s" "fp_doms_ready (upd_pool c f s) = fp_doms_ready s"
    "fp_covered (upd_pool c f s) cpu = fp_covered s cpu"
    "runq_sorted (fp_cmp ops (upd_pool c f s)) (upd_pool c f s) cpu = runq_sorted (fp_cmp ops s) s cpu"
proof -
  have "fp_pools (upd_pool c f s) = fp_pools s"
    unfolding fp_pools_def by (rule filter_cong) (simp_all add: upd_pool_def assms)
  then show "fp_inv ops (upd_pool c f s) = fp_inv ops s" "fp_doms_ready (upd_pool c f s) = fp_doms_ready s"
    "fp_covered (upd_pool c f s) cpu = fp_covered s cpu"
    "runq_sorted (fp_cmp ops (upd_pool c f s)) (upd_pool c f s) cpu = runq_sorted (fp_cmp ops s) s cpu"
    by (simp_all add: upd_pool_def fp_inv_def fp_wf_def fp_linked_def fp_coherent_def fp_dom0_def FPSCHED_PRIV_def is_idle_vcpu_def
        is_idle_domain_def fp_doms_ready_def fp_dom_ready_def fp_covered_def domains_in_cpupool_def runq_sorted_def fp_cmp_def
        FPSCHED_VCPU_def FPSCHED_DOM_def RUNQ_def)
qed

lemma upd_pool_simps [simp]:
  "pools (upd_pool c f s) = (pools s)(c := f (pools s c))" "sched_kind (upd_pool c f s) = sched_kind s"
  "FPSCHED_PRIV (upd_pool c f t) ops = FPSCHED_PRIV t ops"
  by (simp_all add: upd_pool_def FPSCHED_PRIV_def)

text \<open>A reference is taken and given back: the pool lives on.\<close>

lemma get_put:
  assumes "cp_refcnt (pools s c) > 0"
  shows "cpupool_put E c (upd_pool c (\<lambda>x. x\<lparr>cp_refcnt := cp_refcnt x + 1\<rparr>) s) = s"
  using assms by (simp add: cpupool_put_def Let_def) (simp add: upd_pool_def)

section \<open>Global adjustment\<close>

lemma fp_adjust_global_result:
  assumes "fp_adjust_global ops cmd arg junk s = (rc, out, s')" "fp_inv ops s" "fp_doms_ready s"
  shows "pools s' = pools s"
    and "cmd = Sysctl_getinfo \<Longrightarrow> rc = OK \<and> out = Some (junk\<lparr>fs_strategy := strategy (FPSCHED_PRIV s ops)\<rparr>)"
    and "cmd = Sysctl_putinfo \<Longrightarrow> rc = (if fs_strategy arg > 2 then Inl EINVAL else OK) \<and> out = None
      \<and> strategy (FPSCHED_PRIV s' ops) = (if fs_strategy arg > 2 then strategy (FPSCHED_PRIV s ops) else fs_strategy arg)"
proof -
  show "pools s' = pools s" by (rule fp_frameD [OF fp_adjust_global_frame [OF assms]])
  show "rc = OK \<and> out = Some (junk\<lparr>fs_strategy := strategy (FPSCHED_PRIV s ops)\<rparr>)" if "cmd = Sysctl_getinfo"
    using assms(1) that by (simp add: fp_adjust_global_def Let_def fp_sched_get_def)
  assume put: "cmd = Sysctl_putinfo"
  obtain t where t: "fp_inv ops t" "fp_frame s t" "fp_sched_set ops arg s = (rc, t)"
    and s': "s' = fold (\<lambda>c s. fold (\<lambda>d s. fp_sched_set_vm_prio ops d (fd_priority (FPSCHED_DOM s d)) s)
            (domains_in_cpupool s c) s) (fp_pools t) t"
    by (rule fp_adjust_global_split [OF assms(1,2)]) (use put in auto)
  have "fp_reorder_ok ops {} (\<Union>c\<in>set (fp_pools t). \<Union>d\<in>{d \<in> set (domains_in_cpupool t c). \<not> False}. reinserted t d) t s'"
    unfolding s' using t assms(3)
    by (intro fp_reorder_pools) (auto simp: fp_doms_ready_def frame_dom_ready [OF t(2)] fp_frame_preds [OF t(2)])
  then have "FPSCHED_PRIV s' ops = FPSCHED_PRIV t ops" by (simp add: fp_reorder_ok_def FPSCHED_PRIV_def)
  then show "rc = (if fs_strategy arg > 2 then Inl EINVAL else OK) \<and> out = None
      \<and> strategy (FPSCHED_PRIV s' ops) = (if fs_strategy arg > 2 then strategy (FPSCHED_PRIV s ops) else fs_strategy arg)"
    using fp_sched_set_cases [OF t(3)] assms(1) put by (auto simp: FPSCHED_PRIV_def fp_adjust_global_def Let_def split: prod.splits)
qed

text \<open>
  C18. The control operation on the scheduler of a pool. It is refused without any effect by the
  verdict of the security module, with -EINVAL for an unknown command or a scheduler id that is
  not that of the pool, and with -ESRCH for an unknown pool. Otherwise a query returns the
  strategy, a new strategy is in force exactly if it is one of the three and is refused with
  -EINVAL if not, and the run queues of covered CPUs are in the order of the strategy in force. In
  every case the reference to the pool is given back.
\<close>

theorem sched_adjust_global_effect:
  assumes "fp_doms_ready s" and "\<forall>c\<in>set (pool_list s). cp_refcnt (pools s c) > 0 \<and> fp_inv (cp_sched (pools s c)) s"
  shows "case sched_adjust_global fp_env xsm junk op s of
    (rc, out, s') \<Rightarrow>
      if xsm \<noteq> OK then rc = xsm \<and> out = None \<and> s' = s
      else if so_cmd op = Sysctl_other then rc = Inl EINVAL \<and> out = None \<and> s' = s
      else
        (case cpupool_find_by_id (s32 (int (so_cpupool_id op))) s of
          None \<Rightarrow> rc = Inl ESRCH \<and> out = None \<and> s' = s
        | Some c \<Rightarrow>
            let ops = cp_sched (pools s c); old = strategy (FPSCHED_PRIV s ops); new = fs_strategy (so_fp op)
            in if so_sched_id op \<noteq> sched_kind s ops then rc = Inl EINVAL \<and> out = None \<and> s' = s
               else pools s' = pools s \<and> fp_inv ops s'
                 \<and> (\<forall>cpu. fp_covered s' cpu \<longrightarrow> runq_sorted (fp_cmp ops s') s' cpu)
                 \<and> (if so_cmd op = Sysctl_getinfo then rc = OK \<and> out = Some (junk\<lparr>fs_strategy := old\<rparr>)
                    else rc = (if new > 2 then Inl EINVAL else OK) \<and> out = None
                      \<and> strategy (FPSCHED_PRIV s' ops) = (if new > 2 then old else new)))"
proof (cases "xsm \<noteq> OK \<or> so_cmd op = Sysctl_other \<or> cpupool_find_by_id (s32 (int (so_cpupool_id op))) s = None")
  case True
  then show ?thesis
    by (cases "so_cmd op") (auto simp: sched_adjust_global_def cpupool_get_by_id_def cpupool_get_def cpupool_find_by_id_def split: sum.splits)
next
  case False
  then obtain c where find: "cpupool_find_by_id (s32 (int (so_cpupool_id op))) s = Some c" by (auto simp: not_None_eq)
  then have c: "c \<in> set (pool_list s)"
    by (auto simp: cpupool_find_by_id_def cpupool_find_def find_Some_iff split: option.splits if_splits)
  define ops where "ops = cp_sched (pools s c)"
  define s1 where "s1 = upd_pool c (\<lambda>x. x\<lparr>cp_refcnt := cp_refcnt x + 1\<rparr>) s"
  have get: "cpupool_get_by_id (s32 (int (so_cpupool_id op))) s = (Some c, s1)"
    using find by (simp add: cpupool_get_by_id_def cpupool_get_def cpupool_find_by_id_def s1_def)
  have ok: "cp_refcnt (pools s c) > 0" "fp_inv ops s" using assms(2) c by (simp_all add: ops_def)
  have s1: "cp_sched (pools s1 c) = ops" "sched_kind s1 = sched_kind s" "fp_inv ops s1" "fp_doms_ready s1"
    "FPSCHED_PRIV s1 ops = FPSCHED_PRIV s ops"
    using ok assms(1) by (simp_all add: s1_def ops_def fp_upd_pool)
  have put: "cpupool_put fp_env c s1 = s" unfolding s1_def by (rule get_put [OF ok(1)])
  show ?thesis
  proof (cases "so_sched_id op = sched_kind s ops")
    case True
    obtain rc out s2 where s2: "fp_adjust_global ops (so_cmd op) (so_fp op) junk s1 = (rc, out, s2)" by (metis prod_cases3)
    note res = fp_adjust_global_result [OF s2 s1(3,4)] fp_adjust_global_reorders [OF s2 s1(3,4)]
    define s' where "s' = upd_pool c (\<lambda>x. x\<lparr>cp_refcnt := cp_refcnt x - 1\<rparr>) s2"
    have "pools s' = pools s" using res(1) by (auto simp: s'_def s1_def)
    moreover from this have "cpupool_put fp_env c s2 = s'"
      using ok(1) by (simp add: cpupool_put_def Let_def s'_def [symmetric])
    then have "sched_adjust_global fp_env xsm junk op s = (rc, out, s')"
      using False True s2 by (cases "so_cmd op") (auto simp: sched_adjust_global_def get s1(1,2) fp_env_def sched_fp_def_def split: sum.splits)
    moreover have "fp_inv ops s'" "fp_covered s' cpu \<Longrightarrow> runq_sorted (fp_cmp ops s') s' cpu" for cpu
      using res(4,5) by (simp_all add: s'_def fp_upd_pool)
    ultimately show ?thesis
      using False True find res(2,3) s1(5) by (cases "so_cmd op") (auto simp: Let_def ops_def [symmetric] s'_def)
  next
    case diff: False
    then have "sched_adjust_global fp_env xsm junk op s = (Inl EINVAL, None, s)"
      using False put by (cases "so_cmd op") (auto simp: sched_adjust_global_def get s1(1,2) split: sum.splits)
    with diff False find show ?thesis by (auto simp: Let_def ops_def [symmetric])
  qed
qed

text \<open>The switch of strategy on pool 0, and a request for a pool that does not exist.\<close>

definition demo_request :: "nat \<Rightarrow> xen_sysctl_scheduler_op" where
  "demo_request pool = \<lparr>so_cpupool_id = pool, so_sched_id = XEN_SCHEDULER_FP, so_cmd = Sysctl_putinfo,
     so_fp = \<lparr>fs_strategy = 2, fs_load = 0\<rparr>\<rparr>"

lemma demo_swap_pools:
  "pool_list demo_swap = [0]" "cpupool_id (pools demo_swap 0) = 0" "cp_sched (pools demo_swap 0) = 0" "cp_refcnt (pools demo_swap 0) = 1"
  "sched_kind demo_swap 0 = XEN_SCHEDULER_FP"
  by (simp_all add: demo_swap_def fp_demo_def)

theorem sched_adjust_global_effect_witness:
  "(let (rc, out, s') = sched_adjust_global fp_env OK \<lparr>fs_strategy = 0, fs_load = 0\<rparr> (demo_request 0) demo_swap
    in rc = OK \<and> pools s' = pools demo_swap \<and> strategy (FPSCHED_PRIV s' 0) = 2)
   \<and> sched_adjust_global fp_env OK \<lparr>fs_strategy = 0, fs_load = 0\<rparr> (demo_request 5) demo_swap = (Inl ESRCH, None, demo_swap)"
proof -
  have ready: "fp_doms_ready demo_swap" by (simp add: demo_swap_def fp_demo_ready)
  have pools: "\<forall>c\<in>set (pool_list demo_swap). cp_refcnt (pools demo_swap c) > 0 \<and> fp_inv (cp_sched (pools demo_swap c)) demo_swap"
    by (simp add: demo_swap_pools demo_swap_inv)
  have "cpupool_find_by_id (s32 (int 0)) demo_swap = Some 0" "cpupool_find_by_id (s32 (int 5)) demo_swap = None"
    by (simp_all add: cpupool_find_by_id_def cpupool_find_def demo_swap_pools s32_id)
  with sched_adjust_global_effect [OF ready pools, where xsm = OK and junk = "\<lparr>fs_strategy = 0, fs_load = 0\<rparr>" and op = "demo_request 0"]
    sched_adjust_global_effect [OF ready pools, where xsm = OK and junk = "\<lparr>fs_strategy = 0, fs_load = 0\<rparr>" and op = "demo_request 5"]
  show ?thesis by (auto simp: demo_request_def demo_swap_pools Let_def)
qed

section \<open>Adjustment of a domain\<close>



end
