(* ===== verification/Spec2Isabelle.thy ===== *)
theory Spec2Isabelle
  imports Sched_Fp_Props Rangeset_Props Timer_Props Schedule_Props Domain_Props Cpupool_Props
    Cpu_Hotplug_Props Vcpu_Props Sched_Control_Props
begin

text \<open>
  A verification development for CPS-Xen, the Xen hypervisor with a fixed-priority real-time
  scheduler. The sources are those of src/xen-4.10.0/xen.

  \<^bold>\<open>The program and its parts.\<close> The generic scheduling layer (common/schedule.c) runs on every
  physical CPU: a softirq or a timer makes it call schedule(), which asks the scheduler of the
  CPU for the next vcpu and switches to it. A scheduler is a structure of hooks; the one of
  CPS-Xen is common/sched_fp.c, with a run queue per CPU ordered by period, deadline or
  priority. Domains are paused, shut down and resumed by common/domain.c, which sleeps and
  wakes their vcpus through the generic layer. Cpupools (common/cpupool.c) partition the CPUs
  and the domains, each pool with a scheduler instance of its own; moving a CPU or a domain
  detaches it from one scheduler and attaches it to another. CPUs go down and come up
  (common/cpu.c), on suspend and resume all but one, and the scheduling layer and the pools follow
  as handlers on a notifier chain (common/notifier.c). Timers (common/timer.c) drive the
  slices, the periodic and single-shot timers of a vcpu, poll timeouts and watchdogs.
  Rangesets (common/rangeset.c) hold the I/O ports, memory and interrupts a domain may use.

  \<^bold>\<open>The state.\<close> Theory Sched_Types has the record \<open>xen\<close>: maps from addresses to vcpus, domains,
  per-CPU schedule data and pools, the domain and pool lists in order, the pending softirqs,
  the clock that NOW() reads, and the globals of cpupool.c and of the system. Its four type
  parameters are the private data of a scheduler for a vcpu, a domain, a CPU and an instance.
  A pointer is a natural number. BUG_ON, a failed ASSERT, a null dereference and a division by
  zero set the field \<open>fault\<close>, which keeps the first; code after it runs on in the model, so a
  property that excludes faults says so. Integers are \<open>int\<close> with the wrap-around of their C
  type written out (\<open>s64\<close>, \<open>u64\<close>, \<open>s32\<close>, \<open>u32\<close> of Xen_Prelude); the bounds of a rangeset
  are 64-bit unsigned. An error code is the left side of a sum. Whether an allocation succeeds
  is an argument.

  \<^bold>\<open>Theories, in the order of their imports.\<close>

  \<^item> Xen_Prelude: fixed-width arithmetic, CPU masks (include/xen/cpumask.h), error codes.

  \<^item> Sched_Types: the shared state and the helpers of sched.h and sched-if.h.

  \<^item> Sched_Fp: every hook and helper of sched_fp.c. Runq_Order: a locale for a run queue with a
    total, transitive comparison; Sched_Fp_Queue interprets it for the three strategies and
    follows the queue operations. Sched_Fp_Inv: the invariant, and that every hook keeps it;
    Sched_Fp_Adjust: changes of the strategy and of parameters. Sched_Fp_Props: over every run
    the queues stay in order and the invariant holds; a decision picks a vcpu that no eligible
    one precedes; the accounting of budgets and the bound on an overrun; when adjusting
    re-sorts the queues, and the case of domain 0 in which it does not.

  \<^item> Rangeset, Rangeset_Inv, Rangeset_Props: all of rangeset.c and the capability macros of
    iocap.h. Each operation is the set operation it is named after, with the two cases in which
    removing a range adds numbers proved as such; the macros are proved against a locale of
    interval sets that the rangeset operations interpret.

  \<^item> Timer, Timer_Heap, Timer_Inv, Timer_Ops, Timer_Softirq, Timer_Props: all of timer.c except
    its locks. The array heap with its overflow list refines independent timers over every run
    of calls; the softirq fires exactly the expired ones and returns; a CPU that goes away
    loses none.

  \<^item> Schedule: run states, urgent counts, sleeping, waking, migration, affinity, polling, the
    timers of a vcpu, schedule() and the context switch of schedule.c, over a record
    \<open>scheduler\<close> of hooks. Schedule_Inv: the locale \<open>sched_contract\<close> says what a hook may touch
    (its private data, softirqs, the fault), \<open>generic_inv\<close> extends it by a predicate that the
    elementary updates keep and shows that every step of the layer keeps it. Schedule_Runs
    instantiates it with the urgent counts and the run-state times as sublocales. Schedule_Fp
    builds the structure \<open>sched_fp_def\<close> and interprets the contract for it. Schedule_Props: the
    two invariants for every scheduler; schedule() with the fixed-priority scheduler runs the
    best vcpu without a fault; vcpu_migrate returns, or never does when the pool has no CPU;
    unblocking makes progress; polling and the timer hypercall; and that a migrated vcpu can be
    left on the queue of its old CPU.

  \<^item> Domain: pausing, shutdown, deferral, resume, watchdogs and the SCHEDOP hypercall.
    Domain_Inv: what each does to the pause counts and shutdown flags alone, for every scheduler
    of the contract. Domain_Props: controller pauses refine a counter from 0 to 255; the
    shutdown flags are consistent over every run; a shutdown and a resume cancel out.

  \<^item> Cpupool: common/cpupool.c, the functions of schedule.c that attach and detach vcpus, domains
    and CPUs, continue_hypercall_on_cpu and domain_kill. Cpupool_Inv: the abstract state of the
    pools, its well-formedness, and the locale \<open>pool_contract\<close>, which extends \<open>sched_contract\<close>
    by the attaching hooks; that the generic layer leaves the pools alone is another sublocale
    of \<open>generic_inv\<close>. Cpupool_Runs: the effect of each operation on the abstract state, and runs.
    Cpupool_Props interprets the contract for the fixed-priority scheduler; the pools stay
    well-formed over every run; creating, finding and destroying; moving a domain is atomic; and
    the assertion that CPU_DOWN_FAILED violates.

  \<^item> Notifier: common/notifier.c, with positions in the chain for the list pointers of the cursor.
    A walk from a cursor is related to running the handlers one by one, and registration sorts
    the handlers.

  \<^item> Cpu_Hotplug: common/cpu.c, the notifier of schedule.c (cpu_schedule_up, cpu_schedule_down), the
    per-CPU areas, what smpboot.c does to the scheduling state, and alloc_vcpu of common/domain.c.
    Cpu_Hotplug_Inv: references for cpu_up and cpu_down that tell exactly the handlers concerned
    of a failure, and the locale \<open>hotplug_contract\<close>, which extends \<open>pool_contract\<close> by the hooks on
    private data. Cpu_Hotplug_Props interprets it for the fixed-priority scheduler; the code
    equals the references; suspend returns, and with resume it gives every pool its CPUs back;
    and the two assertions that a second fixed-priority pool and a repeated cpu_up violate.
    Vcpu_Props: creating a vcpu keeps the lists of vcpus in order.

  \<^item> Sched_Control, Sched_Control_Props: the control operations sched_adjust and sched_adjust_global,
    every refusal, and their effect with the fixed-priority scheduler.

  \<^bold>\<open>Concurrency.\<close> Each function is one step of the CPU that calls it, as its locks make it: the
  schedule lock of a CPU, cpupool_lock, shutdown_lock. Runs interleave the steps of all CPUs
  in any order. Where a call waits for another CPU (vcpu_sleep_sync), the argument \<open>relax\<close>
  says what happens meanwhile, and a hypothesis that it keeps the data under the caller's lock.

  \<^bold>\<open>Loops.\<close> No definition has fuel. Loops over lists are structural; the four loops that need an
  argument (the two of timer_softirq_action, migrate_timers_from_cpu and the lock retry of
  vcpu_migrate) are partial functions into \<open>option\<close>, and that they return is proved
  (Timer_Props, Schedule_Props).

  \<^bold>\<open>Parameters.\<close> Allocation results, the handlers and the reprogramming of the hardware timer,
  the pending state of event channels, copies from the guest, the security module's answer, the
  random number of cpumask_any, the outcome of starting a CPU and that of stop_machine_run are
  arguments.

  \<^bold>\<open>Not modelled.\<close> Spin locks and interrupts as such, tracing, debug output, NUMA node affinity and
  freed memory; the boot code (scheduler_init, cpupool_presmp_init), whose result the invariants
  describe; sched_tick_suspend and sched_tick_resume, which depend on the state of RCU, and with
  RCU the deferred freeing of per-CPU areas; the softirqs that a CPU handles while it waits for
  another one to start or to die, and the notifier blocks of subsystems that are not modelled;
  event channels, grant tables, memory management, tmem and the construction of domains, which
  the scheduling code only calls; the architecture code beyond the effects of a context switch
  and of CPU hotplug on the scheduling state; the other schedulers, for which only the contract
  is stated; the tools, which are wrappers around hypercalls; and the older source trees beside
  src/xen-4.10.0, which hold the same code for other releases.
\<close>

end
